(* ===== verification/Prelude.thy ===== *)
theory Prelude
  imports Complex_Main "HOL-Library.AList"
begin

text \<open>
  Types, tables and lemmas shared by every component.

  A relational table is an association list from primary keys to rows: looking a row up is
  \<open>map_of\<close>, writing one is \<open>AList.update\<close>, and a guarded single-row SQL statement
  (\<open>UPDATE ... WHERE id = i AND P\<close>) is \<open>cas\<close>, which returns the row count the driver reports.
  One call of a repository operation is one atomic step: the code takes the row lock, or issues
  one statement, for exactly that reason.

  Times are integers in microseconds since the epoch (Python's timezone-aware \<open>datetime\<close> is
  exact to the microsecond); identifiers (UUIDs) are natural numbers, of which the code uses
  equality only.
\<close>

named_theorems table_simps "lookups and guarded updates of tables"
named_theorems py_simps "Python truthiness and defaulting"

type_synonym uuid = nat
type_synonym datetime = int
type_synonym json_obj = "(string \<times> string) list"

definition seconds :: "int \<Rightarrow> int" where
  "seconds n = n * 1000000"

lemma seconds_mono [simp]: "seconds a \<le> seconds b \<longleftrightarrow> a \<le> b"
  by (simp add: seconds_def)

lemma seconds_pos [simp]: "0 < seconds a \<longleftrightarrow> 0 < a"
  by (simp add: seconds_def)

lemma seconds_nonneg [simp]: "0 \<le> seconds a \<longleftrightarrow> 0 \<le> a"
  by (simp add: seconds_def)

section \<open>Tables\<close>

type_synonym 'r table = "(uuid \<times> 'r) list"

definition put :: "uuid \<Rightarrow> 'r \<Rightarrow> 'r table \<Rightarrow> 'r table" where
  "put i r t = AList.update i r t"

definition cas :: "'r table \<Rightarrow> uuid \<Rightarrow> ('r \<Rightarrow> bool) \<Rightarrow> ('r \<Rightarrow> 'r) \<Rightarrow> nat \<times> 'r table" where
  "cas t i P f =
     (case map_of t i of
        None \<Rightarrow> (0, t)
      | Some r \<Rightarrow> if P r then (1, put i (f r) t) else (0, t))"

definition count_rows :: "('r \<Rightarrow> bool) \<Rightarrow> 'r table \<Rightarrow> nat" where
  "count_rows P t = length (filter (\<lambda>(i, r). P r) t)"

definition rows_ok :: "(uuid \<Rightarrow> 'r \<Rightarrow> bool) \<Rightarrow> 'r table \<Rightarrow> bool" where
  "rows_ok Q t \<longleftrightarrow> (\<forall>i r. map_of t i = Some r \<longrightarrow> Q i r)"

lemma map_of_put [table_simps, simp]: "map_of (put i r t) = (map_of t)(i \<mapsto> r)"
  by (simp add: put_def update_conv')

lemma distinct_put [intro]: "distinct (map fst t) \<Longrightarrow> distinct (map fst (put i r t))"
  by (simp add: put_def distinct_update)

lemma cas_Some [table_simps]:
  "map_of t i = Some r \<Longrightarrow> P r \<Longrightarrow> cas t i P f = (1, put i (f r) t)"
  by (simp add: cas_def)

lemma cas_refused [table_simps]:
  "map_of t i = Some r \<Longrightarrow> \<not> P r \<Longrightarrow> cas t i P f = (0, t)"
  by (simp add: cas_def)

lemma cas_missing [table_simps]: "map_of t i = None \<Longrightarrow> cas t i P f = (0, t)"
  by (simp add: cas_def)

lemma cas_count_one:
  "fst (cas t i P f) = 1 \<longleftrightarrow> (\<exists>r. map_of t i = Some r \<and> P r)"
  by (auto simp: cas_def split: option.splits)

lemma cas_row:
  "map_of (snd (cas t i P f)) k =
     (if k = i then map_option (\<lambda>r. if P r then f r else r) (map_of t i) else map_of t k)"
  by (auto simp: cas_def split: option.splits)

lemma cas_other: "k \<noteq> i \<Longrightarrow> map_of (snd (cas t i P f)) k = map_of t k"
  by (simp add: cas_row)

lemma distinct_cas [intro]:
  "distinct (map fst t) \<Longrightarrow> distinct (map fst (snd (cas t i P f)))"
  by (auto simp: cas_def split: option.splits)

section \<open>Python conventions\<close>

text \<open>\<open>x or d\<close> on a nullable column: the default replaces an absent value.\<close>

definition or_else :: "'a option \<Rightarrow> 'a \<Rightarrow> 'a" where
  "or_else x d = (case x of None \<Rightarrow> d | Some v \<Rightarrow> v)"

lemma or_else_simps [simp]: "or_else None d = d" "or_else (Some v) d = v"
  by (simp_all add: or_else_def)

text \<open>\<open>s or None\<close>, \<open>s or ""\<close> on strings: the empty string is falsy.\<close>

definition nonempty_or_none :: "string \<Rightarrow> string option" where
  "nonempty_or_none s = (if s = [] then None else Some s)"

definition truthy_json :: "json_obj option \<Rightarrow> bool" where
  "truthy_json x = (case x of None \<Rightarrow> False | Some m \<Rightarrow> m \<noteq> [])"

text \<open>\<open>int(x)\<close> of a duration in microseconds divided by one million truncates towards zero.\<close>

definition whole_seconds :: "int \<Rightarrow> int" where
  "whole_seconds d = (if 0 \<le> d then d div 1000000 else - ((- d) div 1000000))"

lemma whole_seconds_le: "0 \<le> d \<Longrightarrow> seconds (whole_seconds d) \<le> d"
  by (simp add: whole_seconds_def seconds_def)

text \<open>ASCII lower-casing and whitespace stripping, as \<open>str.lower\<close> and \<open>str.strip\<close> act on ASCII.\<close>

definition lower_char :: "char \<Rightarrow> char" where
  "lower_char c =
     (let n = of_char c :: nat in if 65 \<le> n \<and> n \<le> 90 then char_of (n + 32) else c)"

definition lower :: "string \<Rightarrow> string" where
  "lower s = map lower_char s"

definition is_space :: "char \<Rightarrow> bool" where
  "is_space c = (let n = of_char c :: nat in n = 32 \<or> (9 \<le> n \<and> n \<le> 13) \<or> (28 \<le> n \<and> n \<le> 31))"

definition strip :: "string \<Rightarrow> string" where
  "strip s = rev (dropWhile is_space (rev (dropWhile is_space s)))"

lemma lower_char_idem [simp]: "lower_char (lower_char c) = lower_char c"
proof -
  have "of_char c < (256::nat)" by simp
  then show ?thesis by (auto simp: lower_char_def Let_def)
qed

lemma of_char_lower:
  "of_char (lower_char c) =
     (let n = of_char c :: nat in if 65 \<le> n \<and> n \<le> 90 then n + 32 else n)"
  by (simp add: lower_char_def Let_def)

lemma lower_char_nonletter:
  assumes "\<not> (65 \<le> (of_char p :: nat) \<and> (of_char p :: nat) \<le> 90)"
    and "\<not> (97 \<le> (of_char p :: nat) \<and> (of_char p :: nat) \<le> 122)"
  shows "lower_char c = p \<longleftrightarrow> c = p"
proof
  assume h: "lower_char c = p"
  then have "of_char p = (let n = of_char c :: nat in if 65 \<le> n \<and> n \<le> 90 then n + 32 else n)"
    using of_char_lower [of c] by simp
  then have "(of_char p :: nat) = of_char c"
    using assms by (auto simp: Let_def split: if_splits)
  then show "c = p" by simp
next
  assume "c = p"
  then show "lower_char c = p" using assms(1) by (auto simp: lower_char_def Let_def)
qed

lemma lower_idem [simp]: "lower (lower s) = lower s"
  by (simp add: lower_def)

lemma length_lower [simp]: "length (lower s) = length s"
  by (simp add: lower_def)

text \<open>Python's \<open>sub in s\<close>, \<open>str.startswith\<close>, \<open>str.endswith\<close>, \<open>str.split()\<close>, \<open>" ".join\<close> and \<open>str.rstrip(c)\<close>.\<close>

fun starts_with :: "string \<Rightarrow> string \<Rightarrow> bool" where
  "starts_with [] s = True"
| "starts_with (p # ps) [] = False"
| "starts_with (p # ps) (c # cs) = (p = c \<and> starts_with ps cs)"

fun contains :: "string \<Rightarrow> string \<Rightarrow> bool" where
  "contains p [] = (p = [])"
| "contains p (c # cs) = (starts_with p (c # cs) \<or> contains p cs)"

definition ends_with :: "string \<Rightarrow> string \<Rightarrow> bool" where
  "ends_with p s = starts_with (rev p) (rev s)"

fun split_words :: "string \<Rightarrow> string \<Rightarrow> string list" where
  "split_words acc [] = (if acc = [] then [] else [acc])"
| "split_words acc (c # cs) =
     (if is_space c then (if acc = [] then split_words [] cs else acc # split_words [] cs)
      else split_words (acc @ [c]) cs)"

fun unwords :: "string list \<Rightarrow> string" where
  "unwords [] = []"
| "unwords [w] = w"
| "unwords (w # ws) = w @ '' '' @ unwords ws"

definition rstrip_char :: "char \<Rightarrow> string \<Rightarrow> string" where
  "rstrip_char c s = rev (dropWhile (\<lambda>x. x = c) (rev s))"

lemma starts_with_iff: "starts_with p s \<longleftrightarrow> (\<exists>t. s = p @ t)"
  by (induction p s rule: starts_with.induct) auto

lemma ends_with_iff: "ends_with p s \<longleftrightarrow> (\<exists>t. s = t @ p)"
  unfolding ends_with_def starts_with_iff
  by (metis rev_append rev_rev_ident)

lemma contains_iff: "contains p s \<longleftrightarrow> (\<exists>a b. s = a @ p @ b)"
proof (induction s)
  case (Cons c cs)
  show ?case
  proof
    assume "contains p (c # cs)"
    then consider t where "c # cs = p @ t" | a b where "cs = a @ p @ b"
      by (auto simp: starts_with_iff Cons.IH)
    then show "\<exists>a b. c # cs = a @ p @ b"
    proof cases
      case 1
      then have "c # cs = [] @ p @ t" by simp
      then show ?thesis by blast
    next
      case (2 a b)
      then have "c # cs = (c # a) @ p @ b" by simp
      then show ?thesis by blast
    qed
  next
    assume "\<exists>a b. c # cs = a @ p @ b"
    then obtain a b where ab: "c # cs = a @ p @ b" by blast
    show "contains p (c # cs)"
    proof (cases a)
      case Nil
      with ab have "starts_with p (c # cs)" unfolding starts_with_iff by simp
      then show ?thesis by simp
    next
      case (Cons x xs)
      with ab have "cs = xs @ p @ b" by simp
      with Cons.IH have "contains p cs" by blast
      then show ?thesis by simp
    qed
  qed
qed auto

lemma lower_append [simp]: "lower (a @ b) = lower a @ lower b"
  by (simp add: lower_def)

lemma strip_suffix:
  assumes "s \<noteq> []" "\<not> is_space (hd s)" "\<not> is_space (last s)"
  shows "\<exists>t. strip (a @ s) = t @ s"
proof -
  have "dropWhile is_space s = s" "dropWhile is_space (rev s) = rev s"
    using assms by (auto simp: dropWhile_eq_self_iff hd_rev)
  then have "\<exists>t. dropWhile is_space (a @ s) = t @ s"
    by (auto simp: dropWhile_append)
  then obtain t where t: "dropWhile is_space (a @ s) = t @ s" by blast
  have "dropWhile is_space (rev s @ rev t) = rev s @ rev t"
    using assms by (auto simp: dropWhile_eq_self_iff hd_append hd_rev)
  with t show ?thesis by (auto simp: strip_def)
qed

end
