(* ===== verification/JobState.thy ===== *)
theory JobState
  imports Prelude
begin

text \<open>
  The job-status vocabulary and its transition table (\<open>persistence/models.py\<close> \<open>JobStatus\<close>,
  \<open>persistence/job_state.py\<close>), and the contract every status table of the program is written
  to: a status change is a compare-and-set whose legal sources are declared per target, and a
  settled status is left only towards a declared reopening.
\<close>

section \<open>The contract of a transition table\<close>

text \<open>The status a row is left in by a sequence of compare-and-sets with the given targets.\<close>

fun run_targets :: "('s \<Rightarrow> 's set) \<Rightarrow> 's \<Rightarrow> 's list \<Rightarrow> 's" where
  "run_targets src s [] = s"
| "run_targets src s (t # ts) = run_targets src (if s \<in> src t then t else s) ts"

locale transition_table =
  fixes sources :: "'s \<Rightarrow> 's set"
    and settled :: "'s set"
    and reopens :: "'s set"
  assumes settled_left_only_by_reopening: "s \<in> settled \<Longrightarrow> s \<in> sources t \<Longrightarrow> t \<in> reopens"
    and not_own_source: "t \<notin> sources t"
begin

lemma settled_absorbing:
  "s \<in> settled \<Longrightarrow> set ts \<inter> reopens = {} \<Longrightarrow> run_targets sources s ts = s"
proof (induction ts)
  case (Cons t ts)
  then have "s \<notin> sources t" using settled_left_only_by_reopening by auto
  with Cons show ?case by auto
qed simp

lemma run_targets_append:
  "run_targets sources s (ts @ us) = run_targets sources (run_targets sources s ts) us"
  by (induction ts arbitrary: s) auto

lemma first_settlement_wins:
  assumes "run_targets sources s ts \<in> settled" and "set us \<inter> reopens = {}"
  shows "run_targets sources s (ts @ us) = run_targets sources s ts"
  using assms by (simp add: run_targets_append settled_absorbing)

end

section \<open>Job statuses\<close>

datatype JobStatus =
    JS_pending | JS_running | JS_succeeded | JS_failed | JS_queued | JS_pending_review
  | JS_cancelled

fun JobStatus_value :: "JobStatus \<Rightarrow> string" where
  "JobStatus_value JS_pending = ''pending''"
| "JobStatus_value JS_running = ''running''"
| "JobStatus_value JS_succeeded = ''succeeded''"
| "JobStatus_value JS_failed = ''failed''"
| "JobStatus_value JS_queued = ''queued''"
| "JobStatus_value JS_pending_review = ''pending_review''"
| "JobStatus_value JS_cancelled = ''cancelled''"

definition all_JobStatus :: "JobStatus list" where
  "all_JobStatus = [JS_pending, JS_running, JS_succeeded, JS_failed, JS_queued,
     JS_pending_review, JS_cancelled]"

text \<open>\<open>JobStatus(s)\<close>: the member with that value; \<open>None\<close> is the \<open>ValueError\<close>.\<close>

definition JobStatus_of :: "string \<Rightarrow> JobStatus option" where
  "JobStatus_of v = find (\<lambda>s. JobStatus_value s = v) all_JobStatus"

lemma all_JobStatus_complete: "s \<in> set all_JobStatus"
  by (cases s) (simp_all add: all_JobStatus_def)

lemma JobStatus_of_value [simp]: "JobStatus_of (JobStatus_value s) = Some s"
  by (cases s) (simp_all add: JobStatus_of_def all_JobStatus_def)

lemma JobStatus_of_SomeD: "JobStatus_of v = Some s \<Longrightarrow> JobStatus_value s = v"
  by (auto simp: JobStatus_of_def find_Some_iff)

definition TERMINAL_STATES :: "JobStatus set" where
  "TERMINAL_STATES = {JS_succeeded, JS_failed, JS_cancelled}"

definition ACTIVE_STATES :: "JobStatus set" where
  "ACTIVE_STATES = {JS_pending, JS_running, JS_queued}"

definition is_active :: "string \<Rightarrow> bool" where
  "is_active v = (case JobStatus_of v of None \<Rightarrow> False | Some s \<Rightarrow> s \<in> ACTIVE_STATES)"

fun LEGAL_SOURCES :: "JobStatus \<Rightarrow> JobStatus set option" where
  "LEGAL_SOURCES JS_running = Some {JS_pending}"
| "LEGAL_SOURCES JS_pending = Some {JS_running, JS_pending_review}"
| "LEGAL_SOURCES JS_pending_review = Some {JS_running, JS_pending}"
| "LEGAL_SOURCES JS_queued = Some {JS_pending}"
| "LEGAL_SOURCES JS_succeeded = Some {JS_running, JS_pending_review}"
| "LEGAL_SOURCES JS_failed = Some {JS_pending, JS_queued, JS_running, JS_pending_review}"
| "LEGAL_SOURCES JS_cancelled = Some {JS_pending, JS_queued, JS_running, JS_pending_review}"

definition legal_sources :: "JobStatus \<Rightarrow> JobStatus set" where
  "legal_sources t = or_else (LEGAL_SOURCES t) {}"

datatype TransitionResult =
    applied | already_at_target | rejected_current_state | tr_not_found

lemmas status_sets = TERMINAL_STATES_def ACTIVE_STATES_def legal_sources_def

lemma terminal_not_source: "s \<in> TERMINAL_STATES \<Longrightarrow> s \<notin> legal_sources t"
  by (cases t) (auto simp: status_sets)

interpretation job_states: transition_table legal_sources TERMINAL_STATES "{}"
proof
  fix t
  show "t \<notin> legal_sources t" by (cases t) (auto simp: status_sets)
qed (use terminal_not_source in auto)

lemma legal_sources_nonempty: "legal_sources t \<noteq> {}"
  by (cases t) (auto simp: status_sets)

lemma active_not_terminal: "ACTIVE_STATES \<inter> TERMINAL_STATES = {}"
  by (auto simp: status_sets)

lemma active_reads_value: "is_active (JobStatus_value s) \<longleftrightarrow> s \<in> ACTIVE_STATES"
  by (simp add: is_active_def)



end
