(* ===== verification/RepairJobState.thy ===== *)
theory RepairJobState
  imports JobState
begin

text \<open>
  The repair-job status vocabulary, its transition table and the groups a status belongs to
  (\<open>persistence/models.py\<close> \<open>RepairJobStatus\<close>, \<open>persistence/repair_job_state.py\<close>).
\<close>

datatype RepairJobStatus =
    S_received | S_inspecting | S_awaiting_strategy | S_repairing | S_repair_review | S_meshing
  | S_mesh_review | S_manual_cleanup | S_retrying | S_escalated | S_waiting_customer
  | S_customer_blocked | S_service_failed | S_delivered | S_repair_delivered
  | S_delivery_disputed | S_dead_lettered | S_expired | S_cancelled

fun RepairJobStatus_value :: "RepairJobStatus \<Rightarrow> string" where
  "RepairJobStatus_value S_received = ''received''"
| "RepairJobStatus_value S_inspecting = ''inspecting''"
| "RepairJobStatus_value S_awaiting_strategy = ''awaiting_strategy''"
| "RepairJobStatus_value S_repairing = ''repairing''"
| "RepairJobStatus_value S_repair_review = ''repair_review''"
| "RepairJobStatus_value S_meshing = ''meshing''"
| "RepairJobStatus_value S_mesh_review = ''mesh_review''"
| "RepairJobStatus_value S_manual_cleanup = ''manual_cleanup''"
| "RepairJobStatus_value S_retrying = ''retrying''"
| "RepairJobStatus_value S_escalated = ''escalated''"
| "RepairJobStatus_value S_waiting_customer = ''waiting_customer''"
| "RepairJobStatus_value S_customer_blocked = ''customer_blocked''"
| "RepairJobStatus_value S_service_failed = ''service_failed''"
| "RepairJobStatus_value S_delivered = ''delivered''"
| "RepairJobStatus_value S_repair_delivered = ''repair_delivered''"
| "RepairJobStatus_value S_delivery_disputed = ''delivery_disputed''"
| "RepairJobStatus_value S_dead_lettered = ''dead_lettered''"
| "RepairJobStatus_value S_expired = ''expired''"
| "RepairJobStatus_value S_cancelled = ''cancelled''"

definition all_RepairJobStatus :: "RepairJobStatus list" where
  "all_RepairJobStatus = [S_received, S_inspecting, S_awaiting_strategy, S_repairing,
     S_repair_review, S_meshing, S_mesh_review, S_manual_cleanup, S_retrying, S_escalated,
     S_waiting_customer, S_customer_blocked, S_service_failed, S_delivered, S_repair_delivered,
     S_delivery_disputed, S_dead_lettered, S_expired, S_cancelled]"

definition RepairJobStatus_of :: "string \<Rightarrow> RepairJobStatus option" where
  "RepairJobStatus_of v = find (\<lambda>s. RepairJobStatus_value s = v) all_RepairJobStatus"

lemma RepairJobStatus_of_value [simp]: "RepairJobStatus_of (RepairJobStatus_value s) = Some s"
  by (cases s) (simp_all add: RepairJobStatus_of_def all_RepairJobStatus_def)

definition repair_TERMINAL_STATES :: "RepairJobStatus set" where
  "repair_TERMINAL_STATES =
     {S_delivered, S_repair_delivered, S_cancelled, S_dead_lettered, S_expired}"

definition AWAITING_HUMAN :: "RepairJobStatus set" where
  "AWAITING_HUMAN =
     {S_waiting_customer, S_awaiting_strategy, S_repair_review, S_mesh_review,
      S_manual_cleanup, S_escalated, S_delivery_disputed}"

definition IN_FLIGHT :: "RepairJobStatus set" where
  "IN_FLIGHT = {S_received, S_inspecting, S_repairing, S_meshing, S_retrying}"

definition BLOCKED :: "RepairJobStatus set" where
  "BLOCKED = {S_customer_blocked, S_service_failed}"

fun repair_LEGAL_SOURCES :: "RepairJobStatus \<Rightarrow> RepairJobStatus set option" where
  "repair_LEGAL_SOURCES S_inspecting = Some {S_received, S_retrying}"
| "repair_LEGAL_SOURCES S_awaiting_strategy =
     Some {S_inspecting, S_repair_review, S_mesh_review, S_escalated}"
| "repair_LEGAL_SOURCES S_repairing = Some {S_awaiting_strategy, S_retrying}"
| "repair_LEGAL_SOURCES S_repair_review = Some {S_repairing, S_manual_cleanup}"
| "repair_LEGAL_SOURCES S_meshing = Some {S_awaiting_strategy, S_repair_review, S_retrying}"
| "repair_LEGAL_SOURCES S_mesh_review = Some {S_meshing}"
| "repair_LEGAL_SOURCES S_manual_cleanup =
     Some {S_awaiting_strategy, S_repair_review, S_mesh_review, S_escalated}"
| "repair_LEGAL_SOURCES S_retrying = Some {S_repair_review, S_mesh_review, S_escalated}"
| "repair_LEGAL_SOURCES S_escalated =
     Some {S_awaiting_strategy, S_repairing, S_repair_review, S_meshing, S_mesh_review,
           S_manual_cleanup, S_retrying, S_service_failed}"
| "repair_LEGAL_SOURCES S_waiting_customer =
     Some {S_received, S_inspecting, S_awaiting_strategy, S_repair_review, S_mesh_review,
           S_manual_cleanup, S_escalated}"
| "repair_LEGAL_SOURCES S_received = Some {S_waiting_customer, S_customer_blocked}"
| "repair_LEGAL_SOURCES S_customer_blocked =
     Some {S_waiting_customer, S_awaiting_strategy, S_escalated}"
| "repair_LEGAL_SOURCES S_service_failed =
     Some {S_inspecting, S_repairing, S_meshing, S_retrying, S_escalated}"
| "repair_LEGAL_SOURCES S_delivered = Some {S_mesh_review, S_delivery_disputed}"
| "repair_LEGAL_SOURCES S_repair_delivered = Some {S_repair_review, S_delivery_disputed}"
| "repair_LEGAL_SOURCES S_delivery_disputed = Some {S_delivered, S_repair_delivered}"
| "repair_LEGAL_SOURCES S_dead_lettered = Some {S_service_failed, S_escalated}"
| "repair_LEGAL_SOURCES S_expired = Some {S_waiting_customer, S_customer_blocked}"
| "repair_LEGAL_SOURCES S_cancelled =
     Some {S_received, S_inspecting, S_awaiting_strategy, S_repairing, S_repair_review,
           S_meshing, S_mesh_review, S_manual_cleanup, S_retrying, S_escalated,
           S_waiting_customer, S_customer_blocked, S_service_failed}"

definition repair_legal_sources :: "RepairJobStatus \<Rightarrow> RepairJobStatus set" where
  "repair_legal_sources t = or_else (repair_LEGAL_SOURCES t) {}"

definition is_legal :: "RepairJobStatus \<Rightarrow> RepairJobStatus \<Rightarrow> bool" where
  "is_legal current target \<longleftrightarrow> current \<in> repair_legal_sources target"

definition repair_is_terminal :: "string \<Rightarrow> bool" where
  "repair_is_terminal v =
     (case RepairJobStatus_of v of None \<Rightarrow> False | Some s \<Rightarrow> s \<in> repair_TERMINAL_STATES)"

definition awaits_human :: "string \<Rightarrow> bool" where
  "awaits_human v =
     (case RepairJobStatus_of v of None \<Rightarrow> False | Some s \<Rightarrow> s \<in> AWAITING_HUMAN)"

definition is_blocked :: "string \<Rightarrow> bool" where
  "is_blocked v = (case RepairJobStatus_of v of None \<Rightarrow> False | Some s \<Rightarrow> s \<in> BLOCKED)"

lemmas repair_sets = repair_TERMINAL_STATES_def AWAITING_HUMAN_def IN_FLIGHT_def BLOCKED_def
  repair_legal_sources_def is_legal_def

interpretation repair_states:
  transition_table repair_legal_sources repair_TERMINAL_STATES "{S_delivery_disputed}"
proof
  fix s t assume "s \<in> repair_TERMINAL_STATES" "s \<in> repair_legal_sources t"
  then show "t \<in> {S_delivery_disputed}" by (cases t) (auto simp: repair_sets)
next
  fix t show "t \<notin> repair_legal_sources t" by (cases t) (auto simp: repair_sets)
qed

lemma repair_groups_cover:
  "s \<in> repair_TERMINAL_STATES \<union> AWAITING_HUMAN \<union> IN_FLIGHT \<union> BLOCKED"
  by (cases s) (simp_all add: repair_sets)

lemma repair_groups_disjoint:
  "repair_TERMINAL_STATES \<inter> AWAITING_HUMAN = {}" "repair_TERMINAL_STATES \<inter> IN_FLIGHT = {}"
  "repair_TERMINAL_STATES \<inter> BLOCKED = {}" "AWAITING_HUMAN \<inter> IN_FLIGHT = {}"
  "AWAITING_HUMAN \<inter> BLOCKED = {}" "IN_FLIGHT \<inter> BLOCKED = {}"
  by (simp_all add: repair_sets)

text \<open>A path of legal moves, as an operator or a worker would make them.\<close>

inductive repair_path :: "RepairJobStatus \<Rightarrow> RepairJobStatus list \<Rightarrow> bool" where
  path_here: "repair_path s []"
| path_step: "is_legal s t \<Longrightarrow> repair_path t ts \<Longrightarrow> repair_path s (t # ts)"

inductive_cases repair_path_ConsE: "repair_path s (t # ts)"

fun way_out :: "RepairJobStatus \<Rightarrow> RepairJobStatus list" where
  "way_out S_received = [S_cancelled]"
| "way_out S_delivery_disputed = [S_delivered]"
| "way_out S_delivered = []"
| "way_out S_repair_delivered = []"
| "way_out S_cancelled = []"
| "way_out S_dead_lettered = []"
| "way_out S_expired = []"
| "way_out s = [S_cancelled]"

lemma way_out_path: "repair_path s (way_out s)"
  by (cases s) (auto intro!: repair_path.intros simp: repair_sets)

lemma way_out_settles: "last (s # way_out s) \<in> repair_TERMINAL_STATES"
  by (cases s) (simp_all add: repair_sets)

lemma terminal_moves_only_to_dispute:
  assumes "repair_path s (t # ts)" "s \<in> repair_TERMINAL_STATES"
  shows "t = S_delivery_disputed \<and> s \<in> {S_delivered, S_repair_delivered}"
  using assms
  by (auto elim!: repair_path_ConsE) (cases t; auto simp: repair_sets)+

lemma dispute_targets: "is_legal S_delivery_disputed t \<longleftrightarrow> t \<in> {S_delivered, S_repair_delivered}"
  by (cases t) (simp_all add: repair_sets)

text \<open>
  The lifecycle of a repair job. Every status belongs to exactly one of the four groups, from
  every status a path of legal moves leads to a terminal one, and the only way out of a terminal
  status is the dispute of a delivery. A disputed delivery is not terminal, and only delivering again
  settles it: it cannot be cancelled, although the comment on the table says that anything not already
  settled can be.
\<close>

theorem repair_status_lifecycle:
  "length (filter (\<lambda>g. s \<in> g) [repair_TERMINAL_STATES, AWAITING_HUMAN, IN_FLIGHT, BLOCKED]) = 1
   \<and> (\<exists>ts. repair_path s ts \<and> last (s # ts) \<in> repair_TERMINAL_STATES)
   \<and> (is_legal s t \<longrightarrow> s \<notin> repair_TERMINAL_STATES
        \<or> (t = S_delivery_disputed \<and> s \<in> {S_delivered, S_repair_delivered}))
   \<and> {u. is_legal S_delivery_disputed u} = {S_delivered, S_repair_delivered}
   \<and> S_delivery_disputed \<notin> repair_TERMINAL_STATES"
proof (intro conjI impI)
  show "length (filter (\<lambda>g. s \<in> g) [repair_TERMINAL_STATES, AWAITING_HUMAN, IN_FLIGHT, BLOCKED]) = 1"
    using repair_groups_cover [of s] repair_groups_disjoint by auto
  show "\<exists>ts. repair_path s ts \<and> last (s # ts) \<in> repair_TERMINAL_STATES"
    using way_out_path way_out_settles by blast
  show "s \<notin> repair_TERMINAL_STATES \<or> (t = S_delivery_disputed \<and> s \<in> {S_delivered, S_repair_delivered})"
    if "is_legal s t"
    using terminal_moves_only_to_dispute [OF path_step [OF that path_here]] by blast
  show "{u. is_legal S_delivery_disputed u} = {S_delivered, S_repair_delivered}"
    by (auto simp: dispute_targets)
  show "S_delivery_disputed \<notin> repair_TERMINAL_STATES" by (simp add: repair_TERMINAL_STATES_def)
qed

theorem repair_status_lifecycle_witness:
  "S_meshing \<notin> repair_TERMINAL_STATES"
  using repair_status_lifecycle [of S_meshing S_mesh_review] by (simp add: repair_sets)

end
