(* ===== verification/Jobs.thy ===== *)
theory Jobs
  imports JobState
begin

text \<open>
  The \<open>simulation_jobs\<close> row (\<open>persistence/models.py\<close> \<open>SimulationJob\<close>), the tenant predicate
  (\<open>persistence/repositories/tenant_scope.py\<close>) and the job repository
  (\<open>persistence/repositories/job_repository.py\<close>): status transitions, dispatch bookkeeping,
  the re-run reset and the counts that quotas and the credit gate read.

  \<open>updated_at\<close> is written by the database on every UPDATE (\<open>onupdate=func.now()\<close>) as well as
  explicitly; both are the argument \<open>now\<close>. Parsing an organisation id as a UUID is the
  standard library's \<open>uuid.UUID\<close>, the argument \<open>parse_uuid\<close>.
\<close>

datatype FailedReason = FR_mesh_generation | FR_reviewer_rejected | FR_api_failure | FR_unhandled

record SimulationJob =
  job_id :: uuid
  owner_id :: string
  organization_id :: "uuid option"
  status :: JobStatus
  created_at :: datetime
  updated_at :: datetime
  started_at :: "datetime option"
  ended_at :: "datetime option"
  current_attempt :: int
  failed_reason :: "FailedReason option"
  cancel_reason :: "string option"
  dispatch_payload :: "json_obj option"
  final_result :: "json_obj option"
  pipeline_backend :: "string option"
  pipeline_dispatch_state :: "string option"
  pipeline_execution_id :: "string option"
  pipeline_submitted_at :: "datetime option"
  pipeline_launch_error :: "string option"
  execution_generation :: int
  execution_claim_epoch :: int
  active_worker_token :: "uuid option"
  lease_acquired_at :: "datetime option"
  lease_heartbeat_at :: "datetime option"
  lease_expires_at :: "datetime option"
  owning_backend :: "string option"
  pipeline_deadline_at :: "datetime option"

type_synonym jobs = "SimulationJob table"

section \<open>The tenant predicate\<close>

definition parsed_organization_id :: "(string \<Rightarrow> uuid option) \<Rightarrow> string \<Rightarrow> uuid option" where
  "parsed_organization_id parse_uuid organization =
     (if organization = [] then None else parse_uuid organization)"

definition scope :: "(string \<Rightarrow> uuid option) \<Rightarrow> string \<Rightarrow> string \<Rightarrow> SimulationJob \<Rightarrow> bool" where
  "scope parse_uuid owner organization r =
     (case parsed_organization_id parse_uuid organization of
        Some p \<Rightarrow> organization_id r = Some p
      | None \<Rightarrow> owner_id r = owner)"

definition stamp ::
  "(string \<Rightarrow> uuid option) \<Rightarrow> string \<Rightarrow> string \<Rightarrow> SimulationJob \<Rightarrow> SimulationJob" where
  "stamp parse_uuid owner organization r =
     (case parsed_organization_id parse_uuid organization of
        Some p \<Rightarrow> r\<lparr>owner_id := owner, organization_id := Some p\<rparr>
      | None \<Rightarrow> r\<lparr>owner_id := owner\<rparr>)"

section \<open>Creating and reading rows\<close>

text \<open>The column defaults of a new row; \<open>i\<close> is the generated primary key.\<close>

definition new_row :: "uuid \<Rightarrow> datetime \<Rightarrow> SimulationJob" where
  "new_row i now =
     \<lparr>job_id = i, owner_id = [], organization_id = None, status = JS_pending,
      created_at = now, updated_at = now, started_at = None, ended_at = None,
      current_attempt = 0, failed_reason = None, cancel_reason = None,
      dispatch_payload = None, final_result = None, pipeline_backend = None,
      pipeline_dispatch_state = None, pipeline_execution_id = None,
      pipeline_submitted_at = None, pipeline_launch_error = None,
      execution_generation = 0, execution_claim_epoch = 0, active_worker_token = None,
      lease_acquired_at = None, lease_heartbeat_at = None, lease_expires_at = None,
      owning_backend = None, pipeline_deadline_at = None\<rparr>"

definition create_job ::
  "(string \<Rightarrow> uuid option) \<Rightarrow> jobs \<Rightarrow> uuid \<Rightarrow> datetime \<Rightarrow> string \<Rightarrow> string \<Rightarrow> SimulationJob \<times> jobs"
where
  "create_job parse_uuid t i now owner organization =
     (let r = stamp parse_uuid owner organization (new_row i now) in (r, put i r t))"

definition get_for_owner ::
  "(string \<Rightarrow> uuid option) \<Rightarrow> jobs \<Rightarrow> uuid \<Rightarrow> string \<Rightarrow> string \<Rightarrow> SimulationJob option" where
  "get_for_owner parse_uuid t i owner organization =
     (case map_of t i of
        None \<Rightarrow> None
      | Some r \<Rightarrow> if scope parse_uuid owner organization r then Some r else None)"

definition lock_for_owner ::
  "(string \<Rightarrow> uuid option) \<Rightarrow> jobs \<Rightarrow> uuid \<Rightarrow> string \<Rightarrow> string \<Rightarrow> SimulationJob option" where
  "lock_for_owner parse_uuid t i owner organization =
     (case map_of t i of
        None \<Rightarrow> None
      | Some r \<Rightarrow>
          if owner_id r = owner \<and> scope parse_uuid owner organization r then Some r else None)"

definition get_internal :: "jobs \<Rightarrow> uuid \<Rightarrow> SimulationJob option" where
  "get_internal t i = map_of t i"

definition set_dispatch_payload :: "jobs \<Rightarrow> uuid \<Rightarrow> datetime \<Rightarrow> json_obj \<Rightarrow> jobs" where
  "set_dispatch_payload t i now p =
     snd (cas t i (\<lambda>_. True) (\<lambda>r. r\<lparr>dispatch_payload := Some p, updated_at := now\<rparr>))"

definition set_final_result :: "jobs \<Rightarrow> uuid \<Rightarrow> datetime \<Rightarrow> json_obj \<Rightarrow> jobs" where
  "set_final_result t i now p =
     snd (cas t i (\<lambda>_. True) (\<lambda>r. r\<lparr>final_result := Some p, updated_at := now\<rparr>))"

definition update_current_attempt :: "jobs \<Rightarrow> uuid \<Rightarrow> datetime \<Rightarrow> int \<Rightarrow> jobs" where
  "update_current_attempt t i now n =
     snd (cas t i (\<lambda>_. True) (\<lambda>r. r\<lparr>current_attempt := n, updated_at := now\<rparr>))"

section \<open>Status transitions\<close>

definition timestamps_for :: "JobStatus \<Rightarrow> datetime \<Rightarrow> SimulationJob \<Rightarrow> SimulationJob" where
  "timestamps_for target now r =
     (let r' = r\<lparr>status := target, updated_at := now\<rparr> in
      if target = JS_running then r'\<lparr>started_at := Some now\<rparr>
      else if target \<in> {JS_succeeded, JS_failed, JS_cancelled, JS_pending_review}
      then r'\<lparr>ended_at := Some now\<rparr> else r')"

text \<open>\<open>None\<close> is the \<open>ValueError\<close> for an empty source set.\<close>

definition transition ::
  "jobs \<Rightarrow> uuid \<Rightarrow> JobStatus \<Rightarrow> JobStatus set option \<Rightarrow> datetime \<Rightarrow> (TransitionResult \<times> jobs) option"
where
  "transition t i target allow now =
     (let srcs = or_else allow (legal_sources target) in
      if srcs = {} then None
      else
        (case cas t i (\<lambda>r. status r \<in> srcs) (timestamps_for target now) of
           (n, t') \<Rightarrow>
             if n = 1 then Some (applied, t')
             else (case map_of t' i of
                     None \<Rightarrow> Some (tr_not_found, t')
                   | Some r \<Rightarrow> if status r = target then Some (already_at_target, t')
                              else Some (rejected_current_state, t'))))"

lemma status_timestamps_for [simp]: "status (timestamps_for target now r) = target"
  by (simp add: timestamps_for_def Let_def)

lemma timestamps_for_frame [simp]:
  "job_id (timestamps_for target now r) = job_id r"
  "owner_id (timestamps_for target now r) = owner_id r"
  "organization_id (timestamps_for target now r) = organization_id r"
  "execution_generation (timestamps_for target now r) = execution_generation r"
  "execution_claim_epoch (timestamps_for target now r) = execution_claim_epoch r"
  "active_worker_token (timestamps_for target now r) = active_worker_token r"
  "lease_expires_at (timestamps_for target now r) = lease_expires_at r"
  "pipeline_deadline_at (timestamps_for target now r) = pipeline_deadline_at r"
  "final_result (timestamps_for target now r) = final_result r"
  "failed_reason (timestamps_for target now r) = failed_reason r"
  "dispatch_payload (timestamps_for target now r) = dispatch_payload r"
  by (simp_all add: timestamps_for_def Let_def)

lemma transition_default:
  "transition t i target None now =
     (case map_of t i of
        None \<Rightarrow> Some (tr_not_found, t)
      | Some r \<Rightarrow>
          if status r \<in> legal_sources target
          then Some (applied, put i (timestamps_for target now r) t)
          else if status r = target then Some (already_at_target, t)
          else Some (rejected_current_state, t))"
  using legal_sources_nonempty
  by (auto simp: transition_def Let_def cas_def split: option.splits)

lemma transition_other:
  "transition t i target allow now = Some (res, t') \<Longrightarrow> k \<noteq> i \<Longrightarrow> map_of t' k = map_of t k"
  by (auto simp: transition_def Let_def cas_def split: option.splits if_splits)

text \<open>
  A status transition reports exactly one of its four outcomes, and the outcome says what
  happened: \<open>applied\<close> if and only if the row existed in a legal source state, in which case the
  row now has the target status; on every other outcome the table is unchanged, and the outcome
  tells a repeat (\<open>already_at_target\<close>), a stale caller (\<open>rejected_current_state\<close>) and a missing
  job apart.
\<close>

theorem transition_outcome:
  "\<exists>res t'. transition t i target None now = Some (res, t')
     \<and> (res = applied \<longleftrightarrow> (\<exists>r. map_of t i = Some r \<and> status r \<in> legal_sources target))
     \<and> (res = already_at_target \<longleftrightarrow> (\<exists>r. map_of t i = Some r \<and> status r = target))
     \<and> (res = tr_not_found \<longleftrightarrow> map_of t i = None)
     \<and> (if res = applied then map_option status (map_of t' i) = Some target else t' = t)"
proof (cases "map_of t i")
  case (Some r)
  then show ?thesis
    using job_states.not_own_source [of target]
    by (auto simp: transition_default)
qed (simp add: transition_default)

section \<open>Dispatch bookkeeping\<close>

definition mark_launched :: "jobs \<Rightarrow> uuid \<Rightarrow> string \<Rightarrow> datetime \<Rightarrow> jobs" where
  "mark_launched t i backend now =
     snd (cas t i (\<lambda>r. pipeline_submitted_at r = None)
       (\<lambda>r. r\<lparr>pipeline_dispatch_state := Some ''submitted'',
             pipeline_backend := Some (take 32 backend),
             pipeline_submitted_at := Some now, updated_at := now\<rparr>))"

definition mark_launch_failed :: "jobs \<Rightarrow> uuid \<Rightarrow> string \<Rightarrow> datetime \<Rightarrow> jobs" where
  "mark_launch_failed t i err now =
     (case cas t i (\<lambda>r. status r \<in> legal_sources JS_failed)
             (\<lambda>r. r\<lparr>pipeline_dispatch_state := Some ''launch_failed'',
                   pipeline_launch_error := Some (take 2000 err),
                   status := JS_failed, ended_at := Some now, updated_at := now\<rparr>) of
        (n, t') \<Rightarrow>
          if n = 0
          then snd (cas t' i (\<lambda>_. True)
                 (\<lambda>r. r\<lparr>pipeline_dispatch_state := Some ''launch_failed'',
                       pipeline_launch_error := Some (take 2000 err), updated_at := now\<rparr>))
          else t')"

text \<open>
  A redelivery of an already accepted launch changes nothing in the row. In particular the
  recorded backend is not refreshed: the guard on the submission time covers the whole statement.
\<close>

theorem mark_launched_repeat:
  "map_of (mark_launched (mark_launched t i b1 n1) i b2 n2) i
     = map_of (mark_launched t i b1 n1) i"
  by (cases "map_of t i") (auto simp: mark_launched_def cas_row split: option.splits)

section \<open>The re-run of a parked job\<close>

definition review_rerun_reset ::
  "datetime option \<Rightarrow> datetime option \<Rightarrow> datetime \<Rightarrow> SimulationJob \<Rightarrow> SimulationJob" where
  "review_rerun_reset started ended now r =
     (let r' = r\<lparr>active_worker_token := None, lease_expires_at := Some now,
                pipeline_execution_id := None, pipeline_deadline_at := None, ended_at := None\<rparr> in
      case (started, ended) of
        (Some s, Some e) \<Rightarrow> if 0 < now - e then r'\<lparr>started_at := Some (s + (now - e))\<rparr> else r'
      | _ \<Rightarrow> r')"

definition reset_for_review_rerun ::
  "jobs \<Rightarrow> uuid \<Rightarrow> datetime option \<Rightarrow> datetime option \<Rightarrow> datetime \<Rightarrow> jobs" where
  "reset_for_review_rerun t i started ended now =
     snd (cas t i (\<lambda>r. status r = JS_pending)
       (\<lambda>r. (review_rerun_reset started ended now r)\<lparr>updated_at := now\<rparr>))"

text \<open>
  The re-run of a parked job is billed for its two execution spans and for none of the time a
  person took to answer: with the row's recorded start and end, ending the re-run after a further
  \<open>rerun\<close> charges exactly the first span plus the second.
\<close>

theorem rerun_bills_execution_only:
  assumes "started_at r = Some s" "ended_at r = Some e" "e < now"
  shows "(now + rerun) - the (started_at (review_rerun_reset (started_at r) (ended_at r) now r))
           = (e - s) + rerun"
  using assms by (simp add: review_rerun_reset_def Let_def)

theorem rerun_bills_execution_only_witness:
  "((500::int) + 40)
     - the (started_at (review_rerun_reset (Some 100) (Some 160) 500
             ((new_row 7 50)\<lparr>started_at := Some 100, ended_at := Some 160\<rparr>))) = (160 - 100) + 40"
  using rerun_bills_execution_only
    [of "(new_row 7 50)\<lparr>started_at := Some 100, ended_at := Some 160\<rparr>" 100 160 500 40]
  by simp

section \<open>Counting work in flight\<close>

definition count_active_for_owner :: "jobs \<Rightarrow> string \<Rightarrow> nat" where
  "count_active_for_owner t owner =
     count_rows (\<lambda>r. owner_id r = owner \<and> status r \<in> ACTIVE_STATES) t"

definition count_active_for_organization :: "jobs \<Rightarrow> uuid \<Rightarrow> nat" where
  "count_active_for_organization t org =
     count_rows (\<lambda>r. organization_id r = Some org \<and> status r \<in> ACTIVE_STATES) t"

definition count_total_active :: "jobs \<Rightarrow> nat" where
  "count_total_active t = count_rows (\<lambda>r. status r \<in> ACTIVE_STATES) t"

end
