(* ===== verification/Fence.thy ===== *)
theory Fence
  imports Prelude
begin

text \<open>
  The Redis mirror of the active claim (\<open>adapters/event_stream/fence.py\<close>): per job one key that
  holds the fingerprint of the claim allowed to publish, with an expiry. The store the code talks
  to is explicit state, \<open>fence_store\<close>; a key past its expiry reads as absent, as Redis documents.
  The two Lua scripts (refresh and revoke compare before they act) are each one atomic step.

  The fingerprint is a digest of (job, generation, token); it is the parameter \<open>'f\<close> here and the
  argument \<open>fp\<close> of the lease operations.
\<close>

type_synonym 'f fence_store = "uuid \<Rightarrow> ('f \<times> datetime) option"

definition current :: "datetime \<Rightarrow> 'f fence_store \<Rightarrow> uuid \<Rightarrow> 'f option" where
  "current now s j =
     (case s j of None \<Rightarrow> None | Some (v, expiry) \<Rightarrow> if now < expiry then Some v else None)"

definition install ::
  "datetime \<Rightarrow> uuid \<Rightarrow> 'f \<Rightarrow> int \<Rightarrow> 'f fence_store \<Rightarrow> bool \<times> 'f fence_store" where
  "install now j v ttl s = (True, s(j \<mapsto> (v, now + seconds (max 1 ttl))))"

definition refresh ::
  "datetime \<Rightarrow> uuid \<Rightarrow> 'f \<Rightarrow> int \<Rightarrow> 'f fence_store \<Rightarrow> bool \<times> 'f fence_store" where
  "refresh now j v ttl s =
     (if current now s j = Some v then (True, s(j \<mapsto> (v, now + seconds (max 1 ttl))))
      else (False, s))"

definition heal ::
  "datetime \<Rightarrow> uuid \<Rightarrow> 'f \<Rightarrow> int \<Rightarrow> 'f fence_store \<Rightarrow> bool \<times> 'f fence_store" where
  "heal now j v ttl s =
     (if current now s j = None then (True, s(j \<mapsto> (v, now + seconds (max 1 ttl))))
      else (False, s))"

definition revoke :: "datetime \<Rightarrow> uuid \<Rightarrow> 'f \<Rightarrow> 'f fence_store \<Rightarrow> bool \<times> 'f fence_store" where
  "revoke now j v s =
     (if current now s j = Some v then (True, s(j := None)) else (False, s))"

section \<open>A call that may fail\<close>

text \<open>
  A Redis call either answers or raises; an exception does not say whether the command took
  effect first, so both failures are possible.
\<close>

datatype redis_call = RAnswered | RFailed | RFailedApplied

definition rcall :: "redis_call \<Rightarrow> bool \<times> 's \<Rightarrow> 's \<Rightarrow> bool option \<times> 's" where
  "rcall c reply s =
     (case c of
        RAnswered \<Rightarrow> (Some (fst reply), snd reply)
      | RFailed \<Rightarrow> (None, s)
      | RFailedApplied \<Rightarrow> (None, snd reply))"

section \<open>What a lease operation relies on\<close>

text \<open>
  The laws the claim authority is written against: refresh never changes who is authorised, heal
  fills a hole and nothing else, revoke removes the caller's own mark and nothing else, and none
  of them touches another job's key.
\<close>

locale fence_mirror =
  fixes cur :: "datetime \<Rightarrow> 's \<Rightarrow> uuid \<Rightarrow> 'f option"
    and ins :: "datetime \<Rightarrow> uuid \<Rightarrow> 'f \<Rightarrow> int \<Rightarrow> 's \<Rightarrow> bool \<times> 's"
    and ref :: "datetime \<Rightarrow> uuid \<Rightarrow> 'f \<Rightarrow> int \<Rightarrow> 's \<Rightarrow> bool \<times> 's"
    and hea :: "datetime \<Rightarrow> uuid \<Rightarrow> 'f \<Rightarrow> int \<Rightarrow> 's \<Rightarrow> bool \<times> 's"
    and rev :: "datetime \<Rightarrow> uuid \<Rightarrow> 'f \<Rightarrow> 's \<Rightarrow> bool \<times> 's"
  assumes cur_ins: "cur now (snd (ins now j v ttl s)) k = (if k = j then Some v else cur now s k)"
    and cur_ref: "cur now (snd (ref now j v ttl s)) k = cur now s k"
    and ref_reply: "fst (ref now j v ttl s) \<longleftrightarrow> cur now s j = Some v"
    and cur_hea: "cur now (snd (hea now j v ttl s)) k =
                    (if k = j \<and> cur now s j = None then Some v else cur now s k)"
    and hea_reply: "fst (hea now j v ttl s) \<longleftrightarrow> cur now s j = None"
    and cur_rev: "cur now (snd (rev now j v s)) k =
                    (if k = j \<and> cur now s j = Some v then None else cur now s k)"
begin

text \<open>A caller whose mark is not the one in place cannot displace or remove the one that is.\<close>

lemma stale_mark_powerless:
  assumes "cur now s j = Some w" "w \<noteq> v"
  shows "cur now (snd (ref now j v ttl s)) j = Some w"
    and "cur now (snd (hea now j v ttl s)) j = Some w"
    and "cur now (snd (rev now j v s)) j = Some w"
  using assms by (simp_all add: cur_ref cur_hea cur_rev)

text \<open>Refresh-then-heal leaves the key held: by the caller, or by whoever held it before.\<close>

lemma refresh_or_heal:
  defines "s1 \<equiv> \<lambda>now j v ttl s.
     (if fst (ref now j v ttl s) then snd (ref now j v ttl s)
      else snd (hea now j v ttl (snd (ref now j v ttl s))))"
  shows "cur now (s1 now j v ttl s) j =
           (case cur now s j of None \<Rightarrow> Some v | Some w \<Rightarrow> Some w)"
  by (simp add: s1_def ref_reply cur_ref cur_hea split: option.splits)

text \<open>A lost revoke call can only have removed the caller's own mark.\<close>

lemma rcall_revoke:
  "cur now (snd (rcall c (rev now j v s) s)) k \<in> {cur now s k} \<union>
     (if k = j \<and> cur now s j = Some v then {None} else {})"
  by (cases c) (simp_all add: rcall_def cur_rev)

end

lemma current_after_write [simp]:
  "current now (s(j \<mapsto> (v, now + seconds (max 1 ttl)))) k =
     (if k = j then Some v else current now s k)"
  by (auto simp: current_def)

interpretation redis_fence: fence_mirror current install refresh heal revoke
proof
  fix now j v ttl and s :: "'f fence_store" and k
  show "current now (snd (install now j v ttl s)) k = (if k = j then Some v else current now s k)"
    by (simp add: install_def)
  show "current now (snd (refresh now j v ttl s)) k = current now s k"
    by (auto simp: refresh_def)
  show "fst (refresh now j v ttl s) \<longleftrightarrow> current now s j = Some v"
    by (simp add: refresh_def)
  show "current now (snd (heal now j v ttl s)) k =
          (if k = j \<and> current now s j = None then Some v else current now s k)"
    by (auto simp: heal_def)
  show "fst (heal now j v ttl s) \<longleftrightarrow> current now s j = None"
    by (simp add: heal_def)
  show "current now (snd (revoke now j v s)) k =
          (if k = j \<and> current now s j = Some v then None else current now s k)"
    by (auto simp: revoke_def current_def)
qed

end
