(* ===== verification/Lease.thy ===== *)
theory Lease
  imports Jobs Fence
begin

text \<open>
  Durable, exclusive execution ownership of a job (\<open>persistence/lease.py\<close>): the claim, the
  heartbeat, release, eviction, hand-back and its confirmation, over the job row and the Redis
  mirror. Every operation runs under the row lock, or is one guarded statement; it is one step
  on the \<open>world\<close>.
\<close>

datatype ClaimResult =
    acquired_new_generation | resumed_same_generation | active_lease_conflict
  | already_terminal | invalid_job_state | claim_not_found

text \<open>The exception a claim raises when it cannot revoke the outgoing mirror.\<close>

datatype lease_error = FenceUnavailable

record ExecutionOwnership =
  own_job_id :: uuid
  own_generation :: int
  own_token :: uuid
  own_backend :: string
  own_deadline :: "datetime option"
  own_claim_epoch :: int
  own_fence_ttl :: int

record 'f world =
  w_jobs :: jobs
  w_fence :: "'f fence_store"

type_synonym 'f fingerprint = "uuid \<Rightarrow> int \<Rightarrow> uuid \<Rightarrow> 'f"

definition fence_ttl_seconds :: "SimulationJob \<Rightarrow> datetime \<Rightarrow> int" where
  "fence_ttl_seconds r now =
     (case lease_expires_at r of
        None \<Rightarrow> 1
      | Some expires \<Rightarrow> max 1 (whole_seconds (expires - now)))"

section \<open>The claim\<close>

definition lease_active :: "SimulationJob \<Rightarrow> datetime \<Rightarrow> bool" where
  "lease_active r now \<longleftrightarrow>
     active_worker_token r \<noteq> None \<and>
     (case lease_expires_at r of None \<Rightarrow> False | Some e \<Rightarrow> now < e)"

definition same_execution :: "SimulationJob \<Rightarrow> string option \<Rightarrow> bool" where
  "same_execution r exec_id \<longleftrightarrow>
     (case exec_id of
        None \<Rightarrow> False
      | Some x \<Rightarrow> x \<noteq> [] \<and> pipeline_execution_id r = Some x \<and> 0 < execution_generation r)"

definition claim_row ::
  "SimulationJob \<Rightarrow> int \<Rightarrow> uuid \<Rightarrow> string \<Rightarrow> string option \<Rightarrow> datetime \<Rightarrow> int \<Rightarrow> int \<Rightarrow> SimulationJob"
where
  "claim_row r new_gen tok backend exec_id now lease_s total_s =
     r\<lparr>status := JS_running,
       execution_generation := new_gen,
       execution_claim_epoch := execution_claim_epoch r + 1,
       active_worker_token := Some tok,
       owning_backend := Some backend,
       pipeline_execution_id :=
         (case exec_id of None \<Rightarrow> pipeline_execution_id r
            | Some x \<Rightarrow> if x = [] then pipeline_execution_id r else Some x),
       lease_acquired_at := Some now,
       lease_heartbeat_at := Some now,
       lease_expires_at := Some (now + seconds lease_s),
       started_at := (case started_at r of None \<Rightarrow> Some now | Some s \<Rightarrow> Some s),
       pipeline_deadline_at :=
         (case pipeline_deadline_at r of None \<Rightarrow> Some (now + seconds total_s) | Some d \<Rightarrow> Some d),
       updated_at := now\<rparr>"

lemma claim_row_sel [simp]:
  "job_id (claim_row r g tok b x now ls ts) = job_id r"
  "status (claim_row r g tok b x now ls ts) = JS_running"
  "execution_generation (claim_row r g tok b x now ls ts) = g"
  "execution_claim_epoch (claim_row r g tok b x now ls ts) = execution_claim_epoch r + 1"
  "active_worker_token (claim_row r g tok b x now ls ts) = Some tok"
  "lease_expires_at (claim_row r g tok b x now ls ts) = Some (now + seconds ls)"
  "pipeline_deadline_at (claim_row r g tok b x now ls ts) =
     (case pipeline_deadline_at r of None \<Rightarrow> Some (now + seconds ts) | Some d \<Rightarrow> Some d)"
  "started_at (claim_row r g tok b x now ls ts) =
     (case started_at r of None \<Rightarrow> Some now | Some s \<Rightarrow> Some s)"
  by (simp_all add: claim_row_def)

text \<open>The refusals of a claim, in the code's order; \<open>None\<close> lets it proceed.\<close>

definition claim_guard :: "SimulationJob \<Rightarrow> uuid \<Rightarrow> datetime \<Rightarrow> ClaimResult option" where
  "claim_guard r tok now =
     (if status r \<in> TERMINAL_STATES then Some already_terminal
      else if status r \<notin> {JS_pending, JS_running} then Some invalid_job_state
      else if lease_active r now \<and> active_worker_token r \<noteq> Some tok
      then Some active_lease_conflict
      else None)"

definition resumes :: "SimulationJob \<Rightarrow> uuid \<Rightarrow> string option \<Rightarrow> datetime \<Rightarrow> bool" where
  "resumes r tok exec_id now \<longleftrightarrow>
     (lease_active r now \<and> active_worker_token r = Some tok) \<or> same_execution r exec_id"

definition claim_generation :: "SimulationJob \<Rightarrow> uuid \<Rightarrow> string option \<Rightarrow> datetime \<Rightarrow> int" where
  "claim_generation r tok exec_id now =
     (if resumes r tok exec_id now
      then (if execution_generation r = 0 then 1 else execution_generation r)
      else execution_generation r + 1)"

definition claim_result :: "SimulationJob \<Rightarrow> uuid \<Rightarrow> string option \<Rightarrow> datetime \<Rightarrow> ClaimResult" where
  "claim_result r tok exec_id now =
     (if resumes r tok exec_id now then resumed_same_generation else acquired_new_generation)"

text \<open>Revoking the outgoing holder's mirror; \<open>None\<close> in the first component is the exception.\<close>

definition revoke_outgoing ::
  "'f fingerprint \<Rightarrow> SimulationJob \<Rightarrow> uuid \<Rightarrow> uuid \<Rightarrow> string option \<Rightarrow> datetime \<Rightarrow> redis_call
     \<Rightarrow> 'f fence_store \<Rightarrow> bool option \<times> 'f fence_store"
where
  "revoke_outgoing fp r i tok exec_id now rc s =
     (case active_worker_token r of
        None \<Rightarrow> (Some True, s)
      | Some old \<Rightarrow>
          if claim_result r tok exec_id now = acquired_new_generation
          then rcall rc (revoke now i (fp i (execution_generation r) old) s) s
          else (Some True, s))"

definition granted_ownership ::
  "uuid \<Rightarrow> SimulationJob \<Rightarrow> uuid \<Rightarrow> string \<Rightarrow> datetime \<Rightarrow> ExecutionOwnership" where
  "granted_ownership i r tok backend now =
     \<lparr>own_job_id = i, own_generation = execution_generation r, own_token = tok,
      own_backend = backend, own_deadline = pipeline_deadline_at r,
      own_claim_epoch = execution_claim_epoch r, own_fence_ttl = fence_ttl_seconds r now\<rparr>"

definition claim_execution ::
  "'f fingerprint \<Rightarrow> 'f world \<Rightarrow> uuid \<Rightarrow> uuid \<Rightarrow> string \<Rightarrow> string option \<Rightarrow> datetime \<Rightarrow> int \<Rightarrow> int
     \<Rightarrow> redis_call \<Rightarrow> (lease_error + ClaimResult \<times> ExecutionOwnership option) \<times> 'f world"
where
  "claim_execution fp w i tok backend exec_id now lease_s total_s rc =
     (case map_of (w_jobs w) i of
        None \<Rightarrow> (Inr (claim_not_found, None), w)
      | Some r \<Rightarrow>
          (case claim_guard r tok now of
             Some res \<Rightarrow> (Inr (res, None), w)
           | None \<Rightarrow>
               (case revoke_outgoing fp r i tok exec_id now rc (w_fence w) of
                  (None, s) \<Rightarrow> (Inl FenceUnavailable, w\<lparr>w_fence := s\<rparr>)
                | (Some _, s) \<Rightarrow>
                    let r' = claim_row r (claim_generation r tok exec_id now) tok backend exec_id
                               now lease_s total_s
                    in (Inr (claim_result r tok exec_id now,
                             Some (granted_ownership i r' tok backend now)),
                        w\<lparr>w_jobs := put i r' (w_jobs w), w_fence := s\<rparr>))))"

lemma claim_generation_ge: "execution_generation r \<le> claim_generation r tok x now"
  by (simp add: claim_generation_def)

lemma claim_guard_None:
  "claim_guard r tok now = None \<longleftrightarrow>
     status r \<in> {JS_pending, JS_running}
     \<and> \<not> (lease_active r now \<and> active_worker_token r \<noteq> Some tok)"
  by (auto simp: claim_guard_def status_sets)

section \<open>Ownership checks\<close>

definition holds :: "SimulationJob \<Rightarrow> ExecutionOwnership \<Rightarrow> bool" where
  "holds r own \<longleftrightarrow>
     execution_generation r = own_generation own \<and> active_worker_token r = Some (own_token own)"

definition is_current_owner :: "'f world \<Rightarrow> ExecutionOwnership \<Rightarrow> bool" where
  "is_current_owner w own =
     (case map_of (w_jobs w) (own_job_id own) of
        None \<Rightarrow> False
      | Some r \<Rightarrow> if status r \<in> TERMINAL_STATES then False else holds r own)"

definition lock_current_owner :: "'f world \<Rightarrow> ExecutionOwnership \<Rightarrow> SimulationJob option" where
  "lock_current_owner w own =
     (case map_of (w_jobs w) (own_job_id own) of
        None \<Rightarrow> None
      | Some r \<Rightarrow> if \<not> holds r own then None else Some r)"

section \<open>The heartbeat\<close>

text \<open>
  \<open>rc1\<close> and \<open>rc2\<close> are how the refresh and the heal call end. The row is written before the mirror
  is touched, and a failing mirror never fails the beat. A deadline moved on by an extension that
  is itself in the past is left pending in the session on the refusal: whether it is written is
  the caller's commit, so it is part of the returned world.
\<close>

definition extended_deadline :: "datetime option \<Rightarrow> datetime option \<Rightarrow> datetime option" where
  "extended_deadline deadline extend_to =
     (case (deadline, extend_to) of
        (Some d, Some e) \<Rightarrow> if d < e then Some e else Some d
      | _ \<Rightarrow> deadline)"

definition mirror_beat ::
  "datetime \<Rightarrow> uuid \<Rightarrow> 'f \<Rightarrow> int \<Rightarrow> redis_call \<Rightarrow> redis_call \<Rightarrow> 'f fence_store \<Rightarrow> 'f fence_store" where
  "mirror_beat now i f ttl rc1 rc2 s =
     (case rcall rc1 (refresh now i f ttl s) s of
        (None, s1) \<Rightarrow> s1
      | (Some True, s1) \<Rightarrow> s1
      | (Some False, s1) \<Rightarrow> snd (rcall rc2 (heal now i f ttl s1) s1))"

definition heartbeat ::
  "'f fingerprint \<Rightarrow> 'f world \<Rightarrow> ExecutionOwnership \<Rightarrow> datetime \<Rightarrow> int \<Rightarrow> datetime option
     \<Rightarrow> redis_call \<Rightarrow> redis_call \<Rightarrow> bool \<times> 'f world"
where
  "heartbeat fp w own now lease_s extend_to rc1 rc2 =
     (let i = own_job_id own in
      case map_of (w_jobs w) i of
        None \<Rightarrow> (False, w)
      | Some r \<Rightarrow>
          if status r \<in> TERMINAL_STATES then (False, w)
          else if \<not> holds r own then (False, w)
          else
            let deadline = extended_deadline (pipeline_deadline_at r) extend_to;
                r1 = r\<lparr>pipeline_deadline_at := deadline\<rparr>
            in if (case deadline of None \<Rightarrow> False | Some d \<Rightarrow> d < now)
               then (False, if deadline = pipeline_deadline_at r then w
                            else w\<lparr>w_jobs := put i (r1\<lparr>updated_at := now\<rparr>) (w_jobs w)\<rparr>)
               else
                 let r2 = r1\<lparr>lease_heartbeat_at := Some now,
                             lease_expires_at := Some (now + seconds lease_s),
                             updated_at := now\<rparr>
                 in (True,
                     w\<lparr>w_jobs := put i r2 (w_jobs w),
                       w_fence := mirror_beat now i (fp i (own_generation own) (own_token own))
                                    (fence_ttl_seconds r2 now) rc1 rc2 (w_fence w)\<rparr>))"

section \<open>Giving ownership up\<close>

definition evict_owner ::
  "'f fingerprint \<Rightarrow> 'f world \<Rightarrow> uuid \<Rightarrow> datetime \<Rightarrow> redis_call \<Rightarrow> bool \<times> 'f world" where
  "evict_owner fp w i now rc =
     (case map_of (w_jobs w) i of
        None \<Rightarrow> (False, w)
      | Some r \<Rightarrow>
          (case active_worker_token r of
             None \<Rightarrow> (False, w)
           | Some tok \<Rightarrow>
               (True,
                w\<lparr>w_jobs := put i (r\<lparr>active_worker_token := None, lease_expires_at := Some now,
                                     updated_at := now\<rparr>) (w_jobs w),
                  w_fence := snd (rcall rc
                    (revoke now i (fp i (execution_generation r) tok) (w_fence w)) (w_fence w))\<rparr>)))"

definition release ::
  "'f fingerprint \<Rightarrow> 'f world \<Rightarrow> ExecutionOwnership \<Rightarrow> datetime \<Rightarrow> redis_call \<Rightarrow> 'f world" where
  "release fp w own now rc =
     (let i = own_job_id own in
      case map_of (w_jobs w) i of
        None \<Rightarrow> w
      | Some r \<Rightarrow>
          if status r \<in> TERMINAL_STATES then w
          else if holds r own then
            w\<lparr>w_jobs := put i (r\<lparr>active_worker_token := None, lease_expires_at := Some now,
                                 updated_at := now\<rparr>) (w_jobs w),
              w_fence := snd (rcall rc
                (revoke now i (fp i (own_generation own) (own_token own)) (w_fence w))
                (w_fence w))\<rparr>
          else w)"

definition hand_back ::
  "'f fingerprint \<Rightarrow> 'f world \<Rightarrow> ExecutionOwnership \<Rightarrow> datetime \<Rightarrow> redis_call \<Rightarrow> bool \<times> 'f world" where
  "hand_back fp w own now rc =
     (let i = own_job_id own;
          f' = snd (rcall rc (revoke now i (fp i (own_generation own) (own_token own)) (w_fence w))
                     (w_fence w))
      in case cas (w_jobs w) i (\<lambda>r. status r = JS_running \<and> holds r own)
                (\<lambda>r. r\<lparr>status := JS_pending, active_worker_token := None,
                      lease_expires_at := Some now, updated_at := now\<rparr>) of
           (n, t') \<Rightarrow> (n = 1, w\<lparr>w_jobs := t', w_fence := f'\<rparr>))"

definition confirm_requeued :: "'f world \<Rightarrow> uuid \<Rightarrow> datetime \<Rightarrow> datetime \<Rightarrow> bool \<times> 'f world" where
  "confirm_requeued w i released_at now =
     (case cas (w_jobs w) i
             (\<lambda>r. status r = JS_pending \<and> active_worker_token r = None
                  \<and> lease_expires_at r = Some released_at)
             (\<lambda>r. r\<lparr>lease_expires_at := None, updated_at := now\<rparr>) of
        (n, t') \<Rightarrow> (n = 1, w\<lparr>w_jobs := t'\<rparr>))"

end
