(* ===== verification/LeaseProps.thy ===== *)
theory LeaseProps
  imports Lease
begin

text \<open>
  What the lease guarantees over any sequence of operations on the job rows, by any number of
  workers: the operations as one step function, the evolution of a row under a step, and the
  theorems on supersession, claim order, conflicts, heartbeats and the mirror.
\<close>

section \<open>Every operation that writes a job row\<close>

datatype lease_op =
    Claim uuid uuid string "string option" datetime int int redis_call
  | Beat ExecutionOwnership datetime int "datetime option" redis_call redis_call
  | Release ExecutionOwnership datetime redis_call
  | Evict uuid datetime redis_call
  | HandBack ExecutionOwnership datetime redis_call
  | Confirm uuid datetime datetime
  | Move uuid JobStatus datetime
  | Launched uuid string datetime
  | LaunchFailed uuid string datetime
  | RerunReset uuid "datetime option" "datetime option" datetime
  | SetResult uuid datetime json_obj

definition on_jobs :: "(jobs \<Rightarrow> jobs) \<Rightarrow> 'f world \<Rightarrow> 'f world" where
  "on_jobs f w = w\<lparr>w_jobs := f (w_jobs w)\<rparr>"

fun lease_step :: "'f fingerprint \<Rightarrow> lease_op \<Rightarrow> 'f world \<Rightarrow> 'f world" where
  "lease_step fp (Claim i tok b x now ls ts rc) w =
     snd (claim_execution fp w i tok b x now ls ts rc)"
| "lease_step fp (Beat own now ls ext rc1 rc2) w = snd (heartbeat fp w own now ls ext rc1 rc2)"
| "lease_step fp (Release own now rc) w = release fp w own now rc"
| "lease_step fp (Evict i now rc) w = snd (evict_owner fp w i now rc)"
| "lease_step fp (HandBack own now rc) w = snd (hand_back fp w own now rc)"
| "lease_step fp (Confirm i released now) w = snd (confirm_requeued w i released now)"
| "lease_step fp (Move i target now) w =
     on_jobs (\<lambda>t. case transition t i target None now of None \<Rightarrow> t | Some (_, t') \<Rightarrow> t') w"
| "lease_step fp (Launched i b now) w = on_jobs (\<lambda>t. mark_launched t i b now) w"
| "lease_step fp (LaunchFailed i e now) w = on_jobs (\<lambda>t. mark_launch_failed t i e now) w"
| "lease_step fp (RerunReset i s e now) w = on_jobs (\<lambda>t. reset_for_review_rerun t i s e now) w"
| "lease_step fp (SetResult i now p) w = on_jobs (\<lambda>t. set_final_result t i now p) w"

definition lease_run :: "'f fingerprint \<Rightarrow> lease_op list \<Rightarrow> 'f world \<Rightarrow> 'f world" where
  "lease_run fp ops w = fold (lease_step fp) ops w"

lemma lease_run_simps [simp]:
  "lease_run fp [] w = w"
  "lease_run fp (op # ops) w = lease_run fp ops (lease_step fp op w)"
  by (simp_all add: lease_run_def)

lemma lease_run_append:
  "lease_run fp (xs @ ys) w = lease_run fp ys (lease_run fp xs w)"
  by (simp add: lease_run_def)

fun claim_token :: "lease_op \<Rightarrow> uuid option" where
  "claim_token (Claim i tok b x now ls ts rc) = Some tok"
| "claim_token _ = None"

section \<open>How one step changes a row\<close>

definition keeps_owner :: "SimulationJob \<Rightarrow> SimulationJob \<Rightarrow> bool" where
  "keeps_owner r r' \<longleftrightarrow>
     active_worker_token r' \<in> {active_worker_token r, None}
     \<and> execution_generation r' = execution_generation r
     \<and> execution_claim_epoch r' = execution_claim_epoch r"

definition takes_over :: "uuid option \<Rightarrow> SimulationJob \<Rightarrow> SimulationJob \<Rightarrow> bool" where
  "takes_over tok r r' \<longleftrightarrow>
     tok \<noteq> None \<and> active_worker_token r' = tok \<and> status r \<notin> TERMINAL_STATES
     \<and> execution_generation r \<le> execution_generation r'
     \<and> execution_claim_epoch r' = execution_claim_epoch r + 1"

definition row_evolves :: "uuid option \<Rightarrow> SimulationJob \<Rightarrow> SimulationJob \<Rightarrow> bool" where
  "row_evolves tok r r' \<longleftrightarrow>
     (status r \<in> TERMINAL_STATES \<longrightarrow> status r' = status r)
     \<and> (keeps_owner r r' \<or> takes_over tok r r')"

definition table_evolves :: "uuid option \<Rightarrow> jobs \<Rightarrow> jobs \<Rightarrow> bool" where
  "table_evolves tok t t' \<longleftrightarrow>
     (\<forall>k. case map_of t k of
            None \<Rightarrow> map_of t' k = None
          | Some r \<Rightarrow> \<exists>r'. map_of t' k = Some r' \<and> row_evolves tok r r')"

lemmas evolve_defs = row_evolves_def keeps_owner_def takes_over_def

lemma row_evolves_refl [simp, intro]: "row_evolves tok r r"
  by (simp add: evolve_defs)

lemma table_evolves_refl [simp, intro]: "table_evolves tok t t"
  by (auto simp: table_evolves_def split: option.splits)

lemma table_evolves_put:
  "map_of t i = Some r \<Longrightarrow> row_evolves tok r r' \<Longrightarrow> table_evolves tok t (put i r' t)"
  by (auto simp: table_evolves_def split: option.splits)

lemma table_evolves_cas:
  "(\<And>r. P r \<Longrightarrow> row_evolves tok r (f r)) \<Longrightarrow> table_evolves tok t (snd (cas t i P f))"
  by (auto simp: cas_def intro: table_evolves_put split: option.splits)

lemma table_evolves_row:
  "table_evolves tok t t' \<Longrightarrow> map_of t k = Some r \<Longrightarrow>
     \<exists>r'. map_of t' k = Some r' \<and> row_evolves tok r r'"
  unfolding table_evolves_def by (drule spec [of _ k]) simp

lemma table_evolves_None: "table_evolves tok t t' \<Longrightarrow> map_of t k = None \<Longrightarrow> map_of t' k = None"
  unfolding table_evolves_def by (drule spec [of _ k]) simp

lemma claim_row_evolves:
  "claim_guard r tok now = None \<Longrightarrow>
     row_evolves (Some tok) r (claim_row r (claim_generation r tok x now) tok b x now ls ts)"
  using claim_generation_ge [of r tok x now]
  by (auto simp: evolve_defs claim_guard_None status_sets)

lemma claim_evolves:
  "table_evolves (Some tok) (w_jobs w)
     (w_jobs (snd (claim_execution fp w i tok b x now ls ts rc)))"
  by (auto simp: claim_execution_def Let_def intro!: table_evolves_put claim_row_evolves
           split: option.splits prod.splits)

lemma beat_evolves:
  "table_evolves tok (w_jobs w) (w_jobs (snd (heartbeat fp w own now ls ext rc1 rc2)))"
  by (cases "map_of (w_jobs w) (own_job_id own)")
     (auto simp: heartbeat_def Let_def evolve_defs intro!: table_evolves_put split: option.splits)

lemma release_evolves: "table_evolves tok (w_jobs w) (w_jobs (release fp w own now rc))"
  by (cases "map_of (w_jobs w) (own_job_id own)")
     (auto simp: release_def Let_def evolve_defs intro!: table_evolves_put)

lemma evict_evolves: "table_evolves tok (w_jobs w) (w_jobs (snd (evict_owner fp w i now rc)))"
  by (cases "map_of (w_jobs w) i")
     (auto simp: evict_owner_def Let_def evolve_defs intro!: table_evolves_put split: option.splits)

lemma hand_back_evolves: "table_evolves tok (w_jobs w) (w_jobs (snd (hand_back fp w own now rc)))"
  by (simp add: hand_back_def Let_def split_beta)
     (rule table_evolves_cas, simp add: evolve_defs status_sets)

lemma confirm_evolves: "table_evolves tok (w_jobs w) (w_jobs (snd (confirm_requeued w i a now)))"
  by (simp add: confirm_requeued_def Let_def split_beta)
     (rule table_evolves_cas, simp add: evolve_defs)

lemma move_evolves:
  "transition t i target None now = Some (res, t') \<Longrightarrow> table_evolves tok t t'"
  using terminal_not_source
  by (auto simp: transition_default evolve_defs intro!: table_evolves_put
           split: option.splits if_splits)

lemma launched_evolves: "table_evolves tok t (mark_launched t i b now)"
  unfolding mark_launched_def by (rule table_evolves_cas) (simp add: evolve_defs)

lemma launch_failed_evolves: "table_evolves tok t (mark_launch_failed t i e now)"
proof (cases "map_of t i")
  case (Some r)
  then show ?thesis
    using terminal_not_source [of "status r" JS_failed]
    by (auto simp: mark_launch_failed_def cas_def evolve_defs intro!: table_evolves_put)
qed (simp add: mark_launch_failed_def cas_def)

lemma rerun_evolves: "table_evolves tok t (reset_for_review_rerun t i s e now)"
  unfolding reset_for_review_rerun_def
  by (rule table_evolves_cas)
     (auto simp: evolve_defs review_rerun_reset_def Let_def status_sets split: option.splits)

lemma set_result_evolves: "table_evolves tok t (set_final_result t i now p)"
  unfolding set_final_result_def by (rule table_evolves_cas) (simp add: evolve_defs)

lemmas op_evolves = claim_evolves beat_evolves release_evolves evict_evolves hand_back_evolves
  confirm_evolves launched_evolves launch_failed_evolves rerun_evolves set_result_evolves

lemma lease_step_evolves:
  "table_evolves (claim_token op) (w_jobs w) (w_jobs (lease_step fp op w))"
  by (cases op) (auto simp: op_evolves on_jobs_def intro: move_evolves split: option.splits)

section \<open>Whole runs\<close>

text \<open>A row is never removed, its generation and its claim epoch never go back, and a terminal
  status stays.\<close>

lemma lease_run_row:
  "map_of (w_jobs w) k = Some r \<Longrightarrow>
     \<exists>r'. map_of (w_jobs (lease_run fp ops w)) k = Some r'
        \<and> execution_generation r \<le> execution_generation r'
        \<and> execution_claim_epoch r \<le> execution_claim_epoch r'
        \<and> (status r \<in> TERMINAL_STATES \<longrightarrow> status r' = status r)"
proof (induction ops arbitrary: w r)
  case (Cons op ops)
  from table_evolves_row [OF lease_step_evolves Cons.prems] obtain r1 where
    r1: "map_of (w_jobs (lease_step fp op w)) k = Some r1"
    and ev: "row_evolves (claim_token op) r r1" by blast
  from Cons.IH [OF r1] ev show ?case by (fastforce simp: evolve_defs)
qed simp

lemma lease_run_missing:
  "map_of (w_jobs w) k = None \<Longrightarrow> map_of (w_jobs (lease_run fp ops w)) k = None"
  by (induction ops arbitrary: w) (auto dest: table_evolves_None [OF lease_step_evolves])

lemma superseded_step:
  assumes "\<not> is_current_owner w own" "claim_token op \<noteq> Some (own_token own)"
  shows "\<not> is_current_owner (lease_step fp op w) own"
proof (cases "map_of (w_jobs w) (own_job_id own)")
  case None
  then show ?thesis
    by (simp add: is_current_owner_def table_evolves_None [OF lease_step_evolves None])
next
  case (Some r)
  from table_evolves_row [OF lease_step_evolves Some] obtain r' where
    "map_of (w_jobs (lease_step fp op w)) (own_job_id own) = Some r'"
    and "row_evolves (claim_token op) r r'" by blast
  with Some assms show ?thesis
    by (auto simp: is_current_owner_def holds_def evolve_defs split: if_splits)
qed

lemma superseded_run:
  assumes "\<not> is_current_owner w own"
    and "\<forall>op \<in> set ops. claim_token op \<noteq> Some (own_token own)"
  shows "\<not> is_current_owner (lease_run fp ops w) own"
  using assms
proof (induction ops arbitrary: w)
  case (Cons op ops)
  then show ?case using superseded_step [of w own op fp] by simp
qed simp

text \<open>
  C25: a superseded worker never becomes the owner again. Once an execution's ownership fails the
  current-owner check (it was taken over, evicted, handed back or released, or the job ended), no
  sequence of claims, heartbeats, releases, evictions, hand-backs, confirmations and status
  changes by anybody makes the check succeed again, as long as no later claim draws the same
  worker token.
\<close>

theorem superseded_forever:
  assumes "\<not> is_current_owner w own"
    and "\<forall>op \<in> set ops. claim_token op \<noteq> Some (own_token own)"
  shows "\<not> is_current_owner (lease_run fp ops w) own"
  using assms by (rule superseded_run)

text \<open>A small world the witnesses run in: one pending job, and fingerprints that are tuples.\<close>

definition demo_fp :: "(uuid \<times> int \<times> uuid) fingerprint" where
  "demo_fp j g t = (j, g, t)"

definition demo_world :: "(uuid \<times> int \<times> uuid) world" where
  "demo_world = \<lparr>w_jobs = [(3, new_row 3 0)], w_fence = (\<lambda>_. None)\<rparr>"

lemmas demo_defs = demo_fp_def demo_world_def new_row_def

definition demo_own :: "int \<Rightarrow> uuid \<Rightarrow> ExecutionOwnership" where
  "demo_own g tok = \<lparr>own_job_id = 3, own_generation = g, own_token = tok, own_backend = ''celery'',
     own_deadline = Some 21600000000, own_claim_epoch = g, own_fence_ttl = 900\<rparr>"

lemma demo_own_sel [simp]:
  "own_job_id (demo_own g t) = 3" "own_generation (demo_own g t) = g" "own_token (demo_own g t) = t"
  "own_fence_ttl (demo_own g t) = 900"
  by (simp_all add: demo_own_def)

lemmas lease_eval = claim_execution_def claim_guard_def resumes_def claim_generation_def
  claim_result_def revoke_outgoing_def granted_ownership_def claim_row_def lease_active_def same_execution_def
  is_current_owner_def holds_def status_sets rcall_def revoke_def refresh_def heal_def install_def
  current_def fence_ttl_seconds_def whole_seconds_def seconds_def put_def Let_def

theorem superseded_forever_witness:
  "\<not> is_current_owner (lease_run demo_fp
        [Claim 3 5 ''celery'' None 0 900 21600 RAnswered, Beat (demo_own 1 4) 9 900 None RFailed RFailed]
        demo_world) (demo_own 1 4)"
proof (rule superseded_forever)
  show "\<not> is_current_owner demo_world (demo_own 1 4)"
    by (simp add: demo_defs demo_own_def lease_eval)
  show "\<forall>op \<in> set [Claim 3 5 ''celery'' None 0 900 21600 RAnswered,
          Beat (demo_own 1 4) 9 900 None RFailed RFailed].
          claim_token op \<noteq> Some (own_token (demo_own 1 4))"
    by (simp add: demo_own_def)
qed

section \<open>Claims\<close>

lemma claim_grantedD:
  assumes "claim_execution fp w i tok b x now ls ts rc = (Inr (res, Some own), w')"
  shows "\<exists>r. map_of (w_jobs w) i = Some r \<and> claim_guard r tok now = None
     \<and> res = claim_result r tok x now
     \<and> own = granted_ownership i (claim_row r (claim_generation r tok x now) tok b x now ls ts)
                tok b now
     \<and> w_jobs w' = put i (claim_row r (claim_generation r tok x now) tok b x now ls ts) (w_jobs w)
     \<and> revoke_outgoing fp r i tok x now rc (w_fence w) \<in> {(Some True, w_fence w'), (Some False, w_fence w')}"
  using assms
  by (auto simp: claim_execution_def Let_def split: option.splits prod.splits)

lemma granted_sel [simp]:
  "own_job_id (granted_ownership i r tok b now) = i"
  "own_generation (granted_ownership i r tok b now) = execution_generation r"
  "own_token (granted_ownership i r tok b now) = tok"
  "own_claim_epoch (granted_ownership i r tok b now) = execution_claim_epoch r"
  "own_fence_ttl (granted_ownership i r tok b now) = fence_ttl_seconds r now"
  "own_deadline (granted_ownership i r tok b now) = pipeline_deadline_at r"
  by (simp_all add: granted_ownership_def)

lemma new_generation_successor:
  "claim_result r tok x now = acquired_new_generation \<Longrightarrow>
     claim_generation r tok x now = execution_generation r + 1"
  by (simp add: claim_result_def claim_generation_def split: if_splits)

text \<open>
  Claims of a job are totally ordered. If one claim was granted and, after any sequence of
  operations on the job rows, another claim of the same job is granted, the later ownership has a
  strictly larger claim epoch and a generation that is no smaller - strictly larger when the later
  claim reports a new generation - so a superseded execution can always be told from its successor.
\<close>

theorem claims_totally_ordered:
  assumes c1: "claim_execution fp w i tok1 b1 x1 now1 ls1 ts1 rc1 = (Inr (res1, Some own1), w1)"
    and c2: "claim_execution fp (lease_run fp ops w1) i tok2 b2 x2 now2 ls2 ts2 rc2
               = (Inr (res2, Some own2), w2)"
  shows "own_claim_epoch own1 < own_claim_epoch own2
     \<and> own_generation own1 \<le> own_generation own2
     \<and> (res2 = acquired_new_generation \<longrightarrow> own_generation own1 < own_generation own2)"
proof -
  from claim_grantedD [OF c1] obtain r g where
    w1: "w_jobs w1 = put i (claim_row r g tok1 b1 x1 now1 ls1 ts1) (w_jobs w)"
    and own1: "own1 = granted_ownership i (claim_row r g tok1 b1 x1 now1 ls1 ts1) tok1 b1 now1"
    by blast
  have row1: "map_of (w_jobs w1) i = Some (claim_row r g tok1 b1 x1 now1 ls1 ts1)"
    by (simp add: w1)
  from lease_run_row [OF row1, of fp ops] obtain r2 where
    r2: "map_of (w_jobs (lease_run fp ops w1)) i = Some r2"
    and mono: "g \<le> execution_generation r2" "execution_claim_epoch r + 1 \<le> execution_claim_epoch r2"
    by auto
  from claim_grantedD [OF c2] r2
  have own2: "res2 = claim_result r2 tok2 x2 now2"
    "own2 = granted_ownership i
       (claim_row r2 (claim_generation r2 tok2 x2 now2) tok2 b2 x2 now2 ls2 ts2) tok2 b2 now2"
    by auto
  show ?thesis
    using mono own1 own2 claim_generation_ge [of r2 tok2 x2 now2]
      new_generation_successor [of r2 tok2 x2 now2]
    by auto
qed

theorem claims_totally_ordered_witness:
  "own_claim_epoch (demo_own 1 5) < own_claim_epoch (demo_own 2 6)
   \<and> own_generation (demo_own 1 5) < own_generation (demo_own 2 6)"
proof -
  let ?w1 = "snd (claim_execution demo_fp demo_world 3 5 ''celery'' None 0 900 21600 RAnswered)"
  let ?w2 = "lease_run demo_fp [HandBack (demo_own 1 5) 10 RAnswered] ?w1"
  have c1: "claim_execution demo_fp demo_world 3 5 ''celery'' None 0 900 21600 RAnswered =
    (Inr (acquired_new_generation, Some (demo_own 1 5)), ?w1)"
    by (simp add: demo_defs demo_own_def lease_eval)
  have c2: "claim_execution demo_fp ?w2 3 6 ''celery'' None 20 900 21600 RAnswered =
    (Inr (acquired_new_generation, Some (demo_own 2 6)),
     snd (claim_execution demo_fp ?w2 3 6 ''celery'' None 20 900 21600 RAnswered))"
    by (simp add: demo_defs demo_own_def lease_eval hand_back_def cas_def)
  from claims_totally_ordered [OF c1 c2] show ?thesis by simp
qed

text \<open>
  The lease excludes. While a lease is live, a claim under any other token is refused as a
  conflict and changes neither the row nor the mirror; and right after a granted claim the claimant
  is the current owner, and every ownership that passes the current-owner check for that job
  carries the claimant's token and generation.
\<close>

theorem lease_excludes:
  "(\<forall>r. map_of (w_jobs w) i = Some r \<and> status r \<in> {JS_pending, JS_running} \<and> lease_active r now
        \<and> active_worker_token r \<noteq> Some tok \<longrightarrow>
        claim_execution fp w i tok b x now ls ts rc = (Inr (active_lease_conflict, None), w))
   \<and> (\<forall>res own w'. claim_execution fp w i tok b x now ls ts rc = (Inr (res, Some own), w') \<longrightarrow>
        is_current_owner w' own
        \<and> (\<forall>own'. own_job_id own' = i \<and> is_current_owner w' own' \<longrightarrow>
              own_token own' = tok \<and> own_generation own' = own_generation own))"
proof (intro conjI allI impI)
  fix r
  assume "map_of (w_jobs w) i = Some r \<and> status r \<in> {JS_pending, JS_running} \<and> lease_active r now
    \<and> active_worker_token r \<noteq> Some tok"
  then show "claim_execution fp w i tok b x now ls ts rc = (Inr (active_lease_conflict, None), w)"
    by (auto simp: claim_execution_def claim_guard_def status_sets)
next
  fix res own w'
  assume "claim_execution fp w i tok b x now ls ts rc = (Inr (res, Some own), w')"
  from claim_grantedD [OF this] show "is_current_owner w' own"
    by (auto simp: is_current_owner_def holds_def status_sets)
next
  fix res own w' own'
  assume c: "claim_execution fp w i tok b x now ls ts rc = (Inr (res, Some own), w')"
    and o: "own_job_id own' = i \<and> is_current_owner w' own'"
  from claim_grantedD [OF c] o
  show "own_token own' = tok" and "own_generation own' = own_generation own"
    by (auto simp: is_current_owner_def holds_def status_sets)
qed

text \<open>The demo job after its first claim, by token 5 at time 0.\<close>

definition demo_claimed :: "(uuid \<times> int \<times> uuid) world" where
  "demo_claimed = snd (claim_execution demo_fp demo_world 3 5 ''celery'' None 0 900 21600 RAnswered)"

lemma demo_claimed_eq:
  "demo_claimed =
     \<lparr>w_jobs = [(3, claim_row (new_row 3 0) 1 5 ''celery'' None 0 900 21600)], w_fence = (\<lambda>_. None)\<rparr>"
  by (simp add: demo_claimed_def demo_defs lease_eval)

theorem lease_excludes_witness:
  "claim_execution demo_fp demo_claimed 3 6 ''celery'' None 7 900 21600 RAnswered
     = (Inr (active_lease_conflict, None), demo_claimed)"
proof -
  let ?r = "claim_row (new_row 3 0) 1 5 ''celery'' None 0 900 21600"
  have "map_of (w_jobs demo_claimed) 3 = Some ?r \<and> status ?r \<in> {JS_pending, JS_running}
      \<and> lease_active ?r 7 \<and> active_worker_token ?r \<noteq> Some 6"
    by (simp add: demo_claimed_eq lease_active_def seconds_def)
  then show ?thesis using lease_excludes by blast
qed

section \<open>Heartbeats\<close>

lemma heartbeat_success:
  "fst (heartbeat fp w own now ls ext rc1 rc2) \<longleftrightarrow>
     (\<exists>r. map_of (w_jobs w) (own_job_id own) = Some r \<and> status r \<notin> TERMINAL_STATES \<and> holds r own
        \<and> (case extended_deadline (pipeline_deadline_at r) ext of None \<Rightarrow> True | Some d \<Rightarrow> now \<le> d))"
  by (cases "map_of (w_jobs w) (own_job_id own)")
     (auto simp: heartbeat_def Let_def split: option.splits)

lemma heartbeat_row:
  assumes "map_of (w_jobs w) (own_job_id own) = Some r"
    and "fst (heartbeat fp w own now ls ext rc1 rc2)"
  shows "map_of (w_jobs (snd (heartbeat fp w own now ls ext rc1 rc2))) (own_job_id own) =
           Some (r\<lparr>pipeline_deadline_at := extended_deadline (pipeline_deadline_at r) ext,
                   lease_heartbeat_at := Some now, lease_expires_at := Some (now + seconds ls),
                   updated_at := now\<rparr>)"
proof -
  have "status r \<notin> TERMINAL_STATES" "holds r own"
    "\<not> (case extended_deadline (pipeline_deadline_at r) ext of None \<Rightarrow> False | Some d \<Rightarrow> d < now)"
    using assms by (auto simp: heartbeat_success split: option.splits)
  with assms(1) show ?thesis by (simp add: heartbeat_def Let_def)
qed

lemma heartbeat_refused_row:
  assumes "map_of (w_jobs w) (own_job_id own) = Some r"
    and "\<not> fst (heartbeat fp w own now ls ext rc1 rc2)"
  shows "\<exists>r'. map_of (w_jobs (snd (heartbeat fp w own now ls ext rc1 rc2))) (own_job_id own) = Some r'
     \<and> lease_expires_at r' = lease_expires_at r \<and> status r' = status r
     \<and> active_worker_token r' = active_worker_token r"
  using assms by (auto simp: heartbeat_def Let_def split: option.splits if_splits)

lemma heartbeat_refused_fence:
  "\<not> fst (heartbeat fp w own now ls ext rc1 rc2) \<Longrightarrow>
     w_fence (snd (heartbeat fp w own now ls ext rc1 rc2)) = w_fence w"
  by (auto simp: heartbeat_def Let_def split: option.splits if_splits)

text \<open>
  What a heartbeat does, on every branch. It succeeds exactly when the job row exists, is not
  terminal, still carries the caller's generation and token, and is not past its deadline as
  progress may have moved it; then the row is the old one with a full lease from now and the
  deadline at the later of the recorded one and the extension, and nothing else changed. On a
  refusal the lease, the status and the owner stay, and the mirror is not touched.
\<close>

theorem heartbeat_spec:
  "(fst (heartbeat fp w own now ls ext rc1 rc2) \<longleftrightarrow>
     (\<exists>r. map_of (w_jobs w) (own_job_id own) = Some r \<and> status r \<notin> TERMINAL_STATES \<and> holds r own
        \<and> (case extended_deadline (pipeline_deadline_at r) ext of None \<Rightarrow> True | Some d \<Rightarrow> now \<le> d)))
   \<and> (\<forall>r. map_of (w_jobs w) (own_job_id own) = Some r \<longrightarrow>
       (if fst (heartbeat fp w own now ls ext rc1 rc2)
        then map_of (w_jobs (snd (heartbeat fp w own now ls ext rc1 rc2))) (own_job_id own) =
               Some (r\<lparr>pipeline_deadline_at := extended_deadline (pipeline_deadline_at r) ext,
                       lease_heartbeat_at := Some now, lease_expires_at := Some (now + seconds ls),
                       updated_at := now\<rparr>)
        else w_fence (snd (heartbeat fp w own now ls ext rc1 rc2)) = w_fence w
          \<and> (\<exists>r'. map_of (w_jobs (snd (heartbeat fp w own now ls ext rc1 rc2))) (own_job_id own) = Some r'
               \<and> lease_expires_at r' = lease_expires_at r \<and> status r' = status r
               \<and> active_worker_token r' = active_worker_token r)))"
  using heartbeat_success heartbeat_row heartbeat_refused_row heartbeat_refused_fence
  by (metis (no_types, lifting))

theorem heartbeat_spec_witness:
  "fst (heartbeat demo_fp demo_claimed (demo_own 1 5) 7 900 None RAnswered RAnswered)
   \<and> map_option lease_expires_at
       (map_of (w_jobs (snd (heartbeat demo_fp demo_claimed (demo_own 1 5) 7 900 None RAnswered RAnswered))) 3)
       = Some (Some (7 + seconds 900))"
proof -
  let ?hb = "heartbeat demo_fp demo_claimed (demo_own 1 5) 7 900 None RAnswered RAnswered"
  let ?r = "claim_row (new_row 3 0) 1 5 ''celery'' None 0 900 21600"
  have row: "map_of (w_jobs demo_claimed) (own_job_id (demo_own 1 5)) = Some ?r"
    by (simp add: demo_claimed_eq)
  have ok: "fst ?hb"
    using heartbeat_spec [of demo_fp demo_claimed "demo_own 1 5" 7 900 None RAnswered RAnswered] row
    by (simp add: holds_def status_sets extended_deadline_def new_row_def seconds_def)
  with heartbeat_spec [of demo_fp demo_claimed "demo_own 1 5" 7 900 None RAnswered RAnswered] row
  show ?thesis by simp
qed

end
