(* ===== verification/Ownership.thy ===== *)
theory Ownership
  imports LeaseProps
begin

text \<open>
  What the leases of \<open>persistence/lease.py\<close> promise, without a database: one expiring lock per job,
  with a number that grows with every acquisition. The operations on the job rows refine it: seen
  through \<open>locks\<close>, every operation of any worker is one step of one job's lock and leaves the locks
  of all other jobs alone.
\<close>

section \<open>An expiring lock\<close>

record lock =
  lk_holder :: "(uuid \<times> datetime option) option"
  lk_number :: int
  lk_ended :: bool

datatype lock_event =
    TryAcquire uuid datetime datetime
  | TryRenew uuid datetime
  | GiveUp uuid
  | Revoke
  | Finish
  | Idle

text \<open>Who may take the lock: anybody when it is free or its time has run out, the holder always.\<close>

definition free_for :: "uuid \<Rightarrow> datetime \<Rightarrow> lock \<Rightarrow> bool" where
  "free_for tok now l =
     (case lk_holder l of
        None \<Rightarrow> True
      | Some (t, u) \<Rightarrow> t = tok \<or> (case u of None \<Rightarrow> True | Some e \<Rightarrow> e \<le> now))"

inductive lock_step :: "lock_event \<Rightarrow> lock \<Rightarrow> lock \<Rightarrow> bool" where
  Refused: "lock_step ev l l"
| Acquired: "\<not> lk_ended l \<Longrightarrow> free_for tok now l \<Longrightarrow>
     lock_step (TryAcquire tok now till) l
       (l\<lparr>lk_holder := Some (tok, Some till), lk_number := lk_number l + 1\<rparr>)"
| Renewed: "\<not> lk_ended l \<Longrightarrow> lk_holder l = Some (tok, u) \<Longrightarrow>
     lock_step (TryRenew tok till) l (l\<lparr>lk_holder := Some (tok, Some till)\<rparr>)"
| GivenUp: "\<not> lk_ended l \<Longrightarrow> lk_holder l = Some (tok, u) \<Longrightarrow>
     lock_step (GiveUp tok) l (l\<lparr>lk_holder := None\<rparr>)"
| Revoked: "lock_step Revoke l (l\<lparr>lk_holder := None\<rparr>)"
| Finished: "lock_step Finish l (l\<lparr>lk_ended := True\<rparr>)"

inductive_cases lock_stepE: "lock_step ev l l'"

inductive_simps lock_step_simps:
  "lock_step (TryAcquire tok now till) l l'" "lock_step (TryRenew tok till) l l'"
  "lock_step (GiveUp tok) l l'" "lock_step Revoke l l'" "lock_step Finish l l'" "lock_step Idle l l'"

text \<open>Many locks, one per job: an event is about one of them.\<close>

type_synonym locks = "uuid \<rightharpoonup> lock"

definition locks_step :: "uuid \<times> lock_event \<Rightarrow> locks \<Rightarrow> locks \<Rightarrow> bool" where
  "locks_step ev L L' \<longleftrightarrow>
     (\<forall>k. k \<noteq> fst ev \<longrightarrow> L' k = L k)
     \<and> (case L (fst ev) of
          None \<Rightarrow> L' (fst ev) = None
        | Some l \<Rightarrow> \<exists>l'. L' (fst ev) = Some l' \<and> lock_step (snd ev) l l')"

inductive locks_run :: "(uuid \<times> lock_event) list \<Rightarrow> locks \<Rightarrow> locks \<Rightarrow> bool" where
  Done: "locks_run [] L L"
| More: "locks_step ev L L1 \<Longrightarrow> locks_run evs L1 L2 \<Longrightarrow> locks_run (ev # evs) L L2"

section \<open>What the lock promises\<close>

text \<open>A lock changes hands only by an acquisition, and only when it was free or had run out.\<close>

lemma handover_needs_expiry:
  assumes "lock_step ev l l'" "lk_holder l = Some (t, u)" "lk_holder l' = Some (t', u')" "t' \<noteq> t"
  shows "\<exists>now till. ev = TryAcquire t' now till \<and> (\<forall>e. u = Some e \<longrightarrow> e \<le> now) \<and> lk_number l < lk_number l'"
  using assms by (cases rule: lock_stepE) (auto simp: free_for_def split: option.splits)

lemma number_grows: "lock_step ev l l' \<Longrightarrow> lk_number l \<le> lk_number l' \<and> (lk_ended l \<longrightarrow> lk_ended l')"
  by (erule lock_stepE) auto

lemma ended_lock_not_taken:
  "lock_step ev l l' \<Longrightarrow> lk_ended l \<Longrightarrow> lk_number l' = lk_number l \<and> lk_holder l' \<in> {lk_holder l, None}"
  by (erule lock_stepE) auto

lemma locks_run_append:
  "locks_run xs L L1 \<Longrightarrow> locks_run ys L1 L2 \<Longrightarrow> locks_run (xs @ ys) L L2"
  by (induction rule: locks_run.induct) (auto intro: locks_run.More)

text \<open>Along a run a job keeps its lock, and the lock's number never goes back.\<close>

lemma locks_run_number:
  "locks_run evs L L' \<Longrightarrow> L k = Some l \<Longrightarrow> \<exists>l'. L' k = Some l' \<and> lk_number l \<le> lk_number l'"
proof (induction arbitrary: l rule: locks_run.induct)
  case (More ev L L1 evs L2)
  have "\<exists>l1. L1 k = Some l1 \<and> lk_number l \<le> lk_number l1"
    using More.hyps(1) More.prems
    by (cases "k = fst ev") (auto simp: locks_step_def dest: number_grows)
  then obtain l1 where l1: "L1 k = Some l1" "lk_number l \<le> lk_number l1" by blast
  from More.IH [OF l1(1)] l1(2) show ?case by force
qed simp

section \<open>The lock of a job row\<close>

definition lock_of :: "SimulationJob \<Rightarrow> lock" where
  "lock_of r = \<lparr>lk_holder = map_option (\<lambda>t. (t, lease_expires_at r)) (active_worker_token r),
     lk_number = execution_claim_epoch r, lk_ended = (status r \<in> TERMINAL_STATES)\<rparr>"

definition locks :: "'f world \<Rightarrow> locks" where
  "locks w k = map_option lock_of (map_of (w_jobs w) k)"

text \<open>The event each operation asks of its job's lock.\<close>

fun asks :: "lease_op \<Rightarrow> uuid \<times> lock_event" where
  "asks (Claim i tok b x now ls ts rc) = (i, TryAcquire tok now (now + seconds ls))"
| "asks (Beat own now ls ext rc1 rc2) = (own_job_id own, TryRenew (own_token own) (now + seconds ls))"
| "asks (Release own now rc) = (own_job_id own, GiveUp (own_token own))"
| "asks (Evict i now rc) = (i, Revoke)"
| "asks (HandBack own now rc) = (own_job_id own, GiveUp (own_token own))"
| "asks (Confirm i released now) = (i, Idle)"
| "asks (Move i target now) = (i, Finish)"
| "asks (Launched i b now) = (i, Idle)"
| "asks (LaunchFailed i e now) = (i, Finish)"
| "asks (RerunReset i s e now) = (i, Revoke)"
| "asks (SetResult i now p) = (i, Idle)"

lemma lock_of_sel [simp]:
  "lk_holder (lock_of r) = map_option (\<lambda>t. (t, lease_expires_at r)) (active_worker_token r)"
  "lk_number (lock_of r) = execution_claim_epoch r"
  "lk_ended (lock_of r) \<longleftrightarrow> status r \<in> TERMINAL_STATES"
  by (simp_all add: lock_of_def)

lemma lock_of_eq:
  "lock_of r = l \<longleftrightarrow> lk_holder l = map_option (\<lambda>t. (t, lease_expires_at r)) (active_worker_token r)
     \<and> lk_number l = execution_claim_epoch r \<and> lk_ended l = (status r \<in> TERMINAL_STATES)"
  by (cases l) (auto simp: lock_of_def)

lemmas lock_eq = lock_of_def lock_step_simps

text \<open>A write of one row moves one lock; no write moves none.\<close>

lemma locks_step_refl [simp]: "locks_step ev L L"
  by (cases "L (fst ev)") (auto simp: locks_step_def intro: lock_step.Refused)

lemma locks_put:
  assumes "map_of (w_jobs w) i = Some r" "lock_step ev (lock_of r) (lock_of r')"
    and "w_jobs w' = put i r' (w_jobs w)"
  shows "locks_step (i, ev) (locks w) (locks w')"
  using assms by (simp add: locks_step_def locks_def)

lemma locks_jobs_put:
  assumes "map_of (w_jobs w) i = Some r" "lock_step ev (lock_of r) (lock_of r')"
  shows "locks_step (i, ev) (locks w) (locks (w\<lparr>w_jobs := put i r' (w_jobs w)\<rparr>))"
  using assms by (rule locks_put) simp

lemma locks_same: "w_jobs w' = w_jobs w \<Longrightarrow> locks_step ev (locks w) (locks w')"
  by (simp add: locks_def [abs_def])

lemma locks_cas:
  assumes "\<And>r. P r \<Longrightarrow> lock_step ev (lock_of r) (lock_of (f r))"
    and "w_jobs w' = snd (cas (w_jobs w) i P f)"
  shows "locks_step (i, ev) (locks w) (locks w')"
proof (cases "\<exists>r. map_of (w_jobs w) i = Some r \<and> P r")
  case True
  then obtain r where r: "map_of (w_jobs w) i = Some r" "P r" by blast
  show ?thesis using r(1) assms(1) [OF r(2)] by (rule locks_put) (simp add: assms(2) cas_def r)
next
  case False
  then have "snd (cas (w_jobs w) i P f) = w_jobs w" by (auto simp: cas_def split: option.split)
  then show ?thesis using assms(2) by (simp add: locks_same)
qed

section \<open>Each operation is a step of the lock\<close>

lemma claim_locks:
  "locks_step (i, TryAcquire tok now (now + seconds ls)) (locks w)
     (locks (snd (claim_execution fp w i tok b x now ls ts rc)))"
proof (cases "map_of (w_jobs w) i")
  case (Some r)
  let ?r = "claim_row r (claim_generation r tok x now) tok b x now ls ts"
  have "lock_step (TryAcquire tok now (now + seconds ls)) (lock_of r) (lock_of ?r)"
    if "claim_guard r tok now = None"
    using that
    by (auto simp: claim_guard_None lock_step_simps lock_of_eq free_for_def lease_active_def status_sets
        split: option.splits)
  then show ?thesis
    using Some
    by (auto simp: claim_execution_def Let_def intro: locks_same locks_put
        split: option.splits prod.splits)
qed (simp add: claim_execution_def)

text \<open>A claim is refused for its lease exactly when the lock is another's.\<close>

lemma claim_guard_is_lock:
  "status r \<in> {JS_pending, JS_running} \<Longrightarrow>
     claim_guard r tok now = (if free_for tok now (lock_of r) then None else Some active_lease_conflict)"
  by (auto simp: claim_guard_def free_for_def lease_active_def status_sets split: option.splits)

lemma beat_locks:
  "locks_step (own_job_id own, TryRenew (own_token own) (now + seconds ls)) (locks w)
     (locks (snd (heartbeat fp w own now ls ext rc1 rc2)))"
  by (cases "map_of (w_jobs w) (own_job_id own)")
     (auto simp: heartbeat_def Let_def holds_def lock_step_simps lock_of_eq intro!: locks_put split: option.splits)

lemma release_locks:
  "locks_step (own_job_id own, GiveUp (own_token own)) (locks w) (locks (release fp w own now rc))"
  by (cases "map_of (w_jobs w) (own_job_id own)")
     (auto simp: release_def Let_def holds_def lock_step_simps lock_of_eq intro!: locks_put)

lemma evict_locks: "locks_step (i, Revoke) (locks w) (locks (snd (evict_owner fp w i now rc)))"
  by (cases "map_of (w_jobs w) i")
     (auto simp: evict_owner_def Let_def lock_step_simps lock_of_eq intro!: locks_put split: option.splits)

lemma hand_back_locks:
  "locks_step (own_job_id own, GiveUp (own_token own)) (locks w) (locks (snd (hand_back fp w own now rc)))"
  by (simp add: hand_back_def Let_def split_beta)
     (rule locks_cas, auto simp: holds_def lock_step_simps lock_of_eq status_sets)

lemma confirm_locks: "locks_step (i, Idle) (locks w) (locks (snd (confirm_requeued w i a now)))"
  by (simp add: confirm_requeued_def Let_def split_beta)
     (rule locks_cas, auto simp: lock_step_simps lock_of_eq)

lemma move_locks:
  "locks_step (i, Finish) (locks w)
     (locks (on_jobs (\<lambda>t. case transition t i target None now of None \<Rightarrow> t | Some (_, t') \<Rightarrow> t') w))"
proof -
  have "lock_step Finish (lock_of r) (lock_of (timestamps_for target now r))"
    if "status r \<in> legal_sources target" for r
    using that terminal_not_source by (auto simp: lock_step_simps lock_of_eq)
  then show ?thesis
    by (auto simp: on_jobs_def transition_default intro: locks_jobs_put split: option.split)
qed

lemma launched_locks: "locks_step (i, Idle) (locks w) (locks (on_jobs (\<lambda>t. mark_launched t i b now) w))"
  by (rule locks_cas [where w = w]) (auto simp: on_jobs_def mark_launched_def lock_step_simps lock_of_eq)

lemma launch_failed_locks:
  "locks_step (i, Finish) (locks w) (locks (on_jobs (\<lambda>t. mark_launch_failed t i e now) w))"
proof (cases "map_of (w_jobs w) i")
  case (Some r)
  then show ?thesis
    using terminal_not_source [of "status r" JS_failed]
    by (auto simp: on_jobs_def mark_launch_failed_def cas_def lock_step_simps lock_of_eq status_sets
        intro!: locks_jobs_put)
qed (simp add: on_jobs_def mark_launch_failed_def cas_def locks_same)

lemma rerun_locks:
  "locks_step (i, Revoke) (locks w) (locks (on_jobs (\<lambda>t. reset_for_review_rerun t i s e now) w))"
  by (rule locks_cas [where w = w])
     (auto simp: on_jobs_def reset_for_review_rerun_def review_rerun_reset_def Let_def lock_step_simps
       lock_of_eq split: option.splits)

lemma set_result_locks:
  "locks_step (i, Idle) (locks w) (locks (on_jobs (\<lambda>t. set_final_result t i now p) w))"
  by (rule locks_cas [where w = w]) (auto simp: on_jobs_def set_final_result_def lock_step_simps lock_of_eq)

lemmas op_locks = claim_locks beat_locks release_locks evict_locks hand_back_locks confirm_locks
  move_locks launched_locks launch_failed_locks rerun_locks set_result_locks

lemma lease_step_locks: "locks_step (asks op) (locks w) (locks (lease_step fp op w))"
  by (cases op) (simp_all add: op_locks)

section \<open>The refinement\<close>

text \<open>
  C5: the leases implement an expiring lock per job. Whatever operations any workers apply to the
  job rows - claims, heartbeats, releases, evictions, hand-backs, confirmations, status changes,
  launch marks, re-runs, results - and however their calls to the mirror end, the rows seen as locks
  make the run of the abstract locks that those operations ask for: a lock is taken only when it is
  free, its time has run out or its holder takes it again, every taking raises its number, only the
  holder renews it, and a job that ended is not taken any more.
\<close>

theorem leases_implement_locks:
  "locks_run (map asks ops) (locks w) (locks (lease_run fp ops w))"
  by (induction ops arbitrary: w) (auto intro: locks_run.intros lease_step_locks)

end
