(* ===== verification/Clocks.thy ===== *)
theory Clocks
  imports Prelude
begin

text \<open>
  The clocks of a run: when it last showed progress and how long it has been inside native mesh runs
  (\<open>contracts/progress_clock.py\<close>), the whole run's deadline as progress moves it
  (\<open>application/pipeline_budget.py\<close>), the model loops' budgets (\<open>agents/loop/budget.py\<close>,
  \<open>agents/builder/budget.py\<close>) and the signs of life of a process tree (\<open>sandbox/liveness.py\<close>).

  A clock reading is an argument. The module-level cells are one record; the marks a clock writes for
  the lease keeper are times of files, absent without a keeper. All times are in microseconds.
\<close>

section \<open>Progress and native time\<close>

record progress_clock =
  pc_last :: "datetime option"
  pc_native_done :: int
  pc_native_since :: "datetime option"

definition progress_reset :: progress_clock where
  "progress_reset = \<lparr>pc_last = None, pc_native_done = 0, pc_native_since = None\<rparr>"

definition progress_touch :: "datetime \<Rightarrow> progress_clock \<Rightarrow> progress_clock" where
  "progress_touch now pc = pc\<lparr>pc_last := Some now\<rparr>"

definition seconds_since :: "progress_clock \<Rightarrow> datetime \<Rightarrow> int option" where
  "seconds_since pc now = map_option (\<lambda>t. max 0 (now - t)) (pc_last pc)"

text \<open>Entering a native run tells whether it is the outermost one; only that one counts on leaving.\<close>

definition native_enter :: "datetime \<Rightarrow> progress_clock \<Rightarrow> bool \<times> progress_clock" where
  "native_enter now pc =
     (if pc_native_since pc = None then (True, pc\<lparr>pc_native_since := Some now\<rparr>) else (False, pc))"

definition native_leave :: "bool \<Rightarrow> datetime \<Rightarrow> progress_clock \<Rightarrow> progress_clock" where
  "native_leave outer now pc =
     (case pc_native_since pc of
        Some t \<Rightarrow> if outer then pc\<lparr>pc_native_done := pc_native_done pc + max 0 (now - t), pc_native_since := None\<rparr>
                  else pc
      | None \<Rightarrow> pc)"

definition native_seconds :: "progress_clock \<Rightarrow> datetime \<Rightarrow> int" where
  "native_seconds pc now =
     pc_native_done pc + (case pc_native_since pc of Some t \<Rightarrow> max 0 (now - t) | None \<Rightarrow> 0)"

definition native_running :: "progress_clock \<Rightarrow> bool" where
  "native_running pc = (pc_native_since pc \<noteq> None)"

definition model_time :: "progress_clock \<Rightarrow> datetime \<Rightarrow> int" where
  "model_time pc now = now - native_seconds pc now"

text \<open>
  What happens to a clock while a run goes on. Each native run remembers whether it was the outermost
  when it was entered, and the runs are left in the opposite order: the flags are a stack.
\<close>

datatype clock_event = Touched datetime | Entered datetime | Left datetime

fun event_time :: "clock_event \<Rightarrow> datetime" where
  "event_time (Touched t) = t"
| "event_time (Entered t) = t"
| "event_time (Left t) = t"

fun clock_step :: "clock_event \<Rightarrow> progress_clock \<times> bool list \<Rightarrow> progress_clock \<times> bool list" where
  "clock_step (Touched t) (pc, st) = (progress_touch t pc, st)"
| "clock_step (Entered t) (pc, st) = (let (outer, pc') = native_enter t pc in (pc', outer # st))"
| "clock_step (Left t) (pc, []) = (pc, [])"
| "clock_step (Left t) (pc, outer # st) = (native_leave outer t pc, st)"

text \<open>How deep in native runs the events lead, and the time they leave outside any.\<close>

fun depth_after :: "clock_event \<Rightarrow> nat \<Rightarrow> nat" where
  "depth_after (Touched t) n = n"
| "depth_after (Entered t) n = n + 1"
| "depth_after (Left t) n = n - 1"

fun outside :: "nat \<Rightarrow> datetime \<Rightarrow> clock_event list \<Rightarrow> datetime \<Rightarrow> int" where
  "outside n t [] t' = (if n = 0 then t' - t else 0)"
| "outside n t (e # es) t' =
     (if n = 0 then event_time e - t else 0) + outside (depth_after e n) (event_time e) es t'"

text \<open>Only the outermost of the open native runs carries the flag, and the clock is stopped while one is open.\<close>

definition nested :: "nat \<Rightarrow> datetime \<Rightarrow> progress_clock \<times> bool list \<Rightarrow> bool" where
  "nested n now s \<longleftrightarrow>
     snd s = (if n = 0 then [] else replicate (n - 1) False @ [True])
     \<and> (case pc_native_since (fst s) of None \<Rightarrow> n = 0 | Some t \<Rightarrow> 0 < n \<and> t \<le> now)"

lemmas clock_defs = progress_touch_def native_enter_def native_leave_def native_seconds_def
  native_running_def model_time_def nested_def

lemma nested_later: "nested n t s \<Longrightarrow> t \<le> t' \<Longrightarrow> nested n t' s"
  by (auto simp: nested_def split: option.splits)

lemma nested_step:
  "nested n (event_time e) s \<Longrightarrow> nested (depth_after e n) (event_time e) (clock_step e s)"
proof (cases e)
  case (Left t)
  assume nest: "nested n (event_time e) s"
  obtain pc st where s: "s = (pc, st)" by (cases s)
  show ?thesis
  proof (cases n)
    case 0
    then show ?thesis using nest Left by (auto simp: s nested_def split: option.splits)
  next
    case (Suc m)
    then show ?thesis using nest Left by (cases m) (auto simp: s clock_defs split: option.splits)
  qed
qed (cases s; cases n; auto simp: clock_defs Let_def split: option.splits)+

text \<open>An event does not move the model time, and between events it moves only outside native runs.\<close>

lemma model_time_event:
  "nested n (event_time e) s \<Longrightarrow> model_time (fst (clock_step e s)) (event_time e) = model_time (fst s) (event_time e)"
  by (cases s; cases e; cases "snd s") (auto simp: clock_defs Let_def split: option.splits)

lemma model_time_between:
  "nested n t s \<Longrightarrow> t \<le> t' \<Longrightarrow> model_time (fst s) t' = model_time (fst s) t + (if n = 0 then t' - t else 0)"
  by (auto simp: clock_defs split: option.splits)

lemma model_time_run:
  assumes "nested n t s" "sorted (t # map event_time es @ [t'])"
  shows "model_time (fst (fold clock_step es s)) t' = model_time (fst s) t + outside n t es t'"
  using assms
proof (induction es arbitrary: s n t)
  case Nil
  then show ?case using model_time_between [of n t s t'] by simp
next
  case (Cons e es)
  from Cons.prems have t: "t \<le> event_time e" by simp
  have nest: "nested n (event_time e) s" using Cons.prems(1) t by (rule nested_later)
  have "sorted (event_time e # map event_time es @ [t'])" using Cons.prems(2) by simp
  from Cons.IH [OF nested_step [OF nest] this] show ?case
    using model_time_event [OF nest] model_time_between [OF Cons.prems(1) t] by simp
qed

section \<open>The model loops' budget\<close>

record loop_budget =
  lb_deadline :: "int option"
  lb_max_rounds :: "nat option"

definition loop_budget_of :: "nat option \<Rightarrow> int option \<Rightarrow> progress_clock \<Rightarrow> datetime \<Rightarrow> loop_budget" where
  "loop_budget_of rounds deadline_s pc now =
     \<lparr>lb_deadline = map_option (\<lambda>d. model_time pc now + d) deadline_s, lb_max_rounds = rounds\<rparr>"

definition loop_remaining :: "loop_budget \<Rightarrow> progress_clock \<Rightarrow> datetime \<Rightarrow> int option" where
  "loop_remaining b pc now = map_option (\<lambda>d. d - model_time pc now) (lb_deadline b)"

definition loop_expired :: "loop_budget \<Rightarrow> progress_clock \<Rightarrow> datetime \<Rightarrow> bool" where
  "loop_expired b pc now = (case loop_remaining b pc now of None \<Rightarrow> False | Some r \<Rightarrow> r \<le> 0)"

definition may_start_round :: "loop_budget \<Rightarrow> nat \<Rightarrow> bool" where
  "may_start_round b finished = (case lb_max_rounds b of None \<Rightarrow> True | Some m \<Rightarrow> finished < m)"

text \<open>
  C40: a native mesh run never spends a model loop's budget. Whatever progress touches and native runs,
  nested ones too, happen while a loop runs, its budget has shrunk by exactly the time spent outside
  native runs; so the loop is expired exactly when that time has reached what it was given.
\<close>

theorem native_time_not_spent:
  assumes "pc_native_since pc = None" "sorted (t # map event_time es @ [t'])"
  shows "let b = loop_budget_of n (Some d) pc t; pc' = fst (fold clock_step es (pc, []))
     in loop_remaining b pc' t' = Some (d - outside 0 t es t')
        \<and> (loop_expired b pc' t' \<longleftrightarrow> d \<le> outside 0 t es t')"
proof -
  have "nested 0 t (pc, [])" using assms(1) by (simp add: nested_def)
  from model_time_run [OF this assms(2)] show ?thesis
    by (simp add: loop_remaining_def loop_budget_of_def loop_expired_def Let_def)
qed

theorem native_time_not_spent_witness:
  "\<not> loop_expired (loop_budget_of None (Some 7) progress_reset 0)
     (fst (fold clock_step [Entered 2, Entered 10, Left 20, Touched 50, Left 100] (progress_reset, []))) 104"
proof -
  have "sorted (0 # map event_time [Entered 2, Entered 10, Left 20, Touched 50, Left 100] @ [104])" by simp
  moreover have "pc_native_since progress_reset = None" by (simp add: progress_reset_def)
  moreover have "outside 0 0 [Entered 2, Entered 10, Left 20, Touched 50, Left 100] 104 = 6" by simp
  ultimately show ?thesis
    using native_time_not_spent [of progress_reset 0 "[Entered 2, Entered 10, Left 20, Touched 50, Left 100]" 104 None 7]
    by (simp add: Let_def)
qed

section \<open>The run's deadline\<close>

definition PROGRESS_GRACE :: int where "PROGRESS_GRACE = seconds (900 + 120)"

text \<open>The deadlines progress has moved on, by the deadline the run was anchored with.\<close>

type_synonym extended = "datetime \<rightharpoonup> datetime"

definition effective_deadline :: "extended \<Rightarrow> datetime \<Rightarrow> datetime" where
  "effective_deadline ex d = max d (case ex d of None \<Rightarrow> d | Some e \<Rightarrow> e)"

definition extend_deadline :: "extended \<Rightarrow> datetime \<Rightarrow> datetime \<Rightarrow> datetime \<times> extended" where
  "extend_deadline ex d till = (let e = max (effective_deadline ex d) till in (e, ex(d \<mapsto> e)))"

definition progress_extension :: "progress_clock \<Rightarrow> datetime \<Rightarrow> datetime \<Rightarrow> datetime option" where
  "progress_extension pc now wall =
     (case seconds_since pc now of
        None \<Rightarrow> None
      | Some age \<Rightarrow> if age > PROGRESS_GRACE then None else Some (wall - age + PROGRESS_GRACE))"

definition budget_remaining :: "extended \<Rightarrow> datetime \<Rightarrow> datetime \<Rightarrow> int" where
  "budget_remaining ex d wall = effective_deadline ex d - wall"

definition is_exhausted :: "extended \<Rightarrow> datetime \<Rightarrow> datetime \<Rightarrow> bool" where
  "is_exhausted ex d wall = (budget_remaining ex d wall \<le> 0)"

definition given :: "datetime option \<Rightarrow> datetime option" where
  "given d = (if d = Some 0 then None else d)"

definition cap_child_budget :: "extended \<Rightarrow> int \<Rightarrow> datetime option \<Rightarrow> datetime \<Rightarrow> int" where
  "cap_child_budget ex child d wall =
     (case given d of
        None \<Rightarrow> child
      | Some d \<Rightarrow> let rem = budget_remaining ex d wall in if rem \<le> 0 then 0 else min child rem)"

definition cap_child_deadline_epoch :: "extended \<Rightarrow> datetime \<Rightarrow> datetime option \<Rightarrow> datetime" where
  "cap_child_deadline_epoch ex child d =
     (case given d of None \<Rightarrow> child | Some d \<Rightarrow> min child (effective_deadline ex d))"

definition deadline_epoch_from_created_at :: "int \<Rightarrow> datetime option \<Rightarrow> datetime \<Rightarrow> datetime" where
  "deadline_epoch_from_created_at total_s created wall =
     (case created of None \<Rightarrow> wall | Some c \<Rightarrow> c) + seconds total_s"

text \<open>The deadline a claim recorded wins over one counted from the job's creation.\<close>

definition anchor_deadline :: "int \<Rightarrow> datetime option option \<Rightarrow> datetime option \<Rightarrow> datetime \<Rightarrow> datetime" where
  "anchor_deadline total_s owned created wall =
     (case owned of
        Some (Some d) \<Rightarrow> d
      | _ \<Rightarrow> deadline_epoch_from_created_at total_s created wall)"

record StartDecision =
  sd_exhausted :: bool
  sd_deadline :: datetime
  sd_reason :: string

definition decide_start ::
  "extended \<Rightarrow> int \<Rightarrow> datetime option option \<Rightarrow> datetime option \<Rightarrow> datetime \<Rightarrow> StartDecision"
where
  "decide_start ex total_s owned created wall =
     (let d = anchor_deadline total_s owned created wall in
      if is_exhausted ex d wall
      then \<lparr>sd_exhausted = True, sd_deadline = d, sd_reason = ''pipeline_timed_out''\<rparr>
      else \<lparr>sd_exhausted = False, sd_deadline = d, sd_reason = []\<rparr>)"

lemma effective_not_earlier: "d \<le> effective_deadline ex d"
  by (simp add: effective_deadline_def)

lemma extend_effective [simp]:
  "effective_deadline (snd (extend_deadline ex d till)) k =
     (if k = d then max (effective_deadline ex d) till else effective_deadline ex k)"
  by (auto simp: extend_deadline_def effective_deadline_def Let_def)

lemma extend_never_back: "effective_deadline ex k \<le> effective_deadline (snd (extend_deadline ex d till)) k"
  by simp

lemma fst_extend [simp]: "fst (extend_deadline ex d till) = max (effective_deadline ex d) till"
  by (simp add: extend_deadline_def Let_def)

text \<open>Where progress would move the deadline is never in the past.\<close>

lemma progress_extension_future: "progress_extension pc now wall = Some e \<Longrightarrow> wall \<le> e"
  by (auto simp: progress_extension_def split: option.splits if_splits)

lemma child_within_pipeline:
  "0 \<le> child \<Longrightarrow> given d = Some p \<Longrightarrow> wall + cap_child_budget ex child d wall \<le> max wall (effective_deadline ex p)"
  by (auto simp: cap_child_budget_def budget_remaining_def Let_def)

section \<open>The builder's attempt\<close>

record attempt_budget =
  ab_deadline :: datetime
  ab_remaining_s :: int
  ab_attempt_timeout_s :: int
  ab_driver_remaining_s :: int

definition settle_budget ::
  "extended \<Rightarrow> int \<Rightarrow> int \<Rightarrow> datetime \<Rightarrow> datetime option \<Rightarrow> datetime \<Rightarrow> int \<Rightarrow> attempt_budget"
where
  "settle_budget ex total_s loop_s carried pipeline wall native =
     (let epoch0 = (if carried \<le> 0 then wall + seconds total_s else carried);
          epoch = cap_child_deadline_epoch ex epoch0 pipeline;
          remaining = whole_seconds (epoch + max 0 native - wall);
          left = (case given pipeline of None \<Rightarrow> 0 | Some p \<Rightarrow> whole_seconds (budget_remaining ex p wall))
      in \<lparr>ab_deadline = epoch, ab_remaining_s = remaining, ab_attempt_timeout_s = min loop_s remaining,
          ab_driver_remaining_s = max remaining left\<rparr>)"

definition attempt_exhausted :: "attempt_budget \<Rightarrow> bool" where
  "attempt_exhausted b = (ab_remaining_s b \<le> 0)"

definition driver_exhausted :: "attempt_budget \<Rightarrow> bool" where
  "driver_exhausted b = (ab_driver_remaining_s b \<le> 0)"

text \<open>Settling again from the deadline an attempt carried keeps it, and native time gained since is given back.\<close>

lemma settle_again:
  assumes "0 < ab_deadline (settle_budget ex total_s loop_s carried pipeline wall native)"
  shows "ab_deadline (settle_budget ex total_s loop_s (ab_deadline (settle_budget ex total_s loop_s carried pipeline wall native)) pipeline wall' native')
           = ab_deadline (settle_budget ex total_s loop_s carried pipeline wall native)"
  using assms
  by (auto simp: settle_budget_def cap_child_deadline_epoch_def Let_def split: option.splits)

lemma settle_native_refund:
  assumes "0 < carried" "0 \<le> mesh" "0 \<le> native"
  shows "ab_remaining_s (settle_budget ex total_s loop_s carried pipeline (wall + mesh) (native + mesh))
           = ab_remaining_s (settle_budget ex total_s loop_s carried pipeline wall native)"
  using assms by (simp add: settle_budget_def Let_def max_def algebra_simps)

lemma driver_outlives_loop: "driver_exhausted b \<Longrightarrow> ab_remaining_s b \<le> ab_driver_remaining_s b \<Longrightarrow> attempt_exhausted b"
  by (simp add: driver_exhausted_def attempt_exhausted_def)

section \<open>Signs of life\<close>

record tree_sample =
  ts_cpu :: int
  ts_rss :: int

type_synonym output_mark = "(string \<times> int \<times> int) list"

record liveness_watch =
  lw_time :: datetime
  lw_out :: output_mark
  lw_tree :: "tree_sample option"

datatype sign = SignOutput | SignCpu | SignMemory

definition MIN_CPU_SHARE :: rat where "MIN_CPU_SHARE = 5 / 100"
definition MIN_CPU :: int where "MIN_CPU = 20000"
definition MIN_RSS_STEP_BYTES :: int where "MIN_RSS_STEP_BYTES = 16 * 1024 * 1024"

definition liveness_poll ::
  "datetime \<Rightarrow> output_mark \<Rightarrow> tree_sample option \<Rightarrow> liveness_watch \<Rightarrow> sign option \<times> liveness_watch"
where
  "liveness_poll now out tree w =
     (let dt = max 0 (now - lw_time w);
          found = (if out \<noteq> lw_out w then Some SignOutput
            else case (tree, lw_tree w) of
              (Some t, Some p) \<Rightarrow>
                if max (of_int MIN_CPU) (MIN_CPU_SHARE * of_int dt) \<le> of_int (ts_cpu t - ts_cpu p) then Some SignCpu
                else if MIN_RSS_STEP_BYTES \<le> \<bar>ts_rss t - ts_rss p\<bar> then Some SignMemory
                else None
            | _ \<Rightarrow> None)
      in (found, \<lparr>lw_time = now, lw_out = out, lw_tree = (case tree of None \<Rightarrow> lw_tree w | Some t \<Rightarrow> Some t)\<rparr>))"

text \<open>A process tree that burns a twentieth of a core or more between two looks is seen to be alive.\<close>

lemma busy_tree_seen:
  assumes "lw_tree w = Some p" "lw_time w \<le> now" "MIN_CPU \<le> ts_cpu t - ts_cpu p"
    "now - lw_time w \<le> 20 * (ts_cpu t - ts_cpu p)"
  shows "fst (liveness_poll now out (Some t) w) \<noteq> None"
proof -
  have "of_int (now - lw_time w) \<le> (of_int (20 * (ts_cpu t - ts_cpu p)) :: rat)"
    using assms(4) by (simp only: of_int_le_iff)
  moreover have "(of_int MIN_CPU :: rat) \<le> of_int (ts_cpu t - ts_cpu p)"
    using assms(3) by (simp only: of_int_le_iff)
  ultimately have "max (of_int MIN_CPU) (MIN_CPU_SHARE * of_int (now - lw_time w))
      \<le> (of_int (ts_cpu t - ts_cpu p) :: rat)"
    by (simp add: MIN_CPU_SHARE_def)
  then show ?thesis using assms(1,2) by (simp add: liveness_poll_def Let_def max_def)
qed

end
