(* ===== verification/Keeper.thy ===== *)
theory Keeper
  imports LeaseProps Clocks
begin

text \<open>
  Keeping a running job's lease: the beat inside the worker (\<open>application/pipeline_run.py\<close>), the
  keeper process beside it (\<open>application/lease_keeper.py\<close>) and the deadline they move on progress.

  A run is a sequence of events on one time line: ticks of the beat, looks of the keeper, marks of
  the remote mesher and of progress, and claims of the job by other workers. How a renewal ends is an
  input: it raises, or the database answers with whatever the row says. Starting and stopping the
  keeper's process and the log lines are left out; the keeper ends when its parent is gone or its
  renewal is refused.
\<close>

section \<open>The keeper's decision\<close>

definition STALL_WINDOW :: int where "STALL_WINDOW = seconds 900"

definition fresh_window :: "int \<Rightarrow> int" where
  "fresh_window interval = 2 * interval + seconds 15"

datatype keeper_action = Watch | Renew | Hold

definition keeper_decide :: "int option \<Rightarrow> int \<Rightarrow> int \<Rightarrow> int \<Rightarrow> int option \<Rightarrow> keeper_action" where
  "keeper_decide beat_age life_age fresh stall remote_age =
     (if (case beat_age of None \<Rightarrow> False | Some a \<Rightarrow> a \<le> fresh) then Watch
      else if life_age \<le> stall then Renew
      else if (case remote_age of None \<Rightarrow> False | Some a \<Rightarrow> a \<le> stall) then Renew
      else Hold)"

record marks =
  mk_beat :: "datetime option"
  mk_remote :: "datetime option"
  mk_progress :: "datetime option"

record keeper =
  k_watch :: liveness_watch
  k_last_life :: datetime
  k_last_beat :: datetime
  k_last_remote :: "datetime option"
  k_last_progress :: "datetime option"
  k_seen_beat :: "datetime option"
  k_seen_remote :: "datetime option"
  k_seen_progress :: "datetime option"

definition keeper_begin :: "datetime \<Rightarrow> marks \<Rightarrow> tree_sample option \<Rightarrow> keeper" where
  "keeper_begin now m tree =
     \<lparr>k_watch = \<lparr>lw_time = now, lw_out = [], lw_tree = tree\<rparr>, k_last_life = now, k_last_beat = now,
      k_last_remote = None, k_last_progress = None, k_seen_beat = mk_beat m,
      k_seen_remote = mk_remote m, k_seen_progress = mk_progress m\<rparr>"

definition moved :: "datetime option \<Rightarrow> datetime option \<Rightarrow> bool" where
  "moved m seen = (m \<noteq> None \<and> m \<noteq> seen)"

text \<open>One look: the signs of life of the worker's processes and the marks that moved.\<close>

definition keeper_see :: "datetime \<Rightarrow> marks \<Rightarrow> tree_sample option \<Rightarrow> keeper \<Rightarrow> keeper" where
  "keeper_see now m tree k =
     (let (found, w) = liveness_poll now [] tree (k_watch k);
          b = moved (mk_beat m) (k_seen_beat k);
          r = moved (mk_remote m) (k_seen_remote k);
          p = moved (mk_progress m) (k_seen_progress k)
      in \<lparr>k_watch = w,
          k_last_life = (if found \<noteq> None then now else k_last_life k),
          k_last_beat = (if b then now else k_last_beat k),
          k_last_remote = (if r then Some now else k_last_remote k),
          k_last_progress = (if p then Some now else k_last_progress k),
          k_seen_beat = (if b then mk_beat m else k_seen_beat k),
          k_seen_remote = (if r then mk_remote m else k_seen_remote k),
          k_seen_progress = (if p then mk_progress m else k_seen_progress k)\<rparr>)"

definition keeper_action :: "int \<Rightarrow> int \<Rightarrow> datetime \<Rightarrow> keeper \<Rightarrow> keeper_action" where
  "keeper_action fresh stall now k =
     keeper_decide (Some (now - k_last_beat k)) (now - k_last_life k) fresh stall
       (map_option (\<lambda>h. now - h) (k_last_remote k))"

definition keeper_extension :: "datetime \<Rightarrow> datetime \<Rightarrow> keeper \<Rightarrow> datetime option" where
  "keeper_extension now wall k =
     (case k_last_progress k of
        None \<Rightarrow> None
      | Some p \<Rightarrow> if now - p \<le> PROGRESS_GRACE then Some (wall - (now - p) + PROGRESS_GRACE) else None)"

section \<open>A leased run\<close>

datatype renewal = RenewalRaises | RenewalAnswers redis_call redis_call

datatype keeper_end = ParentGone | LeaseRefused

record 'f leased =
  le_world :: "'f world"
  le_marks :: marks
  le_keeper :: keeper
  le_keeper_end :: "keeper_end option"
  le_beating :: bool
  le_clock :: progress_clock
  le_extended :: extended

definition lease_begin :: "datetime \<Rightarrow> tree_sample option \<Rightarrow> 'f world \<Rightarrow> 'f leased" where
  "lease_begin now tree w =
     (let m = \<lparr>mk_beat = Some now, mk_remote = Some now, mk_progress = Some now\<rparr>
      in \<lparr>le_world = w, le_marks = m, le_keeper = keeper_begin now m tree, le_keeper_end = None,
          le_beating = True, le_clock = progress_reset, le_extended = Map.empty\<rparr>)"

text \<open>What the beat asks of the deadline: the place progress would move it to, when that is later.\<close>

definition beat_extension :: "datetime \<Rightarrow> datetime \<Rightarrow> progress_clock \<Rightarrow> extended \<Rightarrow> datetime option" where
  "beat_extension anchored now pc ex =
     (case progress_extension pc now now of
        None \<Rightarrow> None
      | Some e \<Rightarrow> if effective_deadline ex anchored < e then Some e else None)"

definition beat_tick ::
  "'f fingerprint \<Rightarrow> ExecutionOwnership \<Rightarrow> int \<Rightarrow> datetime \<Rightarrow> datetime \<Rightarrow> renewal \<Rightarrow> 'f leased \<Rightarrow> 'f leased"
where
  "beat_tick fp own ls anchored now rn s0 =
     (if \<not> le_beating s0 then s0
      else
        let s = s0\<lparr>le_marks := (le_marks s0)\<lparr>mk_beat := Some now\<rparr>\<rparr>
        in case rn of
             RenewalRaises \<Rightarrow> s
           | RenewalAnswers rc1 rc2 \<Rightarrow>
               let ext = beat_extension anchored now (le_clock s) (le_extended s);
                   (ok, w) = heartbeat fp (le_world s) own now ls ext rc1 rc2
               in s\<lparr>le_world := w, le_beating := ok,
                    le_extended := (case ext of
                       Some e \<Rightarrow> if ok then snd (extend_deadline (le_extended s) anchored e) else le_extended s
                     | None \<Rightarrow> le_extended s)\<rparr>)"

definition keeper_look ::
  "'f fingerprint \<Rightarrow> ExecutionOwnership \<Rightarrow> int \<Rightarrow> int \<Rightarrow> int \<Rightarrow> datetime \<Rightarrow> bool \<Rightarrow> tree_sample option
     \<Rightarrow> renewal \<Rightarrow> 'f leased \<Rightarrow> 'f leased"
where
  "keeper_look fp own ls fresh stall now gone tree rn s =
     (if le_keeper_end s \<noteq> None then s
      else if gone then s\<lparr>le_keeper_end := Some ParentGone\<rparr>
      else
        let k = keeper_see now (le_marks s) tree (le_keeper s); s' = s\<lparr>le_keeper := k\<rparr>
        in if keeper_action fresh stall now k \<noteq> Renew then s'
           else case rn of
             RenewalRaises \<Rightarrow> s'
           | RenewalAnswers rc1 rc2 \<Rightarrow>
               let (owned, w) = heartbeat fp (le_world s) own now ls (keeper_extension now now k) rc1 rc2
               in s'\<lparr>le_world := w, le_keeper_end := (if owned then None else Some LeaseRefused)\<rparr>)"

datatype lease_event =
    Tick datetime renewal
  | Look datetime bool "tree_sample option" renewal
  | RemoteHeard datetime
  | Progressed datetime
  | Rival datetime uuid uuid string "string option" int int redis_call

fun at_time :: "lease_event \<Rightarrow> datetime" where
  "at_time (Tick t rn) = t"
| "at_time (Look t gone tree rn) = t"
| "at_time (RemoteHeard t) = t"
| "at_time (Progressed t) = t"
| "at_time (Rival t i tok b x ls ts rc) = t"

fun leased_step ::
  "'f fingerprint \<Rightarrow> ExecutionOwnership \<Rightarrow> int \<Rightarrow> datetime \<Rightarrow> int \<Rightarrow> int \<Rightarrow> lease_event \<Rightarrow> 'f leased \<Rightarrow> 'f leased"
where
  "leased_step fp own ls anchored fresh stall (Tick t rn) s = beat_tick fp own ls anchored t rn s"
| "leased_step fp own ls anchored fresh stall (Look t gone tree rn) s =
     keeper_look fp own ls fresh stall t gone tree rn s"
| "leased_step fp own ls anchored fresh stall (RemoteHeard t) s =
     s\<lparr>le_marks := (le_marks s)\<lparr>mk_remote := Some t\<rparr>\<rparr>"
| "leased_step fp own ls anchored fresh stall (Progressed t) s =
     s\<lparr>le_marks := (le_marks s)\<lparr>mk_progress := Some t\<rparr>, le_clock := progress_touch t (le_clock s)\<rparr>"
| "leased_step fp own ls anchored fresh stall (Rival t i tok b x cls ts rc) s =
     s\<lparr>le_world := snd (claim_execution fp (le_world s) i tok b x t cls ts rc)\<rparr>"

definition leased_run ::
  "'f fingerprint \<Rightarrow> ExecutionOwnership \<Rightarrow> int \<Rightarrow> datetime \<Rightarrow> int \<Rightarrow> int \<Rightarrow> lease_event list \<Rightarrow> 'f leased \<Rightarrow> 'f leased"
where
  "leased_run fp own ls anchored fresh stall es s = fold (leased_step fp own ls anchored fresh stall) es s"

section \<open>A run whose worker is at work\<close>

text \<open>The events come in time order and the keeper looks at least every \<open>gap\<close>.\<close>

fun spaced :: "int \<Rightarrow> datetime \<Rightarrow> datetime \<Rightarrow> lease_event list \<Rightarrow> bool" where
  "spaced gp now looked [] = True"
| "spaced gp now looked (e # es) =
     (now \<le> at_time e \<and> at_time e \<le> looked + gp
      \<and> spaced gp (at_time e) (case e of Look t gone tree rn \<Rightarrow> t | _ \<Rightarrow> looked) es)"

text \<open>
  At every look some sign of life - the worker's processes or the remote mesher - lies within the
  stall window; every renewal reaches the database, and comes before the deadline or within the grace
  after progress; the claims are other workers'.
\<close>

definition in_time :: "datetime \<Rightarrow> datetime \<Rightarrow> datetime option \<Rightarrow> bool" where
  "in_time anchored now progress =
     (now \<le> anchored \<or> (case progress of None \<Rightarrow> False | Some p \<Rightarrow> now - p \<le> PROGRESS_GRACE))"

fun at_work :: "ExecutionOwnership \<Rightarrow> datetime \<Rightarrow> int \<Rightarrow> lease_event \<Rightarrow> 'f leased \<Rightarrow> bool" where
  "at_work own anchored stall (Tick t rn) s =
     (rn \<noteq> RenewalRaises \<and> in_time anchored t (pc_last (le_clock s)))"
| "at_work own anchored stall (Look t gone tree rn) s =
     (let k = keeper_see t (le_marks s) tree (le_keeper s)
      in \<not> gone \<and> rn \<noteq> RenewalRaises \<and> in_time anchored t (k_last_progress k)
         \<and> (t - k_last_life k \<le> stall \<or> (case k_last_remote k of None \<Rightarrow> False | Some h \<Rightarrow> t - h \<le> stall)))"
| "at_work own anchored stall (Rival t i tok b x cls ts rc) s = (tok \<noteq> own_token own)"
| "at_work own anchored stall _ s = True"

fun working :: "'f fingerprint \<Rightarrow> ExecutionOwnership \<Rightarrow> int \<Rightarrow> datetime \<Rightarrow> int \<Rightarrow> int \<Rightarrow> lease_event list \<Rightarrow> 'f leased \<Rightarrow> bool"
where
  "working fp own ls anchored fresh stall [] s = True"
| "working fp own ls anchored fresh stall (e # es) s =
     (at_work own anchored stall e s
      \<and> working fp own ls anchored fresh stall es (leased_step fp own ls anchored fresh stall e s))"

section \<open>The lease of a working job\<close>

text \<open>The row of a job its worker holds, with the lease it has.\<close>

definition held_until :: "'f world \<Rightarrow> ExecutionOwnership \<Rightarrow> datetime \<Rightarrow> extended \<Rightarrow> datetime \<Rightarrow> bool" where
  "held_until w own anchored ex e \<longleftrightarrow>
     (\<exists>r. map_of (w_jobs w) (own_job_id own) = Some r \<and> status r = JS_running \<and> holds r own
        \<and> lease_expires_at r = Some e
        \<and> (case pipeline_deadline_at r of None \<Rightarrow> True | Some d \<Rightarrow> effective_deadline ex anchored \<le> d))"

lemma held_lease_conflict:
  assumes "held_until w own anchored ex e" "tok \<noteq> own_token own" "t < e"
  shows "claim_execution fp w (own_job_id own) tok b x t cls ts rc = (Inr (active_lease_conflict, None), w)"
  using assms
  by (auto simp: held_until_def claim_execution_def claim_guard_def lease_active_def holds_def status_sets)

lemma held_rival:
  assumes "held_until w own anchored ex e" "tok \<noteq> own_token own" "t < e"
  shows "held_until (snd (claim_execution fp w i tok b x t cls ts rc)) own anchored ex e"
proof (cases "i = own_job_id own")
  case True
  then show ?thesis using held_lease_conflict [OF assms] assms(1) by simp
next
  case False
  then have "map_of (w_jobs (snd (claim_execution fp w i tok b x t cls ts rc))) (own_job_id own)
      = map_of (w_jobs w) (own_job_id own)"
    by (auto simp: claim_execution_def Let_def split: option.splits prod.splits)
  then show ?thesis using assms(1) by (simp add: held_until_def)
qed

text \<open>A renewal in time succeeds, and the lease runs from it.\<close>

lemma held_heartbeat:
  assumes "held_until w own anchored ex e" and ext: "t \<le> effective_deadline ex anchored \<or> (\<exists>d. ext = Some d \<and> t \<le> d)"
  shows "fst (heartbeat fp w own t ls ext rc1 rc2)"
    and "held_until (snd (heartbeat fp w own t ls ext rc1 rc2)) own anchored ex (t + seconds ls)"
    and "ext = Some d \<Longrightarrow> held_until (snd (heartbeat fp w own t ls ext rc1 rc2)) own anchored
           (snd (extend_deadline ex anchored d)) (t + seconds ls)"
proof -
  from assms(1) obtain r where r: "map_of (w_jobs w) (own_job_id own) = Some r" "status r = JS_running"
    "holds r own" "case pipeline_deadline_at r of None \<Rightarrow> True | Some d \<Rightarrow> effective_deadline ex anchored \<le> d"
    by (auto simp: held_until_def)
  show ok: "fst (heartbeat fp w own t ls ext rc1 rc2)"
    unfolding heartbeat_success using r ext
    by (auto simp: extended_deadline_def status_sets split: option.splits)
  note row = heartbeat_row [OF r(1) ok]
  show "held_until (snd (heartbeat fp w own t ls ext rc1 rc2)) own anchored ex (t + seconds ls)"
    using row r by (auto simp: held_until_def holds_def extended_deadline_def split: option.splits)
  show "held_until (snd (heartbeat fp w own t ls ext rc1 rc2)) own anchored
      (snd (extend_deadline ex anchored d)) (t + seconds ls)" if "ext = Some d"
    using row r that by (auto simp: held_until_def holds_def extended_deadline_def split: option.splits)
qed

text \<open>
  The invariant of a working run: the lease was last renewed at \<open>e - ls\<close>, no longer ago at the last
  look than the beat's freshness and one gap; a beat the keeper has not seen yet renewed it itself.
\<close>

definition kept :: "ExecutionOwnership \<Rightarrow> int \<Rightarrow> datetime \<Rightarrow> int \<Rightarrow> int \<Rightarrow> datetime \<Rightarrow> datetime \<Rightarrow> 'f leased \<Rightarrow> bool" where
  "kept own ls anchored fresh gp now looked s \<longleftrightarrow>
     (\<exists>e. held_until (le_world s) own anchored (le_extended s) e
        \<and> le_beating s \<and> le_keeper_end s = None \<and> looked \<le> now
        \<and> k_last_beat (le_keeper s) \<le> looked
        \<and> looked \<le> e - seconds ls + gp + fresh
        \<and> (if mk_beat (le_marks s) = k_seen_beat (le_keeper s)
           then k_last_beat (le_keeper s) \<le> e - seconds ls + gp
           else \<exists>b. mk_beat (le_marks s) = Some b \<and> looked \<le> b \<and> b \<le> e - seconds ls))"

lemma keptI:
  assumes "held_until (le_world s) own anchored (le_extended s) e" "le_beating s" "le_keeper_end s = None"
    "looked \<le> now" "k_last_beat (le_keeper s) \<le> looked" "looked \<le> e - seconds ls + gp + fresh"
    "mk_beat (le_marks s) = k_seen_beat (le_keeper s) \<Longrightarrow> k_last_beat (le_keeper s) \<le> e - seconds ls + gp"
    "mk_beat (le_marks s) \<noteq> k_seen_beat (le_keeper s) \<Longrightarrow>
       \<exists>b. mk_beat (le_marks s) = Some b \<and> looked \<le> b \<and> b \<le> e - seconds ls"
  shows "kept own ls anchored fresh gp now looked s"
  using assms by (auto simp: kept_def)

lemma kept_tick:
  assumes k: "kept own ls anchored fresh gp now looked s" and t: "now \<le> t" and w: "at_work own anchored stall (Tick t rn) s"
    and g: "0 \<le> gp" "0 \<le> fresh"
  shows "kept own ls anchored fresh gp t looked (leased_step fp own ls anchored fresh stall (Tick t rn) s)"
proof -
  obtain rc1 rc2 where rn: "rn = RenewalAnswers rc1 rc2" using w by (cases rn) auto
  let ?ext = "beat_extension anchored t (le_clock s) (le_extended s)"
  let ?hb = "heartbeat fp (le_world s) own t ls ?ext rc1 rc2"
  obtain e where e: "held_until (le_world s) own anchored (le_extended s) e" and s: "le_beating s" "le_keeper_end s = None"
    "looked \<le> now" "k_last_beat (le_keeper s) \<le> looked"
    using k by (auto simp: kept_def)
  have ext: "t \<le> effective_deadline (le_extended s) anchored \<or> (\<exists>d. ?ext = Some d \<and> t \<le> d)"
  proof (cases "t \<le> anchored")
    case True
    then show ?thesis using effective_not_earlier order_trans by blast
  next
    case False
    then obtain p where "pc_last (le_clock s) = Some p" "t - p \<le> PROGRESS_GRACE"
      using w by (auto simp: in_time_def split: option.splits)
    moreover have "0 \<le> PROGRESS_GRACE" by (simp add: PROGRESS_GRACE_def seconds_def)
    ultimately have "progress_extension (le_clock s) t t \<noteq> None"
      by (simp add: progress_extension_def seconds_since_def max_def)
    then obtain d where d: "progress_extension (le_clock s) t t = Some d" by blast
    then have "t \<le> d" by (rule progress_extension_future)
    with d show ?thesis by (auto simp: beat_extension_def)
  qed
  note hb = held_heartbeat [OF e ext]
  have "held_until (snd ?hb) own anchored
      (case ?ext of None \<Rightarrow> le_extended s | Some d \<Rightarrow> snd (extend_deadline (le_extended s) anchored d)) (t + seconds ls)"
    using hb by (cases ?ext) auto
  then show ?thesis
    using hb(1) [of fp ls rc1 rc2] s t g
    by (intro keptI [where e = "t + seconds ls"])
      (auto simp: beat_tick_def rn split_beta Let_def split: option.splits)
qed

lemma keeper_see_sel [simp]:
  "k_last_beat (keeper_see t m tree k) = (if moved (mk_beat m) (k_seen_beat k) then t else k_last_beat k)"
  "k_seen_beat (keeper_see t m tree k) = (if moved (mk_beat m) (k_seen_beat k) then mk_beat m else k_seen_beat k)"
  "k_last_life (keeper_see t m tree k)
     = (if fst (liveness_poll t [] tree (k_watch k)) \<noteq> None then t else k_last_life k)"
  "k_last_remote (keeper_see t m tree k) = (if moved (mk_remote m) (k_seen_remote k) then Some t else k_last_remote k)"
  "k_last_progress (keeper_see t m tree k)
     = (if moved (mk_progress m) (k_seen_progress k) then Some t else k_last_progress k)"
  "k_watch (keeper_see t m tree k) = snd (liveness_poll t [] tree (k_watch k))"
  by (simp_all add: keeper_see_def Let_def split_beta)

lemma kept_look:
  assumes k: "kept own ls anchored fresh gp now looked s" and t: "now \<le> t" "t \<le> looked + gp"
    and w: "at_work own anchored stall (Look t gone tree rn) s" and g: "0 \<le> gp" "0 \<le> fresh"
  shows "kept own ls anchored fresh gp t t (leased_step fp own ls anchored fresh stall (Look t gone tree rn) s)"
proof -
  obtain rc1 rc2 where rn: "rn = RenewalAnswers rc1 rc2" using w by (cases rn) (auto simp: Let_def)
  have gone: "\<not> gone" using w by (simp add: Let_def)
  define k' where "k' = keeper_see t (le_marks s) tree (le_keeper s)"
  obtain e where e: "held_until (le_world s) own anchored (le_extended s) e"
    and s: "le_beating s" "le_keeper_end s = None" "k_last_beat (le_keeper s) \<le> looked" "looked \<le> now"
    and mark: "if mk_beat (le_marks s) = k_seen_beat (le_keeper s)
           then k_last_beat (le_keeper s) \<le> e - seconds ls + gp
           else \<exists>b. mk_beat (le_marks s) = Some b \<and> looked \<le> b \<and> b \<le> e - seconds ls"
    using k by (auto simp: kept_def)
  have beat: "k_last_beat k' \<le> e - seconds ls + gp" "k_last_beat k' \<le> t"
    using mark s t by (auto simp: k'_def moved_def split: if_splits)
  have seen: "mk_beat (le_marks s) = k_seen_beat k'"
    using mark by (auto simp: k'_def moved_def split: if_splits)
  have "in_time anchored t (k_last_progress k')" and alive: "t - k_last_life k' \<le> stall
      \<or> (case k_last_remote k' of None \<Rightarrow> False | Some h \<Rightarrow> t - h \<le> stall)"
    using w by (simp_all only: k'_def at_work.simps Let_def)
  then have ext: "t \<le> effective_deadline (le_extended s) anchored \<or> (\<exists>d. keeper_extension t t k' = Some d \<and> t \<le> d)"
    using effective_not_earlier [of anchored "le_extended s"]
    by (auto simp: in_time_def keeper_extension_def split: option.splits)
  note hb = held_heartbeat [OF e ext]
  have step: "keeper_look fp own ls fresh stall t gone tree rn s =
      (if keeper_action fresh stall t k' \<noteq> Renew then s\<lparr>le_keeper := k'\<rparr>
       else s\<lparr>le_keeper := k', le_keeper_end := None,
              le_world := snd (heartbeat fp (le_world s) own t ls (keeper_extension t t k') rc1 rc2)\<rparr>)"
    using hb(1) [of fp ls rc1 rc2] gone s by (simp add: keeper_look_def rn k'_def Let_def split_beta)
  show ?thesis
  proof (cases "keeper_action fresh stall t k' = Renew")
    case True
    then show ?thesis
      using hb(2) s seen beat t g
      by (intro keptI [where e = "t + seconds ls"]) (auto simp: step)
  next
    case False
    then have "t - k_last_beat k' \<le> fresh"
      using alive by (auto simp: keeper_action_def keeper_decide_def split: if_splits option.splits)
    with False show ?thesis
      using e s seen beat t g by (intro keptI [where e = e]) (auto simp: step)
  qed
qed

lemma kept_other:
  assumes k: "kept own ls anchored fresh gp now looked s" and t: "now \<le> t" "t \<le> looked + gp"
    and w: "at_work own anchored stall ev s" and lease: "fresh + 2 * gp < seconds ls"
    and ev: "ev \<in> {RemoteHeard t, Progressed t, Rival t i tok b x cls ts rc}"
  shows "kept own ls anchored fresh gp t looked (leased_step fp own ls anchored fresh stall ev s)"
proof -
  obtain e where e: "held_until (le_world s) own anchored (le_extended s) e" "looked \<le> e - seconds ls + gp + fresh"
    and inv: "le_beating s" "le_keeper_end s = None" "looked \<le> now" "k_last_beat (le_keeper s) \<le> looked"
      "if mk_beat (le_marks s) = k_seen_beat (le_keeper s)
       then k_last_beat (le_keeper s) \<le> e - seconds ls + gp
       else \<exists>b. mk_beat (le_marks s) = Some b \<and> looked \<le> b \<and> b \<le> e - seconds ls"
    using k by (auto simp: kept_def)
  then have "t < e" using t lease by simp
  then have "held_until (snd (claim_execution fp (le_world s) i tok b x t cls ts rc)) own anchored (le_extended s) e"
    if "tok \<noteq> own_token own" using held_rival e(1) that by blast
  then show ?thesis
    using t w ev e inv by (intro keptI [where e = e]) auto
qed

lemma kept_step:
  assumes "kept own ls anchored fresh gp now looked s" "now \<le> at_time ev" "at_time ev \<le> looked + gp"
    and "at_work own anchored stall ev s" "fresh + 2 * gp < seconds ls" "0 \<le> gp" "0 \<le> fresh"
  shows "kept own ls anchored fresh gp (at_time ev) (case ev of Look t gone tree rn \<Rightarrow> t | _ \<Rightarrow> looked)
     (leased_step fp own ls anchored fresh stall ev s)"
proof (cases ev)
  case (Tick t rn)
  then show ?thesis using kept_tick [OF assms(1) _ _ assms(6,7), of t stall rn fp] assms(2,4) by simp
next
  case (Look t gone tree rn)
  then show ?thesis using kept_look [OF assms(1) _ _ _ assms(6,7), of t stall gone tree rn fp] assms(2-4) by simp
next
  case (Rival t i tok b x cls ts rc)
  then show ?thesis using kept_other [OF assms(1) _ _ assms(4,5), of t i tok b x cls ts rc fp] assms(2,3) by simp
qed (use kept_other [OF assms(1) _ _ assms(4,5), of "at_time ev"] assms(2,3) in simp_all)

lemma kept_run:
  assumes "kept own ls anchored fresh gp now looked s" "spaced gp now looked (es @ fs)"
    and "working fp own ls anchored fresh stall es s"
    and "fresh + 2 * gp < seconds ls" "0 \<le> gp" "0 \<le> fresh"
  shows "\<exists>now' looked'. kept own ls anchored fresh gp now' looked' (leased_run fp own ls anchored fresh stall es s)
     \<and> spaced gp now' looked' fs"
  using assms
proof (induction es arbitrary: now looked s)
  case Nil
  then show ?case by (auto simp: leased_run_def)
next
  case (Cons ev es)
  have "kept own ls anchored fresh gp (at_time ev) (case ev of Look t gone tree rn \<Rightarrow> t | _ \<Rightarrow> looked)
      (leased_step fp own ls anchored fresh stall ev s)"
    using Cons.prems by (intro kept_step [OF Cons.prems(1)]) simp_all
  from Cons.IH [OF this] Cons.prems show ?case by (simp add: leased_run_def)
qed

text \<open>The job as it was claimed at \<open>t0\<close>, with a full lease.\<close>

definition claimed_at :: "ExecutionOwnership \<Rightarrow> int \<Rightarrow> datetime \<Rightarrow> datetime \<Rightarrow> 'f world \<Rightarrow> bool" where
  "claimed_at own ls anchored t0 w \<longleftrightarrow>
     (\<exists>r. map_of (w_jobs w) (own_job_id own) = Some r \<and> status r = JS_running \<and> holds r own
        \<and> lease_expires_at r = Some (t0 + seconds ls) \<and> pipeline_deadline_at r \<in> {None, Some anchored})"

lemma lease_begin_kept:
  assumes "claimed_at own ls anchored t0 w" "0 \<le> gp" "0 \<le> fresh"
  shows "kept own ls anchored fresh gp t0 t0 (lease_begin t0 tree w)"
proof -
  have "held_until w own anchored Map.empty (t0 + seconds ls)"
    using assms(1) by (auto simp: claimed_at_def held_until_def effective_deadline_def)
  then show ?thesis
    using assms(2,3)
    by (intro keptI [where e = "t0 + seconds ls"]) (auto simp: lease_begin_def keeper_begin_def Let_def)
qed

text \<open>
  C19: a working job keeps its lease, however long one of its steps holds the worker's beat. While the
  keeper looks at least every \<open>gap\<close> and sees at every look a sign of life of the worker's processes
  or of its remote mesher within the stall window, and the renewals reach the database before the
  deadline or within the grace after progress, every claim of the job by another worker is refused
  as a conflict until the next look is due, and the worker is its owner - whether its own beat ticked
  all the time, now and then or never. The lease has to be longer than the beat's freshness and two
  gaps.
\<close>

theorem working_job_keeps_lease:
  assumes "claimed_at own ls anchored t0 w"
    and "fresh + 2 * gp < seconds ls" "0 \<le> gp" "0 \<le> fresh"
    and "spaced gp t0 t0 (es @ [Rival t (own_job_id own) tok b x cls ts rc])" "tok \<noteq> own_token own"
    and "working fp own ls anchored fresh stall es (lease_begin t0 tree w)"
  shows "let s = leased_run fp own ls anchored fresh stall es (lease_begin t0 tree w)
     in claim_execution fp (le_world s) (own_job_id own) tok b x t cls ts rc
          = (Inr (active_lease_conflict, None), le_world s)
        \<and> is_current_owner (le_world s) own"
proof -
  let ?s = "leased_run fp own ls anchored fresh stall es (lease_begin t0 tree w)"
  from kept_run [OF lease_begin_kept [OF assms(1,3,4)] assms(5,7,2,3,4)]
  obtain now looked where k: "kept own ls anchored fresh gp now looked ?s" and t: "t \<le> looked + gp" by auto
  then obtain e where e: "held_until (le_world ?s) own anchored (le_extended ?s) e"
    "looked \<le> e - seconds ls + gp + fresh" by (auto simp: kept_def)
  then have "t < e" using t assms(2) by simp
  moreover have "is_current_owner (le_world ?s) own"
    using e(1) by (auto simp: held_until_def is_current_owner_def status_sets)
  ultimately show ?thesis using held_lease_conflict [OF e(1) assms(6)] by (simp add: Let_def)
qed

section \<open>The lease of a stuck worker\<close>

text \<open>A look at a worker whose processes did nothing since it started.\<close>

definition idle_look :: "datetime \<Rightarrow> tree_sample option \<Rightarrow> lease_event \<Rightarrow> bool" where
  "idle_look t0 tree ev \<longleftrightarrow> (\<exists>t rn. ev = Look t False tree rn \<and> t0 \<le> t)"

lemma idle_tree_unseen:
  "lw_out w = [] \<Longrightarrow> lw_tree w = tree \<Longrightarrow>
     fst (liveness_poll t [] tree w) = None \<and> lw_out (snd (liveness_poll t [] tree w)) = []
       \<and> lw_tree (snd (liveness_poll t [] tree w)) = tree"
  by (auto simp: liveness_poll_def Let_def MIN_CPU_def MIN_CPU_SHARE_def MIN_RSS_STEP_BYTES_def
      split: option.split)

definition stuck :: "ExecutionOwnership \<Rightarrow> int \<Rightarrow> datetime \<Rightarrow> tree_sample option \<Rightarrow> datetime \<Rightarrow> 'f leased \<Rightarrow> bool" where
  "stuck own ls t0 tree lapse s \<longleftrightarrow>
     (\<exists>r e. map_of (w_jobs (le_world s)) (own_job_id own) = Some r \<and> status r = JS_running
        \<and> lease_expires_at r = Some e \<and> e \<le> lapse)
     \<and> (let k = le_keeper s in k_last_life k = t0 \<and> k_last_remote k = None
        \<and> mk_remote (le_marks s) = k_seen_remote k \<and> lw_out (k_watch k) = [] \<and> lw_tree (k_watch k) = tree)"

lemma stuck_step:
  assumes "stuck own ls t0 tree (t0 + stall + seconds ls) s" "idle_look t0 tree ev"
  shows "stuck own ls t0 tree (t0 + stall + seconds ls) (leased_step fp own ls anchored fresh stall ev s)"
proof -
  obtain t rn where ev: "ev = Look t False tree rn" using assms(2) by (auto simp: idle_look_def)
  obtain r e where r: "map_of (w_jobs (le_world s)) (own_job_id own) = Some r" "status r = JS_running"
    "lease_expires_at r = Some e" "e \<le> t0 + stall + seconds ls" using assms(1) by (auto simp: stuck_def)
  let ?k = "keeper_see t (le_marks s) tree (le_keeper s)"
  have k: "k_last_life ?k = t0" "k_last_remote ?k = None" "mk_remote (le_marks s) = k_seen_remote ?k"
    "lw_out (k_watch ?k) = []" "lw_tree (k_watch ?k) = tree"
    using assms(1) idle_tree_unseen [of "k_watch (le_keeper s)" tree t]
    by (auto simp: stuck_def Let_def moved_def keeper_see_def split_beta)
  have renewed: "\<exists>r' e'. map_of (w_jobs (snd (heartbeat fp (le_world s) own t ls ext rc1 rc2))) (own_job_id own) = Some r'
      \<and> status r' = JS_running \<and> lease_expires_at r' = Some e' \<and> e' \<le> t0 + stall + seconds ls"
    if "t - t0 \<le> stall" for ext rc1 rc2
    using heartbeat_row [OF r(1), of fp t ls ext rc1 rc2] heartbeat_refused_row [OF r(1), of fp t ls ext rc1 rc2] r that
    by (cases "fst (heartbeat fp (le_world s) own t ls ext rc1 rc2)") auto
  have "t - t0 \<le> stall" if "keeper_action fresh stall t ?k = Renew"
    using that k by (auto simp: keeper_action_def keeper_decide_def split: if_splits)
  then show ?thesis
    using assms(1) r k renewed
    by (auto simp: ev stuck_def keeper_look_def Let_def split_beta split: renewal.split)
qed

lemma stuck_run:
  "stuck own ls t0 tree (t0 + stall + seconds ls) s \<Longrightarrow> \<forall>ev \<in> set es. idle_look t0 tree ev \<Longrightarrow>
     stuck own ls t0 tree (t0 + stall + seconds ls) (leased_run fp own ls anchored fresh stall es s)"
  by (induction es arbitrary: s) (simp_all add: leased_run_def stuck_step)


section \<open>A demonstration\<close>

text \<open>A worker whose own beat never ticks again, and burns half a core.\<close>

definition demo_tree :: "int \<Rightarrow> tree_sample option" where
  "demo_tree cpu = Some \<lparr>ts_cpu = seconds cpu, ts_rss = 0\<rparr>"

definition demo_looks :: "lease_event list" where
  "demo_looks = map (\<lambda>n. Look (seconds (60 * n)) False (demo_tree (30 * n)) (RenewalAnswers RAnswered RFailed)) [1..20]"

lemma demo_claimed_at: "claimed_at (demo_own 1 5) 900 (seconds 21600) 0 demo_claimed"
  by (simp add: claimed_at_def demo_claimed_eq holds_def new_row_def)

theorem working_job_keeps_lease_witness:
  "fst (claim_execution demo_fp
      (le_world (leased_run demo_fp (demo_own 1 5) 900 (seconds 21600) (fresh_window (seconds 60)) STALL_WINDOW
        demo_looks (lease_begin 0 (demo_tree 0) demo_claimed)))
      3 6 ''celery'' None (seconds 1250) 900 21600 RAnswered) = Inr (active_lease_conflict, None)"
proof -
  have "spaced (seconds 60) 0 0 (demo_looks @ [Rival (seconds 1250) (own_job_id (demo_own 1 5)) 6 ''celery'' None 900 21600 RAnswered])"
    by code_simp
  moreover have "working demo_fp (demo_own 1 5) 900 (seconds 21600) (fresh_window (seconds 60)) STALL_WINDOW demo_looks
      (lease_begin 0 (demo_tree 0) demo_claimed)" by code_simp
  moreover have "fresh_window (seconds 60) + 2 * seconds 60 < seconds 900" "0 \<le> fresh_window (seconds 60)"
    by (simp_all add: fresh_window_def seconds_def)
  ultimately show ?thesis
    using working_job_keeps_lease [OF demo_claimed_at, of "fresh_window (seconds 60)" "seconds 60" demo_looks
        "seconds 1250" 6 "''celery''" None 900 21600 RAnswered demo_fp STALL_WINDOW "demo_tree 0"]
    by (simp add: Let_def)
qed


section \<open>What the settings accept\<close>

definition heartbeat_settings_ok :: "int \<Rightarrow> int \<Rightarrow> bool" where
  "heartbeat_settings_ok lease_s heartbeat_s = (0 < lease_s \<and> 0 < heartbeat_s \<and> \<not> lease_s \<le> heartbeat_s)"

text \<open>
  The check at import accepts a heartbeat of 60 s under a lease of 100 s. With it, a busy worker whose
  beat is held by one long step loses its job: the keeper takes the beat for running until its
  freshness has passed, and the lease has lapsed by then.
\<close>

lemma accepted_settings_lose_busy_job:
  "heartbeat_settings_ok 100 60
     \<and> (let own = demo_own 1 5;
            w = snd (claim_execution demo_fp demo_world 3 5 ''celery'' None 0 100 21600 RAnswered);
            es = [Look (seconds 60) False (demo_tree 30) (RenewalAnswers RAnswered RFailed)];
            s = lease_begin 0 (demo_tree 0) w; run = leased_run demo_fp own 100 (seconds 21600) (fresh_window (seconds 60)) STALL_WINDOW
        in spaced (seconds 60) 0 0 (es @ [Rival (seconds 110) 3 6 ''celery'' None 100 21600 RAnswered])
           \<and> working demo_fp own 100 (seconds 21600) (fresh_window (seconds 60)) STALL_WINDOW es s
           \<and> \<not> is_current_owner
                (le_world (run (es @ [Rival (seconds 110) 3 6 ''celery'' None 100 21600 RAnswered]) s)) own)"
  by code_simp

end
