(* ===== verification/NativeSubmission.thy ===== *)
theory NativeSubmission
  imports LeaseProps
begin

text \<open>
  At most one native mesh submission per operation: the claims table
  (\<open>persistence/repositories/native_submission_repository.py\<close>) and the executor that asks it before a
  provider is called (\<open>application/native_submission.py\<close>).

  An operation is named by its job, its generation and its semantic operation; the code's key is the
  SHA-256 of exactly these, so here the key is the identity itself. Rows keep the order they were
  inserted in. Each database call is one statement. The claimant's fingerprint, which nothing reads,
  is left out, as are the digest of a workspace, the messages and the wait on the provider, whose
  outcome is an input.
\<close>

section \<open>The claims\<close>

datatype disposition = Claimed | Accepted | Indeterminate | Failed

type_synonym operation = "uuid \<times> int \<times> string"

record submission =
  sb_operation :: operation
  sb_engine :: string
  sb_digest :: string
  sb_disposition :: disposition
  sb_reference :: "string option"
  sb_failure :: "string option"

type_synonym claims = "submission list"

datatype submit_result =
    Acquired | ExistingAccepted | ExistingUnresolved | ExistingFailed | IdentityConflict | NotCurrentOwner

record claim_outcome =
  co_result :: submit_result
  co_key :: operation
  co_disposition :: "disposition option"
  co_reference :: "string option"
  co_failure :: "string option"

definition may_submit :: "claim_outcome \<Rightarrow> bool" where
  "may_submit o1 = (co_result o1 = Acquired)"

definition find_claim :: "claims \<Rightarrow> operation \<Rightarrow> submission option" where
  "find_claim c k = List.find (\<lambda>r. sb_operation r = k) c"

text \<open>The ownership predicate every statement carries.\<close>

definition owns_row :: "jobs \<Rightarrow> ExecutionOwnership \<Rightarrow> bool" where
  "owns_row t own = (case map_of t (own_job_id own) of None \<Rightarrow> False | Some r \<Rightarrow> holds r own)"

definition operation_of :: "ExecutionOwnership \<Rightarrow> string \<Rightarrow> operation" where
  "operation_of own op = (own_job_id own, own_generation own, op)"

definition native_claim ::
  "jobs \<Rightarrow> claims \<Rightarrow> ExecutionOwnership \<Rightarrow> string \<Rightarrow> string \<Rightarrow> string \<Rightarrow> claim_outcome \<times> claims"
where
  "native_claim t c own op eng digest =
     (let k = operation_of own op;
          out = (\<lambda>res d ref fl. \<lparr>co_result = res, co_key = k, co_disposition = d, co_reference = ref, co_failure = fl\<rparr>)
      in if owns_row t own \<and> find_claim c k = None
         then (out Acquired (Some Claimed) None None,
               c @ [\<lparr>sb_operation = k, sb_engine = eng, sb_digest = digest, sb_disposition = Claimed,
                     sb_reference = None, sb_failure = None\<rparr>])
         else if \<not> owns_row t own then (out NotCurrentOwner None None None, c)
         else case find_claim c k of
           None \<Rightarrow> (out NotCurrentOwner None None None, c)
         | Some r \<Rightarrow>
             let rest = (\<lambda>res. out res (Some (sb_disposition r)) (sb_reference r) (sb_failure r))
             in ((if sb_engine r \<noteq> eng \<or> sb_digest r \<noteq> digest then rest IdentityConflict
                  else if sb_disposition r = Accepted then rest ExistingAccepted
                  else if sb_disposition r = Failed then rest ExistingFailed
                  else rest ExistingUnresolved), c))"

definition still_owned :: "jobs \<Rightarrow> ExecutionOwnership \<Rightarrow> bool" where
  "still_owned t own =
     (case map_of t (own_job_id own) of None \<Rightarrow> False | Some r \<Rightarrow> holds r own \<and> status r \<notin> TERMINAL_STATES)"

definition cancelled_by_owner :: "jobs \<Rightarrow> uuid \<Rightarrow> bool" where
  "cancelled_by_owner t i = (case map_of t i of None \<Rightarrow> False | Some r \<Rightarrow> status r = JS_cancelled)"

definition owner_live :: "jobs \<Rightarrow> claims \<Rightarrow> string \<Rightarrow> bool option" where
  "owner_live t c ref =
     (case List.find (\<lambda>r. sb_reference r = Some ref \<and> map_of t (fst (sb_operation r)) \<noteq> None) c of
        None \<Rightarrow> None
      | Some r \<Rightarrow> Some (status (the (map_of t (fst (sb_operation r)))) \<notin> TERMINAL_STATES))"

text \<open>The same run under earlier generations, newest first.\<close>

definition earlier_runs :: "claims \<Rightarrow> ExecutionOwnership \<Rightarrow> string \<Rightarrow> string \<Rightarrow> string \<Rightarrow> operation list" where
  "earlier_runs c own op digest eng =
     map sb_operation (sort_key (\<lambda>r. - fst (snd (sb_operation r)))
       (filter (\<lambda>r. fst (sb_operation r) = own_job_id own \<and> fst (snd (sb_operation r)) < own_generation own
          \<and> snd (snd (sb_operation r)) = op \<and> sb_digest r = digest \<and> sb_engine r = eng
          \<and> sb_disposition r \<noteq> Failed) c))"

text \<open>
  What became of an operation. No two rows may carry the same provider reference: an update that
  would make them raises.
\<close>

datatype db_error = EmptyReference | DuplicateReference

definition transition_claim ::
  "jobs \<Rightarrow> claims \<Rightarrow> ExecutionOwnership \<Rightarrow> string \<Rightarrow> disposition \<Rightarrow> disposition \<Rightarrow> string option \<Rightarrow> string option
     \<Rightarrow> (db_error + disposition option) \<times> claims"
where
  "transition_claim t c own op upto_state from_state ref fl =
     (let k = operation_of own op
      in case find_claim c k of
           None \<Rightarrow> (Inr None, c)
         | Some r \<Rightarrow>
             if \<not> owns_row t own \<or> sb_disposition r \<noteq> from_state then (Inr None, c)
             else if ref \<noteq> None \<and> list_ex (\<lambda>q. sb_operation q \<noteq> k \<and> sb_reference q = ref) c
             then (Inl DuplicateReference, c)
             else (Inr (Some upto_state),
                   map (\<lambda>q. if sb_operation q = k
                            then q\<lparr>sb_disposition := upto_state, sb_reference := (if ref = None then sb_reference q else ref),
                                   sb_failure := (if fl = None then sb_failure q else fl)\<rparr> else q) c))"

definition mark_accepted ::
  "jobs \<Rightarrow> claims \<Rightarrow> ExecutionOwnership \<Rightarrow> string \<Rightarrow> string \<Rightarrow> (db_error + disposition option) \<times> claims" where
  "mark_accepted t c own op ref =
     (if ref = [] then (Inl EmptyReference, c) else transition_claim t c own op Accepted Claimed (Some ref) None)"

definition mark_indeterminate ::
  "jobs \<Rightarrow> claims \<Rightarrow> ExecutionOwnership \<Rightarrow> string \<Rightarrow> string \<Rightarrow> (db_error + disposition option) \<times> claims" where
  "mark_indeterminate t c own op fl = transition_claim t c own op Indeterminate Claimed None (Some fl)"

definition mark_failed ::
  "jobs \<Rightarrow> claims \<Rightarrow> ExecutionOwnership \<Rightarrow> string \<Rightarrow> string \<Rightarrow> (db_error + disposition option) \<times> claims" where
  "mark_failed t c own op fl = transition_claim t c own op Failed Claimed None (Some fl)"

definition reconcile_accepted ::
  "jobs \<Rightarrow> claims \<Rightarrow> ExecutionOwnership \<Rightarrow> string \<Rightarrow> string \<Rightarrow> (db_error + disposition option) \<times> claims" where
  "reconcile_accepted t c own op ref =
     (if ref = [] then (Inl EmptyReference, c) else transition_claim t c own op Accepted Indeterminate (Some ref) None)"

section \<open>Where a run waits\<close>

text \<open>
  The question a run asks while it waits on its mesh: the drain mark every time, the database at most
  every \<open>recheck\<close>. The reads are inputs; \<open>None\<close> is one that raised. The state is when it last asked.
\<close>

datatype abandon = Draining | CancelledByOwner | HandedOn

definition abandonment_reason ::
  "int \<Rightarrow> bool \<Rightarrow> datetime \<Rightarrow> bool option \<Rightarrow> bool option \<Rightarrow> datetime option \<Rightarrow> abandon option \<times> datetime option"
where
  "abandonment_reason recheck draining now owned cancelled checked_at =
     (if draining then (Some Draining, checked_at)
      else if (case checked_at of None \<Rightarrow> False | Some c \<Rightarrow> now - c < recheck) then (None, checked_at)
      else case owned of
        None \<Rightarrow> (None, Some now)
      | Some True \<Rightarrow> (None, Some now)
      | Some False \<Rightarrow> (Some (if cancelled = Some True then CancelledByOwner else HandedOn), Some now))"

section \<open>One run of the executor\<close>

text \<open>What a run does once it has asked for its operation.\<close>

datatype run_choice = GiveUp | Collect operation | TrySubmit

definition run_choice_of :: "claim_outcome \<Rightarrow> run_choice" where
  "run_choice_of o1 =
     (case co_result o1 of
        ExistingAccepted \<Rightarrow> Collect (co_key o1)
      | Acquired \<Rightarrow> TrySubmit
      | _ \<Rightarrow> GiveUp)"

text \<open>An earlier run is adopted when its exchange says it has a result or is running.\<close>

datatype remote_state = RemoteResult | RemoteRunning

definition adoptable :: "(operation \<Rightarrow> remote_state option) \<Rightarrow> operation list \<Rightarrow> operation option" where
  "adoptable probe keys = List.find (\<lambda>k. probe k \<noteq> None) keys"

text \<open>What the provider's executor answered, and what is recorded of it. \<open>show\<close> prints a key.\<close>

datatype provider_answer = RaisedIndeterminate string | RaisedOther string | AnsweredWith string

definition record_answer ::
  "jobs \<Rightarrow> claims \<Rightarrow> ExecutionOwnership \<Rightarrow> string \<Rightarrow> provider_answer \<Rightarrow> (db_error + disposition option) \<times> claims" where
  "record_answer t c own op ans =
     (case ans of
        RaisedIndeterminate cls \<Rightarrow> mark_indeterminate t c own op cls
      | RaisedOther cls \<Rightarrow> mark_failed t c own op cls
      | AnsweredWith ref \<Rightarrow> if ref \<noteq> [] then mark_accepted t c own op ref
                            else mark_indeterminate t c own op ''no_provider_reference'')"

definition adopted_reference :: "(operation \<Rightarrow> string) \<Rightarrow> string \<Rightarrow> operation \<Rightarrow> string" where
  "adopted_reference shw ref k = (if ref \<noteq> [] then ref else ''adopted:'' @ shw k)"

definition record_adopted ::
  "(operation \<Rightarrow> string) \<Rightarrow> jobs \<Rightarrow> claims \<Rightarrow> ExecutionOwnership \<Rightarrow> string \<Rightarrow> string \<Rightarrow> operation
     \<Rightarrow> (db_error + disposition option) \<times> claims"
where
  "record_adopted shw t c own op ref k = mark_accepted t c own op (adopted_reference shw ref k)"

section \<open>Any workers, in any order\<close>

text \<open>
  The job rows, the claims, the runs that hold the right to submit, and every call of the provider.
  A worker may be lost at any moment: before its call or between the call and its record.
\<close>

record 'f submissions =
  su_world :: "'f world"
  su_claims :: claims
  su_open :: "operation list"
  su_calls :: "operation list"

datatype submit_event =
    RowsChange lease_op
  | BeginRun ExecutionOwnership string string string
  | CallProvider ExecutionOwnership string provider_answer
  | AdoptRun ExecutionOwnership string string operation
  | LostBefore operation
  | LostAfterCall operation
  | Reconcile ExecutionOwnership string string

fun submit_step ::
  "'f fingerprint \<Rightarrow> (operation \<Rightarrow> string) \<Rightarrow> submit_event \<Rightarrow> 'f submissions \<Rightarrow> 'f submissions" where
  "submit_step fp shw (RowsChange op) s = s\<lparr>su_world := lease_step fp op (su_world s)\<rparr>"
| "submit_step fp shw (BeginRun own op eng digest) s =
     (let (out, c) = native_claim (w_jobs (su_world s)) (su_claims s) own op eng digest
      in s\<lparr>su_claims := c,
           su_open := (if run_choice_of out = TrySubmit then co_key out # su_open s else su_open s)\<rparr>)"
| "submit_step fp shw (CallProvider own op ans) s =
     (let k = operation_of own op
      in if k \<notin> set (su_open s) then s
         else s\<lparr>su_open := remove1 k (su_open s), su_calls := k # su_calls s,
                su_claims := snd (record_answer (w_jobs (su_world s)) (su_claims s) own op ans)\<rparr>)"
| "submit_step fp shw (AdoptRun own op ref k') s =
     (let k = operation_of own op
      in if k \<notin> set (su_open s) then s
         else s\<lparr>su_open := remove1 k (su_open s),
                su_claims := snd (record_adopted shw (w_jobs (su_world s)) (su_claims s) own op ref k')\<rparr>)"
| "submit_step fp shw (LostBefore k) s = s\<lparr>su_open := remove1 k (su_open s)\<rparr>"
| "submit_step fp shw (LostAfterCall k) s =
     (if k \<notin> set (su_open s) then s else s\<lparr>su_open := remove1 k (su_open s), su_calls := k # su_calls s\<rparr>)"
| "submit_step fp shw (Reconcile own op ref) s =
     s\<lparr>su_claims := snd (reconcile_accepted (w_jobs (su_world s)) (su_claims s) own op ref)\<rparr>"

definition submit_run ::
  "'f fingerprint \<Rightarrow> (operation \<Rightarrow> string) \<Rightarrow> submit_event list \<Rightarrow> 'f submissions \<Rightarrow> 'f submissions" where
  "submit_run fp shw es s = fold (submit_step fp shw) es s"

definition no_submissions :: "'f world \<Rightarrow> 'f submissions" where
  "no_submissions w = \<lparr>su_world = w, su_claims = [], su_open = [], su_calls = []\<rparr>"

section \<open>How a claim's row changes\<close>

text \<open>A row keeps what it was claimed for; once settled it stays, and an unresolved one can only be
  reconciled into an acceptance. An accepted row names the provider's operation.\<close>

definition claim_evolves :: "submission \<Rightarrow> submission \<Rightarrow> bool" where
  "claim_evolves r r' \<longleftrightarrow>
     sb_operation r' = sb_operation r \<and> sb_engine r' = sb_engine r \<and> sb_digest r' = sb_digest r
     \<and> (case sb_disposition r of
          Claimed \<Rightarrow> True
        | Indeterminate \<Rightarrow> sb_disposition r' \<in> {Indeterminate, Accepted}
        | _ \<Rightarrow> r' = r)"

definition claims_evolve :: "claims \<Rightarrow> claims \<Rightarrow> bool" where
  "claims_evolve c c' \<longleftrightarrow> (\<exists>c1 new. c' = c1 @ new \<and> list_all2 claim_evolves c c1)"

definition claims_wf :: "claims \<Rightarrow> bool" where
  "claims_wf c \<longleftrightarrow> distinct (map sb_operation c)
     \<and> (\<forall>r \<in> set c. sb_disposition r = Accepted \<longrightarrow> (\<exists>ref. sb_reference r = Some ref \<and> ref \<noteq> []))
     \<and> (\<forall>x. \<forall>r \<in> set c. \<forall>q \<in> set c. sb_reference r = Some x \<and> sb_reference q = Some x \<longrightarrow> r = q)"

lemma find_claim_None: "find_claim c k = None \<longleftrightarrow> k \<notin> sb_operation ` set c"
  by (auto simp: find_claim_def find_None_iff)

lemma find_claim_Some: "find_claim c k = Some r \<Longrightarrow> r \<in> set c \<and> sb_operation r = k"
  by (auto simp: find_claim_def find_Some_iff)

lemma claim_evolves_refl [simp]: "claim_evolves r r"
  by (auto simp: claim_evolves_def split: disposition.split)

lemma claim_evolves_trans: "claim_evolves r r1 \<Longrightarrow> claim_evolves r1 r2 \<Longrightarrow> claim_evolves r r2"
  by (auto simp: claim_evolves_def split: disposition.splits)

lemma claims_evolve_refl [simp]: "claims_evolve c c"
  unfolding claims_evolve_def by (intro exI [of _ c] exI [of _ "[]"]) (simp add: list_all2_refl)

lemma claims_evolve_pointwise: "list_all2 claim_evolves c c1 \<Longrightarrow> claims_evolve c (c1 @ new)"
  by (auto simp: claims_evolve_def)

lemma claims_evolve_append [simp]: "claims_evolve c (c @ new)"
  by (rule claims_evolve_pointwise) (simp add: list_all2_refl)

lemmas claims_evolve_rows = claims_evolve_pointwise [where new = "[]", simplified]

lemma claims_evolve_trans:
  assumes "claims_evolve c c1" "claims_evolve c1 c2"
  shows "claims_evolve c c2"
proof -
  obtain d new where d: "c1 = d @ new" "list_all2 claim_evolves c d"
    using assms(1) by (auto simp: claims_evolve_def)
  obtain e new' where e: "c2 = e @ new'" "list_all2 claim_evolves c1 e"
    using assms(2) by (auto simp: claims_evolve_def)
  obtain e1 e2 where split: "e = e1 @ e2" "list_all2 claim_evolves d e1"
    using e(2) unfolding d(1) list_all2_append1 by blast
  have "list_all2 claim_evolves c e1"
    using d(2) split(2) claim_evolves_trans by (rule list_all2_trans [rotated 1])
  then show ?thesis unfolding claims_evolve_def e(1) split(1) by (intro exI [of _ e1] exI [of _ "e2 @ new'"]) simp
qed

lemma native_claim_cases:
  "(fst (native_claim t c own op eng digest), snd (native_claim t c own op eng digest)) = (out, c') \<Longrightarrow>
     (run_choice_of out = TrySubmit \<and> owns_row t own \<and> operation_of own op \<notin> sb_operation ` set c
        \<and> co_key out = operation_of own op
        \<and> (\<exists>r. c' = c @ [r] \<and> sb_operation r = operation_of own op \<and> sb_disposition r = Claimed \<and> sb_reference r = None))
     \<or> (run_choice_of out \<noteq> TrySubmit \<and> c' = c)"
  by (auto simp: native_claim_def run_choice_of_def find_claim_None Let_def split: if_splits option.splits)

lemma native_claim_evolves: "claims_evolve c (snd (native_claim t c own op eng digest))"
  using native_claim_cases [OF refl, of t c own op eng digest]
  by auto

lemma native_claim_wf: "claims_wf c \<Longrightarrow> claims_wf (snd (native_claim t c own op eng digest))"
  using native_claim_cases [OF refl, of t c own op eng digest] by (auto simp: claims_wf_def)

definition settles :: "disposition \<Rightarrow> disposition \<Rightarrow> string option \<Rightarrow> bool" where
  "settles from_state to_state ref \<longleftrightarrow>
     (from_state = Claimed \<or> (from_state = Indeterminate \<and> to_state = Accepted))
     \<and> (to_state = Accepted \<longrightarrow> (\<exists>x. ref = Some x \<and> x \<noteq> []))"

lemma transition_evolves:
  assumes "settles from_state to_state ref" "claims_wf c"
  shows "claims_evolve c (snd (transition_claim t c own op to_state from_state ref fl))"
proof -
  let ?k = "operation_of own op"
  let ?f = "\<lambda>q. if sb_operation q = ?k
    then q\<lparr>sb_disposition := to_state, sb_reference := (if ref = None then sb_reference q else ref),
           sb_failure := (if fl = None then sb_failure q else fl)\<rparr> else q"
  have "list_all2 claim_evolves c (map ?f c)" if r: "find_claim c ?k = Some r" "sb_disposition r = from_state" for r
  proof -
    have "claim_evolves q (?f q)" if q: "q \<in> set c" for q
    proof (cases "sb_operation q = ?k")
      case True
      then have "q = r"
        using find_claim_Some [OF r(1)] q assms(2) by (auto simp: claims_wf_def distinct_map inj_on_def)
      then show ?thesis
        using r(2) assms(1) by (auto simp: claim_evolves_def settles_def split: disposition.splits)
    qed simp
    then show ?thesis by (simp add: list_all2_map2 list.rel_refl_strong)
  qed
  then show ?thesis
    by (auto simp: transition_claim_def Let_def intro: claims_evolve_rows split: option.split)
qed

lemma transition_wf:
  assumes "settles from_state to_state ref" "claims_wf c"
  shows "claims_wf (snd (transition_claim t c own op to_state from_state ref fl))"
proof -
  let ?k = "operation_of own op"
  let ?f = "\<lambda>q. if sb_operation q = ?k
    then q\<lparr>sb_disposition := to_state, sb_reference := (if ref = None then sb_reference q else ref),
           sb_failure := (if fl = None then sb_failure q else fl)\<rparr> else q"
  have wf: "distinct (map sb_operation c)" "\<And>r q. r \<in> set c \<Longrightarrow> q \<in> set c \<Longrightarrow> sb_operation r = sb_operation q \<Longrightarrow> r = q"
    "\<And>r. r \<in> set c \<Longrightarrow> sb_disposition r = Accepted \<Longrightarrow> \<exists>x. sb_reference r = Some x \<and> x \<noteq> []"
    "\<And>x r q. r \<in> set c \<Longrightarrow> q \<in> set c \<Longrightarrow> sb_reference r = Some x \<Longrightarrow> sb_reference q = Some x \<Longrightarrow> r = q"
    using assms(2) by (auto simp: claims_wf_def distinct_map inj_on_def)
  have "claims_wf (map ?f c)"
    if free: "ref = None \<or> \<not> list_ex (\<lambda>q. sb_operation q \<noteq> ?k \<and> sb_reference q = ref) c"
    unfolding claims_wf_def
  proof (intro conjI allI ballI impI)
    show "distinct (map sb_operation (map ?f c))"
      using wf(1) by (simp add: comp_def if_distrib cong: if_cong)
  next
    fix r assume "r \<in> set (map ?f c)" "sb_disposition r = Accepted"
    then show "\<exists>x. sb_reference r = Some x \<and> x \<noteq> []"
      using wf(3) assms(1) by (fastforce simp: settles_def split: if_splits)
  next
    fix x r q assume rq: "r \<in> set (map ?f c)" "q \<in> set (map ?f c)"
      "sb_reference r = Some x \<and> sb_reference q = Some x"
    then obtain r0 q0 where r0: "r0 \<in> set c" "q0 \<in> set c" "r = ?f r0" "q = ?f q0" by auto
    have other: "sb_reference y \<noteq> ref" if "ref \<noteq> None" "y \<in> set c" "sb_operation y \<noteq> ?k" for y
      using free that by (auto simp: list_ex_iff)
    have "sb_operation r0 = sb_operation q0"
    proof (cases "ref = None")
      case True
      then have "sb_reference r0 = Some x" "sb_reference q0 = Some x" using rq(3) r0 by (auto split: if_splits)
      then show ?thesis using wf(4) r0 by blast
    next
      case False
      then show ?thesis
        using rq(3) r0 other [of r0] other [of q0] wf(4) [of r0 q0 x]
        by (cases "sb_operation r0 = ?k"; cases "sb_operation q0 = ?k") simp_all
    qed
    then have "r0 = q0" using wf(2) r0 by blast
    then show "r = q" using r0 by simp
  qed
  then show ?thesis
    using assms(2) by (auto simp: transition_claim_def Let_def split: option.split)
qed

lemmas settle_defs = mark_accepted_def mark_indeterminate_def mark_failed_def reconcile_accepted_def
  record_answer_def record_adopted_def adopted_reference_def

lemma recorded_evolves:
  assumes "claims_wf c"
  shows "claims_evolve c (snd (record_answer t c own op ans))"
    and "claims_evolve c (snd (record_adopted shw t c own op ref k))"
    and "claims_evolve c (snd (reconcile_accepted t c own op ref))"
  using assms
  by (auto simp: settle_defs settles_def intro!: transition_evolves split: provider_answer.split)

lemma recorded_wf:
  assumes "claims_wf c"
  shows "claims_wf (snd (record_answer t c own op ans))"
    and "claims_wf (snd (record_adopted shw t c own op ref k))"
    and "claims_wf (snd (reconcile_accepted t c own op ref))"
  using assms
  by (auto simp: settle_defs settles_def intro!: transition_wf split: provider_answer.split)

section \<open>At most once\<close>

definition once :: "'f submissions \<Rightarrow> bool" where
  "once s \<longleftrightarrow> claims_wf (su_claims s) \<and> distinct (su_open s @ su_calls s)
     \<and> set (su_open s @ su_calls s) \<subseteq> sb_operation ` set (su_claims s)"

lemma evolves_operations: "claims_evolve c c' \<Longrightarrow> sb_operation ` set c \<subseteq> sb_operation ` set c'"
proof -
  have same: "list_all2 claim_evolves c c1 \<Longrightarrow> map sb_operation c1 = map sb_operation c" for c1
    by (induction rule: list_all2_induct) (auto simp: claim_evolves_def)
  assume "claims_evolve c c'"
  then obtain c1 new where "c' = c1 @ new" "map sb_operation c1 = map sb_operation c"
    using same by (auto simp: claims_evolve_def)
  then show ?thesis by (metis Un_upper1 image_Un list.set_map set_append)
qed

lemma submit_step_evolves:
  "claims_wf (su_claims s) \<Longrightarrow> claims_evolve (su_claims s) (su_claims (submit_step fp shw ev s))"
  by (cases ev) (simp_all add: Let_def split_beta native_claim_evolves recorded_evolves)

lemma submit_step_wf:
  "claims_wf (su_claims s) \<Longrightarrow> claims_wf (su_claims (submit_step fp shw ev s))"
  by (cases ev) (simp_all add: Let_def split_beta native_claim_wf recorded_wf)

lemma submit_step_once:
  assumes "once s"
  shows "once (submit_step fp shw ev s)"
proof -
  have wf: "claims_wf (su_claims s)" and d: "distinct (su_open s)" "distinct (su_calls s)"
    "set (su_open s) \<inter> set (su_calls s) = {}"
    and sub: "set (su_open s) \<subseteq> sb_operation ` set (su_claims s)" "set (su_calls s) \<subseteq> sb_operation ` set (su_claims s)"
    using assms by (auto simp: once_def)
  note grow = evolves_operations [OF submit_step_evolves [OF wf, of fp shw ev]]
  have kept: "set (su_open s) \<union> set (su_calls s) \<subseteq> sb_operation ` set (su_claims (submit_step fp shw ev s))"
    using grow sub by blast
  have shrink: ?thesis
    if "su_open (submit_step fp shw ev s) = remove1 k (su_open s)"
      "su_calls (submit_step fp shw ev s) = su_calls s \<or> k \<in> set (su_open s) \<and> su_calls (submit_step fp shw ev s) = k # su_calls s"
    for k
    using that kept d submit_step_wf [OF wf] by (auto simp: once_def)
  have same: ?thesis
    if "su_open (submit_step fp shw ev s) = su_open s" "su_calls (submit_step fp shw ev s) = su_calls s"
    using that kept d submit_step_wf [OF wf] by (auto simp: once_def)
  show ?thesis
  proof (cases ev)
    case (BeginRun own op eng digest)
    let ?n = "native_claim (w_jobs (su_world s)) (su_claims s) own op eng digest"
    show ?thesis
    proof (cases "run_choice_of (fst ?n) = TrySubmit")
      case True
      then obtain r where "co_key (fst ?n) \<notin> sb_operation ` set (su_claims s)"
        "snd ?n = su_claims s @ [r]" "sb_operation r = co_key (fst ?n)"
        using native_claim_cases [OF refl, of "w_jobs (su_world s)" "su_claims s" own op eng digest] by auto
      then show ?thesis
        using True BeginRun d sub submit_step_wf [OF wf, of fp shw ev]
        by (auto simp: once_def Let_def split_beta)
    next
      case False
      then show ?thesis using BeginRun by (intro same) (simp_all add: Let_def split_beta)
    qed
  next
    case (CallProvider own op ans)
    show ?thesis
    proof (cases "operation_of own op \<in> set (su_open s)")
      case True
      then show ?thesis using CallProvider by (intro shrink [of "operation_of own op"]) (simp_all add: Let_def)
    next
      case False
      then show ?thesis using CallProvider by (intro same) (simp_all add: Let_def)
    qed
  next
    case (AdoptRun own op ref k)
    show ?thesis
    proof (cases "operation_of own op \<in> set (su_open s)")
      case True
      then show ?thesis using AdoptRun by (intro shrink [of "operation_of own op"]) (simp_all add: Let_def)
    next
      case False
      then show ?thesis using AdoptRun by (intro same) (simp_all add: Let_def)
    qed
  next
    case (LostAfterCall k)
    show ?thesis
    proof (cases "k \<in> set (su_open s)")
      case True
      then show ?thesis using LostAfterCall by (intro shrink [of "k"]) (simp_all add: Let_def)
    next
      case False
      then show ?thesis using LostAfterCall by (intro same) (simp_all add: Let_def)
    qed
  next
    case (LostBefore k)
    then show ?thesis by (intro shrink [of k]) simp_all
  qed (intro same; simp)+
qed

lemma submit_run_once:
  "once s \<Longrightarrow> once (submit_run fp shw es s) \<and> claims_evolve (su_claims s) (su_claims (submit_run fp shw es s))"
proof (induction es arbitrary: s)
  case (Cons ev es)
  have "claims_evolve (su_claims s) (su_claims (submit_step fp shw ev s))"
    using Cons.prems by (simp add: submit_step_evolves once_def)
  with Cons.IH [OF submit_step_once [OF Cons.prems]] show ?case
    by (auto simp: submit_run_def intro: claims_evolve_trans)
qed (simp add: submit_run_def)

text \<open>
  C9: a native mesh run is submitted at most once per operation. Whatever order any workers begin runs
  in, however their ownership changes meanwhile, wherever a worker is lost - before its call or between
  the call and its record - and whatever the provider answers, the provider is called at most once for
  each job, generation and semantic operation; and what is recorded only settles: an accepted or failed
  claim never changes again, an unresolved one can only become accepted, and an acceptance always names
  the provider's operation, each operation in one claim only.
\<close>

theorem submitted_at_most_once:
  "let s = submit_run fp shw es (no_submissions w); s' = submit_run fp shw es' s
   in distinct (su_calls s') \<and> claims_wf (su_claims s') \<and> claims_evolve (su_claims s) (su_claims s')"
proof -
  have "once (no_submissions w)" by (simp add: once_def no_submissions_def claims_wf_def)
  then have "once (submit_run fp shw es (no_submissions w))" using submit_run_once by blast
  from submit_run_once [OF this, of fp shw es'] show ?thesis by (simp add: once_def Let_def)
qed

section \<open>Adopting a run twice\<close>

text \<open>
  A run that was adopted once cannot be adopted again. When a new owner collects an earlier
  generation's run under its own claim, and an owner before it had already recorded that same run as
  adopted, the record of the acceptance raises: the reference it derives from the run's key is in that
  earlier owner's claim. The mesh has been collected by then.
\<close>

theorem second_adoption_raises:
  assumes "owns_row t own" "find_claim c (operation_of own op) = Some r" "sb_disposition r = Claimed"
    and "q \<in> set c" "sb_operation q \<noteq> operation_of own op" "sb_reference q = Some (adopted_reference shw [] k)"
  shows "record_adopted shw t c own op [] k = (Inl DuplicateReference, c)"
  using assms by (auto simp: record_adopted_def mark_accepted_def transition_claim_def adopted_reference_def
      list_ex_iff Let_def)

text \<open>
  A job whose first worker is lost after its submission, whose second worker adopts the running mesh
  and hands the job back while it waits, and whose third worker then finds the finished mesh.
\<close>

definition demo_key :: "operation \<Rightarrow> string" where
  "demo_key k = (if fst (snd k) = 1 then ''one'' else ''more'')"

definition demo_handover :: "submit_event list" where
  "demo_handover =
     [RowsChange (Claim 3 5 ''celery'' None 0 900 21600 RAnswered),
      BeginRun (demo_own 1 5) ''mesh'' ''snappy'' ''d'',
      LostAfterCall (3, 1, ''mesh''),
      RowsChange (HandBack (demo_own 1 5) 10 RAnswered),
      RowsChange (Claim 3 6 ''celery'' None 20 900 21600 RAnswered),
      BeginRun (demo_own 2 6) ''mesh'' ''snappy'' ''d'',
      AdoptRun (demo_own 2 6) ''mesh'' [] (3, 1, ''mesh''),
      RowsChange (HandBack (demo_own 2 6) 30 RAnswered),
      RowsChange (Claim 3 7 ''celery'' None 40 900 21600 RAnswered),
      BeginRun (demo_own 3 7) ''mesh'' ''snappy'' ''d'']"

theorem second_adoption_raises_witness:
  "let s = submit_run demo_fp demo_key demo_handover (no_submissions demo_world); t = w_jobs (su_world s)
   in adoptable (\<lambda>k. if k = (3, 1, ''mesh'') then Some RemoteResult else None)
        (earlier_runs (su_claims s) (demo_own 3 7) ''mesh'' ''d'' ''snappy'') = Some (3, 1, ''mesh'')
      \<and> fst (record_adopted demo_key t (su_claims s) (demo_own 3 7) ''mesh'' [] (3, 1, ''mesh'')) = Inl DuplicateReference"
proof -
  let ?s = "submit_run demo_fp demo_key demo_handover (no_submissions demo_world)"
  let ?k = "(3, 3, ''mesh'') :: operation"
  have "adoptable (\<lambda>k. if k = (3, 1, ''mesh'') then Some RemoteResult else None)
      (earlier_runs (su_claims ?s) (demo_own 3 7) ''mesh'' ''d'' ''snappy'') = Some (3, 1, ''mesh'')"
    by code_simp
  moreover have "owns_row (w_jobs (su_world ?s)) (demo_own 3 7)" by code_simp
  moreover have "case find_claim (su_claims ?s) (operation_of (demo_own 3 7) ''mesh'') of
      None \<Rightarrow> False | Some r \<Rightarrow> sb_disposition r = Claimed" by code_simp
  then obtain r where "find_claim (su_claims ?s) (operation_of (demo_own 3 7) ''mesh'') = Some r"
    "sb_disposition r = Claimed" by (auto split: option.splits)
  moreover have "list_ex (\<lambda>q. sb_operation q \<noteq> operation_of (demo_own 3 7) ''mesh''
      \<and> sb_reference q = Some (adopted_reference demo_key [] (3, 1, ''mesh''))) (su_claims ?s)" by code_simp
  then obtain q where "q \<in> set (su_claims ?s)" "sb_operation q \<noteq> operation_of (demo_own 3 7) ''mesh''"
    "sb_reference q = Some (adopted_reference demo_key [] (3, 1, ''mesh''))" by (auto simp: list_ex_iff)
  ultimately show ?thesis
    using second_adoption_raises [of "w_jobs (su_world ?s)" "demo_own 3 7" "su_claims ?s" "''mesh''" r q
        demo_key "(3, 1, ''mesh'')"]
    by (simp add: Let_def)
qed

text \<open>
  An operation whose acceptance was an adoption is collected, when its run is replayed, under its own
  key, where nothing was ever submitted: the adopted key in the reference is not read.
\<close>

lemma adopted_replay_collects_own_key:
  "let s = submit_run demo_fp demo_key (take 7 demo_handover) (no_submissions demo_world);
       out = fst (native_claim (w_jobs (su_world s)) (su_claims s) (demo_own 2 6) ''mesh'' ''snappy'' ''d'')
   in run_choice_of out = Collect (3, 2, ''mesh'') \<and> co_reference out = Some ''adopted:one''
      \<and> (3, 2, ''mesh'') \<notin> set (su_calls s)"
  by code_simp

end
