(* ===== verification/AgentLoop.thy ===== *)
theory AgentLoop
  imports Clocks
begin

text \<open>
  The one loop every agent runs through (\<open>agents/loop/runner.py\<close>): its rounds, the limits that stop
  it, the accountant that counts what it did (\<open>accounting.py\<close>, \<open>progress.py\<close>,
  \<open>contracts/agent_loop.py\<close>) and what one tool call or one provider round ends as
  (\<open>tool_execution.py\<close>, \<open>provider_round.py\<close>).

  The model, the tools and the agent's own policy are the script: one \<open>round_input\<close> per round says how
  the provider answered, how each call ended, what the policy decided and what the clock read. A
  record keeps how an agent run ended and its counts; the conversation, the events themselves, the token
  counts and the durations are left out, and the hooks of a policy that only talk to the model.
\<close>

section \<open>The vocabulary\<close>

datatype loop_exit =
    TerminalAction | RoundsExhausted | DeadlineExhausted | NoProgress | ProviderFailed | PolicyAbort
  | ExecutorFailed | TurnComplete | AttemptsExhausted

datatype loop_stage = Running | Warned | Closing

record loop_limits =
  ll_max_rounds :: "nat option"
  ll_warn_at_remaining_rounds :: "nat option"
  ll_closing_at_remaining_rounds :: "nat option"
  ll_no_progress_threshold :: "nat option"

record round_record =
  rr_index :: nat
  rr_provider_attempts :: nat
  rr_had_tool_calls :: bool
  rr_stage :: loop_stage

record tool_call_record =
  tc_round :: nat
  tc_call :: nat
  tc_category :: string
  tc_malformed :: bool
  tc_accepted :: bool

record accountant =
  ac_rounds :: "round_record list"
  ac_calls :: "tool_call_record list"
  ac_provider_attempts :: nat
  ac_plaintext :: nat
  ac_progress :: nat
  ac_no_progress :: nat
  ac_signature :: "string option"
  ac_terminal :: bool

definition new_accountant :: accountant where
  "new_accountant = \<lparr>ac_rounds = [], ac_calls = [], ac_provider_attempts = 0, ac_plaintext = 0, ac_progress = 0,
     ac_no_progress = 0, ac_signature = None, ac_terminal = False\<rparr>"

definition remaining_rounds :: "loop_limits \<Rightarrow> accountant \<Rightarrow> nat option" where
  "remaining_rounds l a = map_option (\<lambda>m. m - length (ac_rounds a)) (ll_max_rounds l)"

definition near_end :: "nat \<Rightarrow> nat option \<Rightarrow> bool" where
  "near_end left bar = (case bar of None \<Rightarrow> False | Some b \<Rightarrow> left \<le> b)"

definition stage_of :: "loop_limits \<Rightarrow> accountant \<Rightarrow> loop_stage" where
  "stage_of l a =
     (case remaining_rounds l a of
        None \<Rightarrow> Running
      | Some left \<Rightarrow>
          if near_end left (ll_closing_at_remaining_rounds l) then Closing
          else if near_end left (ll_warn_at_remaining_rounds l) then Warned else Running)"

section \<open>Progress\<close>

record progress_observation =
  po_made_progress :: bool
  po_signature :: string

definition signature_of :: "progress_observation \<Rightarrow> string option" where
  "signature_of ob = (if po_signature ob = [] then None else Some (po_signature ob))"

definition advance_progress ::
  "progress_observation \<Rightarrow> nat \<times> nat \<times> string option \<Rightarrow> nat \<times> nat \<times> string option" where
  "advance_progress ob s =
     (case s of (made, stuck_for, sig) \<Rightarrow>
        if po_made_progress ob then (made + 1, 0, signature_of ob)
        else if po_signature ob \<noteq> [] \<and> Some (po_signature ob) = sig then (made, stuck_for + 1, sig)
        else (made, 1, signature_of ob))"

definition stalled_run :: "nat \<Rightarrow> loop_limits \<Rightarrow> bool" where
  "stalled_run stuck_for l = (case ll_no_progress_threshold l of None \<Rightarrow> False | Some n \<Rightarrow> n \<le> stuck_for)"

text \<open>The observations at the end of a run that report the same lack of progress.\<close>

definition same_stall :: "progress_observation \<Rightarrow> progress_observation \<Rightarrow> bool" where
  "same_stall a ob \<longleftrightarrow> \<not> po_made_progress ob \<and> po_signature ob \<noteq> [] \<and> po_signature ob = po_signature a"

definition stall_length :: "progress_observation list \<Rightarrow> nat" where
  "stall_length obs =
     (case rev obs of
        [] \<Rightarrow> 0
      | ob # _ \<Rightarrow> if po_made_progress ob then 0 else max 1 (length (takeWhile (same_stall ob) (rev obs))))"

definition progress_of :: "progress_observation list \<Rightarrow> nat \<times> nat \<times> string option" where
  "progress_of obs = fold advance_progress obs (0, 0, None)"

lemma progress_of_snoc: "progress_of (obs @ [ob]) = advance_progress ob (progress_of obs)"
  by (simp add: progress_of_def)

lemma advance_signature: "snd (snd (advance_progress ob s)) = signature_of ob"
  by (cases s) (simp add: advance_progress_def signature_of_def)

lemma progress_signature:
  "snd (snd (progress_of obs)) = (if obs = [] then None else signature_of (last obs))"
  by (cases obs rule: rev_cases) (simp_all add: progress_of_snoc advance_signature, simp add: progress_of_def)

lemma stall_length_spec: "fst (snd (progress_of obs)) = stall_length obs"
proof (induction obs rule: rev_induct)
  case Nil
  then show ?case by (simp add: progress_of_def stall_length_def)
next
  case (snoc ob obs)
  show ?case
  proof (cases obs rule: rev_cases)
    case Nil
    then show ?thesis
      by (auto simp: progress_of_def stall_length_def advance_progress_def)
  next
    case (snoc obs' prev)
    have sig: "snd (snd (progress_of obs)) = signature_of prev" by (simp add: progress_signature snoc)
    have revs: "rev obs = prev # rev obs'" by (simp add: snoc)
    have cong: "same_stall ob = same_stall prev" if "po_signature ob = po_signature prev"
      using that by (auto simp: same_stall_def fun_eq_iff)
    have new: "fst (snd (progress_of (obs @ [ob]))) =
        (if po_made_progress ob then 0
         else if po_signature ob \<noteq> [] \<and> Some (po_signature ob) = signature_of prev then stall_length obs + 1 else 1)"
      using sig snoc.IH by (simp add: progress_of_snoc advance_progress_def split_beta)
    have old: "stall_length obs = (if po_made_progress prev then 0
        else max 1 (length (takeWhile (same_stall prev) (prev # rev obs'))))"
      by (simp add: stall_length_def revs)
    have "stall_length (obs @ [ob]) = (if po_made_progress ob then 0
        else max 1 (length (takeWhile (same_stall ob) (ob # prev # rev obs'))))"
      by (simp add: stall_length_def revs)
    then show ?thesis
      unfolding new old using cong by (auto simp: same_stall_def signature_of_def)
  qed
qed

lemma stall_is_repetition:
  assumes "2 \<le> n" "n \<le> stall_length obs"
  shows "\<exists>xs ob. obs = xs @ replicate n ob \<and> \<not> po_made_progress ob \<and> po_signature ob \<noteq> []"
proof -
  obtain ob rest where r: "rev obs = ob # rest" "\<not> po_made_progress ob"
    using assms by (cases "rev obs") (auto simp: stall_length_def split: if_splits)
  let ?w = "takeWhile (same_stall ob) (rev obs)"
  have len: "n \<le> length ?w" using assms r by (auto simp: stall_length_def)
  then have "?w \<noteq> []" using assms(1) by auto
  then have "same_stall ob ob" using r(1) by (auto split: if_splits)
  then have sig: "po_signature ob \<noteq> []" by (simp add: same_stall_def)
  have "x = ob" if "x \<in> set ?w" for x
  proof -
    have "same_stall ob x" using that by (rule set_takeWhileD [THEN conjunct2])
    then show ?thesis using r(2) by (cases x; cases ob) (simp add: same_stall_def)
  qed
  then have "?w = replicate (length ?w) ob" by (intro replicate_eqI) simp_all
  then have "take n (rev obs) = replicate n ob"
  proof -
    have "?w = take (length ?w) (rev obs)" by (rule takeWhile_eq_take)
    then have "take n ?w = take n (rev obs)" using len by (metis take_take min.absorb1)
    moreover have "take n ?w = replicate n ob"
      using len \<open>?w = replicate (length ?w) ob\<close> by (metis take_replicate min.absorb1)
    ultimately show ?thesis by simp
  qed
  then have "rev obs = replicate n ob @ drop n (rev obs)" by (metis append_take_drop_id)
  then have "obs = rev (drop n (rev obs)) @ replicate n ob" by (metis rev_append rev_replicate rev_rev_ident)
  with r(2) sig show ?thesis by blast
qed

section \<open>One call and one round\<close>

record moment =
  mo_clock :: progress_clock
  mo_now :: datetime

record 'p tool_outcome =
  to_accepted :: bool
  to_terminal :: bool
  to_ends_loop :: bool
  to_payload :: 'p

text \<open>How a call ended; one that raised says whether the run was being cancelled, and whether the driver
  reads the exception as a supersession.\<close>

text \<open>The events around a call are published by the builder as the owner of its job: one that is refused
  raises, before the call or after it.\<close>

datatype call_trace = Published | FencedBefore | FencedAfter

datatype 'p tool_answer = ToolTimedOut | ToolCancelled | ToolRaised bool bool | ToolReturned "'p tool_outcome"

record 'p tool_call =
  cl_category :: string
  cl_malformed :: bool
  cl_moment :: moment
  cl_trace :: call_trace
  cl_answer :: "'p tool_answer"

datatype 'p call_end =
    CallGoesOn | CallTerminal 'p | CallEndsLoop | CallTimedOut | CallSuperseded | CallCancelled | CallFailed | CallFenced

definition record_call :: "nat \<Rightarrow> 'p tool_call \<Rightarrow> bool \<Rightarrow> accountant \<Rightarrow> accountant" where
  "record_call round_index c accepted a =
     a\<lparr>ac_calls := ac_calls a @ [\<lparr>tc_round = round_index, tc_call = length (ac_calls a) + 1,
         tc_category = cl_category c, tc_malformed = cl_malformed c, tc_accepted = accepted \<and> \<not> cl_malformed c\<rparr>]\<rparr>"

definition run_call :: "nat \<Rightarrow> 'p tool_call \<Rightarrow> accountant \<Rightarrow> accountant \<times> 'p call_end" where
  "run_call round_index c a =
     (let told = (\<lambda>e. if cl_trace c = FencedAfter then CallFenced else e)
      in if cl_trace c = FencedBefore then (a, CallFenced)
         else case cl_answer c of
           ToolCancelled \<Rightarrow> (a, CallCancelled)
         | ToolTimedOut \<Rightarrow> (record_call round_index c False a, told CallTimedOut)
         | ToolRaised cancelling superseded \<Rightarrow>
             if cancelling then (a, CallCancelled)
             else if superseded then (a, CallSuperseded)
             else (record_call round_index c False a, told CallFailed)
         | ToolReturned out \<Rightarrow>
             (record_call round_index c (to_accepted out) a,
              told (if to_terminal out then CallTerminal (to_payload out)
                    else if to_ends_loop out then CallEndsLoop else CallGoesOn)))"

definition expired_at :: "loop_budget \<Rightarrow> moment \<Rightarrow> bool" where
  "expired_at b m = loop_expired b (mo_clock m) (mo_now m)"

fun run_calls :: "loop_budget \<Rightarrow> nat \<Rightarrow> 'p tool_call list \<Rightarrow> accountant \<Rightarrow> accountant \<times> 'p call_end" where
  "run_calls b n [] a = (a, CallGoesOn)"
| "run_calls b n (c # cs) a =
     (if expired_at b (cl_moment c) then (a, CallTimedOut)
      else case run_call n c a of
        (a', CallGoesOn) \<Rightarrow> run_calls b n cs a'
      | (a', e) \<Rightarrow> (a', e))"

text \<open>How the provider's round ended; an answer has its attempts, its failure marker, its calls and
  whether the events that follow it were published.\<close>

datatype 'p provider_reply =
    ReplyTimedOut | ReplyFenced | ReplyCancelled | ReplyRaised | Reply nat string "'p tool_call list" bool

datatype 'p close_out =
    NothingToClose | Closed "'p tool_outcome" | CloseCancelled | CloseRaised bool bool

record 'p round_input =
  ri_moment :: moment
  ri_reply :: "'p provider_reply"
  ri_plain_complete :: bool
  ri_plain_exit :: loop_exit
  ri_plain_payload :: "'p option"
  ri_close :: "'p close_out"
  ri_observation :: progress_observation

record loop_config =
  lc_limits :: loop_limits
  lc_budget :: loop_budget
  lc_marker :: "loop_exit \<Rightarrow> string"

datatype raised = Superseded | Cancelled | Fenced | ToolFailure

datatype 'p loop_end = LoopEnded loop_exit string "'p option" | LoopRaised raised

text \<open>What a run leaves: how it ended, its authoritative records, and the breadcrumbs of a superseded one.\<close>

record 'p agent_run =
  ar_end :: "'p loop_end"
  ar_records :: "(loop_exit \<times> string \<times> accountant) list"
  ar_breadcrumbs :: nat

definition finish_run :: "loop_exit \<Rightarrow> string \<Rightarrow> 'p option \<Rightarrow> accountant \<Rightarrow> 'p agent_run" where
  "finish_run e mk p a = \<lparr>ar_end = LoopEnded e mk p, ar_records = [(e, mk, a)], ar_breadcrumbs = 0\<rparr>"

definition exhausted_run :: "loop_config \<Rightarrow> loop_exit \<Rightarrow> accountant \<Rightarrow> 'p agent_run" where
  "exhausted_run cfg e a = finish_run e (lc_marker cfg e) None a"

definition raised_run :: "loop_config \<Rightarrow> raised \<Rightarrow> accountant \<Rightarrow> 'p agent_run" where
  "raised_run cfg why a =
     \<lparr>ar_end = LoopRaised why,
      ar_records = (if why = ToolFailure then [(ExecutorFailed, lc_marker cfg ExecutorFailed, a)] else []),
      ar_breadcrumbs = (if why = Superseded then 1 else 0)\<rparr>"

definition record_round :: "loop_limits \<Rightarrow> nat \<Rightarrow> string \<Rightarrow> bool \<Rightarrow> accountant \<Rightarrow> accountant" where
  "record_round l attempts marker calls a =
     a\<lparr>ac_rounds := ac_rounds a @ [\<lparr>rr_index = length (ac_rounds a) + 1, rr_provider_attempts = attempts,
         rr_had_tool_calls = calls, rr_stage = stage_of l a\<rparr>],
       ac_provider_attempts := ac_provider_attempts a + attempts,
       ac_plaintext := (if \<not> calls \<and> marker = [] then ac_plaintext a + 1 else ac_plaintext a)\<rparr>"

definition record_progress :: "progress_observation \<Rightarrow> accountant \<Rightarrow> accountant" where
  "record_progress ob a =
     (case advance_progress ob (ac_progress a, ac_no_progress a, ac_signature a) of
        (made, stuck_for, sig) \<Rightarrow>
          a\<lparr>ac_progress := made, ac_no_progress := stuck_for, ac_signature := sig\<rparr>)"

definition ROUND_RAISED_MARKER :: string where
  "ROUND_RAISED_MARKER = ''<<API_FAILURE:provider_round_transient>>''"

datatype 'p round_end = RoundStops "'p agent_run" | RoundTalked | RoundWorked

definition close_round :: "loop_config \<Rightarrow> 'p round_input \<Rightarrow> accountant \<Rightarrow> accountant \<times> 'p round_end" where
  "close_round cfg i a =
     (case ri_close i of
        NothingToClose \<Rightarrow> (a, RoundWorked)
      | CloseCancelled \<Rightarrow> (a, RoundStops (raised_run cfg Cancelled a))
      | CloseRaised cancelling superseded \<Rightarrow>
          (a, RoundStops (raised_run cfg
             (if cancelling then Cancelled else if superseded then Superseded else ToolFailure) a))
      | Closed out \<Rightarrow>
          if to_terminal out
          then let a' = a\<lparr>ac_terminal := True\<rparr>
               in (a', RoundStops (finish_run TerminalAction [] (Some (to_payload out)) a'))
          else (a, RoundWorked))"

definition loop_round :: "loop_config \<Rightarrow> 'p round_input \<Rightarrow> accountant \<Rightarrow> accountant \<times> 'p round_end" where
  "loop_round cfg i a =
     (if expired_at (lc_budget cfg) (ri_moment i) then (a, RoundStops (exhausted_run cfg DeadlineExhausted a))
      else case ri_reply i of
        ReplyTimedOut \<Rightarrow> (a, RoundStops (exhausted_run cfg DeadlineExhausted a))
      | ReplyFenced \<Rightarrow> (a, RoundStops (raised_run cfg Fenced a))
      | ReplyCancelled \<Rightarrow> (a, RoundStops (raised_run cfg Cancelled a))
      | ReplyRaised \<Rightarrow> (a, RoundStops (finish_run ProviderFailed ROUND_RAISED_MARKER None a))
      | Reply attempts marker calls published \<Rightarrow>
          let a1 = record_round (lc_limits cfg) attempts marker (calls \<noteq> []) a
          in if \<not> published then (a1, RoundStops (raised_run cfg Fenced a1))
             else if marker \<noteq> [] then (a1, RoundStops (finish_run ProviderFailed marker None a1))
             else if calls = []
             then (a1, if ri_plain_complete i
                       then RoundStops (finish_run (ri_plain_exit i) [] (ri_plain_payload i) a1) else RoundTalked)
             else case run_calls (lc_budget cfg) (length (ac_rounds a1)) calls a1 of
               (a2, CallGoesOn) \<Rightarrow> close_round cfg i a2
             | (a2, CallTerminal p) \<Rightarrow>
                 let a3 = a2\<lparr>ac_terminal := True\<rparr> in (a3, RoundStops (finish_run TerminalAction [] (Some p) a3))
             | (a2, CallEndsLoop) \<Rightarrow> (a2, RoundStops (finish_run PolicyAbort [] None a2))
             | (a2, CallTimedOut) \<Rightarrow> (a2, RoundStops (exhausted_run cfg DeadlineExhausted a2))
             | (a2, CallSuperseded) \<Rightarrow> (a2, RoundStops (raised_run cfg Superseded a2))
             | (a2, CallCancelled) \<Rightarrow> (a2, RoundStops (raised_run cfg Cancelled a2))
             | (a2, CallFailed) \<Rightarrow> (a2, RoundStops (raised_run cfg ToolFailure a2))
             | (a2, CallFenced) \<Rightarrow> (a2, RoundStops (raised_run cfg Fenced a2)))"

section \<open>The loop\<close>

text \<open>\<open>None\<close> is a loop that asks for a round more than the script has.\<close>

fun agent_loop :: "loop_config \<Rightarrow> accountant \<Rightarrow> 'p round_input list \<Rightarrow> 'p agent_run option" where
  "agent_loop cfg a is =
     (if \<not> may_start_round (lc_budget cfg) (length (ac_rounds a))
      then Some (exhausted_run cfg RoundsExhausted a)
      else case is of
        [] \<Rightarrow> None
      | i # is' \<Rightarrow>
          (case loop_round cfg i a of
             (a1, RoundStops r) \<Rightarrow> Some r
           | (a1, RoundTalked) \<Rightarrow> agent_loop cfg a1 is'
           | (a1, RoundWorked) \<Rightarrow>
               let a2 = record_progress (ri_observation i) a1
               in if stalled_run (ac_no_progress a2) (lc_limits cfg) then Some (exhausted_run cfg NoProgress a2)
                  else agent_loop cfg a2 is'))"

declare agent_loop.simps [simp del]

definition loop_start ::
  "loop_limits \<Rightarrow> int option \<Rightarrow> progress_clock \<Rightarrow> datetime \<Rightarrow> (loop_exit \<Rightarrow> string) \<Rightarrow> loop_config" where
  "loop_start l d pc now marker =
     \<lparr>lc_limits = l, lc_budget = loop_budget_of (ll_max_rounds l) d pc now, lc_marker = marker\<rparr>"

definition run_agent_loop ::
  "loop_limits \<Rightarrow> int option \<Rightarrow> progress_clock \<Rightarrow> datetime \<Rightarrow> (loop_exit \<Rightarrow> string) \<Rightarrow> 'p round_input list
     \<Rightarrow> 'p agent_run option"
where
  "run_agent_loop l deadline_s pc now marker is =
     agent_loop (loop_start l deadline_s pc now marker) new_accountant is"

section \<open>What a round does to the counts\<close>

text \<open>The accountant numbers its rounds and its calls from one; a call belongs to a round that was had; and
  what it counts as provider attempts are the attempts of its rounds.\<close>

definition counts_wf :: "accountant \<Rightarrow> bool" where
  "counts_wf a \<longleftrightarrow> map rr_index (ac_rounds a) = [1..<length (ac_rounds a) + 1]
     \<and> map tc_call (ac_calls a) = [1..<length (ac_calls a) + 1]
     \<and> (\<forall>c \<in> set (ac_calls a). 1 \<le> tc_round c \<and> tc_round c \<le> length (ac_rounds a)
          \<and> (tc_malformed c \<longrightarrow> \<not> tc_accepted c))
     \<and> sorted (map tc_round (ac_calls a))
     \<and> ac_provider_attempts a = sum_list (map rr_provider_attempts (ac_rounds a))
     \<and> ac_plaintext a \<le> length (filter (\<lambda>r. \<not> rr_had_tool_calls r) (ac_rounds a))
     \<and> ac_progress a + ac_no_progress a \<le> length (filter rr_had_tool_calls (ac_rounds a))"

definition calls_added :: "nat \<Rightarrow> accountant \<Rightarrow> accountant \<Rightarrow> bool" where
  "calls_added n a a' \<longleftrightarrow>
     (\<exists>new. a' = a\<lparr>ac_calls := ac_calls a @ new\<rparr>
        \<and> map tc_call new = [length (ac_calls a) + 1..<length (ac_calls a) + length new + 1]
        \<and> (\<forall>c \<in> set new. tc_round c = n \<and> (tc_malformed c \<longrightarrow> \<not> tc_accepted c)))"

lemma calls_added_refl: "calls_added n a a"
  by (auto simp: calls_added_def intro: exI [of _ "[]"])

lemma calls_added_trans:
  assumes "calls_added n a a'" "calls_added n a' a''"
  shows "calls_added n a a''"
proof -
  obtain new where new: "a' = a\<lparr>ac_calls := ac_calls a @ new\<rparr>"
      "map tc_call new = [length (ac_calls a) + 1..<length (ac_calls a) + length new + 1]"
      "\<forall>c \<in> set new. tc_round c = n \<and> (tc_malformed c \<longrightarrow> \<not> tc_accepted c)"
    using assms(1) by (auto simp: calls_added_def)
  obtain more where more: "a'' = a'\<lparr>ac_calls := ac_calls a' @ more\<rparr>"
      "map tc_call more = [length (ac_calls a') + 1..<length (ac_calls a') + length more + 1]"
      "\<forall>c \<in> set more. tc_round c = n \<and> (tc_malformed c \<longrightarrow> \<not> tc_accepted c)"
    using assms(2) by (auto simp: calls_added_def)
  have "map tc_call (new @ more) = [length (ac_calls a) + 1..<length (ac_calls a) + length (new @ more) + 1]"
    using new(1,2) more(2)
      upt_add_eq_append [of "length (ac_calls a) + 1" "length (ac_calls a) + length new + 1" "length more"]
    by (simp add: ac_simps del: upt_Suc)
  moreover have "a'' = a\<lparr>ac_calls := ac_calls a @ (new @ more)\<rparr>" using new(1) more(1) by simp
  ultimately show ?thesis
    unfolding calls_added_def using new(3) more(3) by (intro exI [of _ "new @ more"]) auto
qed

lemma record_call_added: "calls_added n a (record_call n c accepted a)"
  by (auto simp: calls_added_def record_call_def)

lemma run_call_added: "calls_added n a (fst (run_call n c a))"
  by (simp add: run_call_def Let_def calls_added_refl record_call_added split: tool_answer.split)

lemma run_calls_added: "calls_added n a (fst (run_calls b n cs a))"
proof (induction cs arbitrary: a)
  case (Cons c cs)
  obtain a1 e where run: "run_call n c a = (a1, e)" by (cases "run_call n c a")
  then have "calls_added n a a1" using run_call_added [of n a c] by simp
  then have "calls_added n a (fst (run_calls b n cs a1))" using Cons.IH calls_added_trans by blast
  with \<open>calls_added n a a1\<close> show ?case by (simp add: run calls_added_refl split: call_end.split)
qed (simp add: calls_added_refl)

lemma calls_added_wf:
  assumes "calls_added (length (ac_rounds a)) a a'" "counts_wf a" "ac_rounds a \<noteq> []"
  shows "counts_wf a'"
proof -
  obtain new where new: "a' = a\<lparr>ac_calls := ac_calls a @ new\<rparr>"
      "map tc_call new = [length (ac_calls a) + 1..<length (ac_calls a) + length new + 1]"
      "\<forall>c \<in> set new. tc_round c = length (ac_rounds a) \<and> (tc_malformed c \<longrightarrow> \<not> tc_accepted c)"
    using assms(1) by (auto simp: calls_added_def)
  have numbered: "map tc_call (ac_calls a @ new) = [1..<length (ac_calls a @ new) + 1]"
    using new(2) assms(2) upt_add_eq_append [of 1 "length (ac_calls a) + 1" "length new"]
    by (simp add: counts_wf_def ac_simps del: upt_Suc)
  have "map tc_round new = replicate (length new) (length (ac_rounds a))"
    using new(3) by (intro replicate_eqI) auto
  then have "sorted (map tc_round (ac_calls a @ new))"
    using assms(2) by (auto simp: counts_wf_def sorted_append)
  moreover have "1 \<le> length (ac_rounds a)" using assms(3) by (cases "ac_rounds a") auto
  ultimately show ?thesis
    using numbered assms(2) new(3) by (auto simp: counts_wf_def new(1))
qed

lemma record_round_wf:
  "counts_wf a \<Longrightarrow> counts_wf (record_round l n marker calls a)"
  by (auto simp: counts_wf_def record_round_def)

section \<open>What a run leaves\<close>

text \<open>
  A run that ended has one record, of how it ended; a tool or a close-out that raised has one of its own
  failure; nothing else has any, and only a superseded run leaves a breadcrumb. A record's counts are true
  and it says the terminal action was done only of a run that ended in it.
\<close>

definition told_once :: "'p agent_run \<Rightarrow> bool" where
  "told_once r =
     (case ar_end r of
        LoopEnded e mk p \<Rightarrow>
          ar_breadcrumbs r = 0
          \<and> (case ar_records r of
               [(e', mk', a)] \<Rightarrow> e' = e \<and> mk' = mk \<and> counts_wf a \<and> (ac_terminal a \<longrightarrow> e = TerminalAction \<and> p \<noteq> None)
             | _ \<Rightarrow> False)
      | LoopRaised why \<Rightarrow>
          ar_breadcrumbs r = (if why = Superseded then 1 else 0)
          \<and> (case ar_records r of
               [] \<Rightarrow> why \<noteq> ToolFailure
             | [(e', mk', a)] \<Rightarrow> why = ToolFailure \<and> e' = ExecutorFailed \<and> counts_wf a \<and> \<not> ac_terminal a
             | _ \<Rightarrow> False))"

definition records_within :: "nat \<Rightarrow> 'p agent_run \<Rightarrow> bool" where
  "records_within n r \<longleftrightarrow> (\<forall>(e, mk, a) \<in> set (ar_records r). length (ac_rounds a) \<le> n)"

lemmas run_defs = finish_run_def exhausted_run_def raised_run_def

lemma told_finish:
  "counts_wf a \<Longrightarrow> \<not> ac_terminal a \<Longrightarrow> told_once (finish_run e mk p a)"
  "counts_wf a \<Longrightarrow> told_once (finish_run TerminalAction mk (Some v) a)"
  "counts_wf a \<Longrightarrow> \<not> ac_terminal a \<Longrightarrow> told_once (exhausted_run cfg e a)"
  "counts_wf a \<Longrightarrow> \<not> ac_terminal a \<Longrightarrow> told_once (raised_run cfg why a)"
  by (simp_all add: told_once_def run_defs)

lemma within_finish:
  "records_within n (finish_run e mk p a) = (length (ac_rounds a) \<le> n)"
  "records_within n (exhausted_run cfg e a) = (length (ac_rounds a) \<le> n)"
  "length (ac_rounds a) \<le> n \<Longrightarrow> records_within n (raised_run cfg why a)"
  by (simp_all add: records_within_def run_defs)

lemma not_stalled_finish:
  "ar_end (finish_run e mk p a) = LoopEnded e mk p"
  "ar_end (exhausted_run cfg e a) = LoopEnded e (lc_marker cfg e) None"
  "ar_end (raised_run cfg why a) = LoopRaised why"
  by (simp_all add: run_defs)

text \<open>A round stops the run, or it is one more round in the counts: one of plain text, or one that worked.\<close>

definition had_round :: "bool \<Rightarrow> accountant \<Rightarrow> accountant \<Rightarrow> bool" where
  "had_round worked a a' \<longleftrightarrow>
     counts_wf a' \<and> \<not> ac_terminal a' \<and> length (ac_rounds a') = length (ac_rounds a) + 1
     \<and> length (filter rr_had_tool_calls (ac_rounds a')) =
         length (filter rr_had_tool_calls (ac_rounds a)) + (if worked then 1 else 0)
     \<and> (ac_progress a', ac_no_progress a', ac_signature a') = (ac_progress a, ac_no_progress a, ac_signature a)"

lemma had_round_recorded:
  "counts_wf a \<Longrightarrow> \<not> ac_terminal a \<Longrightarrow> had_round calls a (record_round l n marker calls a)"
  by (simp add: had_round_def record_round_wf) (simp add: record_round_def)

lemma had_round_calls:
  assumes "had_round True a a1" "calls_added (length (ac_rounds a1)) a1 a2"
  shows "had_round True a a2"
proof -
  have "ac_rounds a1 \<noteq> []" "counts_wf a1" using assms(1) by (auto simp: had_round_def)
  then have "counts_wf a2" by (intro calls_added_wf [OF assms(2)])
  with assms show ?thesis by (auto simp: had_round_def calls_added_def)
qed

lemma terminal_wf: "counts_wf (a\<lparr>ac_terminal := True\<rparr>) = counts_wf a"
  by (simp add: counts_wf_def)

text \<open>What stops a round: with what it recorded, and never for want of progress unless the policy says so.\<close>

definition round_stop_ok :: "'p round_input \<Rightarrow> nat \<Rightarrow> 'p agent_run \<Rightarrow> bool" where
  "round_stop_ok i n r \<longleftrightarrow> told_once r \<and> records_within n r
     \<and> (\<forall>mk p. ar_end r = LoopEnded NoProgress mk p \<longrightarrow> ri_plain_exit i = NoProgress)"

lemma stop_finish:
  assumes "counts_wf a" "length (ac_rounds a) \<le> n"
  shows "\<not> ac_terminal a \<Longrightarrow> e \<noteq> NoProgress \<or> e = ri_plain_exit i \<Longrightarrow> round_stop_ok i n (finish_run e mk p a)"
    and "round_stop_ok i n (finish_run TerminalAction mk (Some v) (a\<lparr>ac_terminal := True\<rparr>))"
    and "\<not> ac_terminal a \<Longrightarrow> e \<noteq> NoProgress \<Longrightarrow> round_stop_ok i n (exhausted_run cfg e a)"
    and "\<not> ac_terminal a \<Longrightarrow> round_stop_ok i n (raised_run cfg why a)"
  using assms
  by (auto simp: round_stop_ok_def told_finish within_finish not_stalled_finish terminal_wf)

lemma close_round_spec:
  assumes "had_round True a a2" "close_round cfg i a2 = (a', e)"
  shows "case e of RoundStops r \<Rightarrow> round_stop_ok i (length (ac_rounds a) + 1) r
           | RoundTalked \<Rightarrow> False | RoundWorked \<Rightarrow> had_round True a a'"
  using assms
  by (auto simp: close_round_def Let_def had_round_def intro!: stop_finish split: close_out.splits if_splits)

definition answer_stop :: "bool \<Rightarrow> string \<Rightarrow> 'p round_input \<Rightarrow> loop_config \<Rightarrow> accountant \<Rightarrow> 'p round_end" where
  "answer_stop published marker i cfg a =
     (if \<not> published then RoundStops (raised_run cfg Fenced a)
      else if marker \<noteq> [] then RoundStops (finish_run ProviderFailed marker None a)
      else if ri_plain_complete i then RoundStops (finish_run (ri_plain_exit i) [] (ri_plain_payload i) a)
      else RoundTalked)"

lemma answer_stop_spec:
  assumes "had_round calls a a1"
  shows "case answer_stop published marker i cfg a1 of RoundStops r \<Rightarrow> round_stop_ok i (length (ac_rounds a) + 1) r
           | RoundTalked \<Rightarrow> published \<and> marker = [] | RoundWorked \<Rightarrow> False"
proof -
  have "counts_wf a1" "length (ac_rounds a1) \<le> length (ac_rounds a) + 1" "\<not> ac_terminal a1"
    using assms by (simp_all add: had_round_def)
  then show ?thesis by (auto simp: answer_stop_def intro: stop_finish)
qed

lemma loop_round_spec:
  assumes "counts_wf a" "\<not> ac_terminal a" "loop_round cfg i a = (a', e)"
  shows "case e of RoundStops r \<Rightarrow> round_stop_ok i (length (ac_rounds a) + 1) r
           | RoundTalked \<Rightarrow> had_round False a a' | RoundWorked \<Rightarrow> had_round True a a'"
proof (cases "expired_at (lc_budget cfg) (ri_moment i)")
  case True
  then show ?thesis using assms by (auto simp: loop_round_def intro!: stop_finish)
next
  case live: False
  show ?thesis
  proof (cases "ri_reply i")
    case (Reply attempts marker calls published)
    let ?a1 = "record_round (lc_limits cfg) attempts marker (calls \<noteq> []) a"
    have had: "had_round (calls \<noteq> []) a ?a1" using assms by (intro had_round_recorded)
    show ?thesis
    proof (cases "published \<and> marker = [] \<and> calls \<noteq> []")
      case False
      then have "(a', e) = (?a1, answer_stop published marker i cfg ?a1)"
        using assms(3) live Reply by (auto simp: loop_round_def answer_stop_def Let_def)
      then have e: "e = answer_stop published marker i cfg ?a1" "a' = ?a1" by simp_all
      note spec = answer_stop_spec [OF had, where published = published and marker = marker and i = i and cfg = cfg,
          folded e(1)]
      show ?thesis
      proof (cases e)
        case RoundTalked
        then have "calls = []" using spec False by auto
        then show ?thesis using had e(2) RoundTalked by simp
      qed (use spec in simp_all)
    next
      case True
      obtain a2 ce where run: "run_calls (lc_budget cfg) (length (ac_rounds ?a1)) calls ?a1 = (a2, ce)"
        by fastforce
      have had2: "had_round True a a2"
      proof (rule had_round_calls)
        show "had_round True a ?a1" using had True by simp
        show "calls_added (length (ac_rounds ?a1)) ?a1 a2"
          using run_calls_added [of "length (ac_rounds ?a1)" ?a1 "lc_budget cfg" calls] by (simp only: run fst_conv)
      qed
      have "counts_wf a2" "length (ac_rounds a2) \<le> length (ac_rounds a) + 1" "\<not> ac_terminal a2"
        using had2 by (simp_all add: had_round_def)
      note stops = stop_finish(1,2) [where i = i, OF this(1,2)] stop_finish(3,4) [where i = i, OF this(1,2)] this(3)
      have round: "loop_round cfg i a = (case (a2, ce) of
          (a2, CallGoesOn) \<Rightarrow> close_round cfg i a2
        | (a2, CallTerminal p) \<Rightarrow>
            let a3 = a2\<lparr>ac_terminal := True\<rparr> in (a3, RoundStops (finish_run TerminalAction [] (Some p) a3))
        | (a2, CallEndsLoop) \<Rightarrow> (a2, RoundStops (finish_run PolicyAbort [] None a2))
        | (a2, CallTimedOut) \<Rightarrow> (a2, RoundStops (exhausted_run cfg DeadlineExhausted a2))
        | (a2, CallSuperseded) \<Rightarrow> (a2, RoundStops (raised_run cfg Superseded a2))
        | (a2, CallCancelled) \<Rightarrow> (a2, RoundStops (raised_run cfg Cancelled a2))
        | (a2, CallFailed) \<Rightarrow> (a2, RoundStops (raised_run cfg ToolFailure a2))
        | (a2, CallFenced) \<Rightarrow> (a2, RoundStops (raised_run cfg Fenced a2)))"
        using live Reply True run by (simp add: loop_round_def Let_def)
      show ?thesis
      proof (cases ce)
        case CallGoesOn
        then have "close_round cfg i a2 = (a', e)" using assms(3) round by simp
        from close_round_spec [OF had2 this] show ?thesis by (cases e) simp_all
      qed (use assms(3) round stops in \<open>auto simp: Let_def\<close>)
    qed
  qed (use assms live in \<open>auto simp: loop_round_def intro!: stop_finish\<close>)
qed

section \<open>The loop's invariant\<close>

definition at_loop_head :: "accountant \<Rightarrow> bool" where
  "at_loop_head a \<longleftrightarrow> counts_wf a \<and> \<not> ac_terminal a"

lemma new_accountant_head: "at_loop_head new_accountant"
  by (simp add: at_loop_head_def counts_wf_def new_accountant_def)

lemma advance_counts:
  "advance_progress ob (m, s, sig) = (m', s', sig') \<Longrightarrow> m' + s' \<le> m + s + 1"
  by (auto simp: advance_progress_def split: if_splits)

lemma worked_round_head:
  assumes "at_loop_head a" "had_round True a a1"
  shows "at_loop_head (record_progress ob a1)"
    and "ac_rounds (record_progress ob a1) = ac_rounds a1"
proof -
  obtain m s sig where adv: "advance_progress ob (ac_progress a1, ac_no_progress a1, ac_signature a1) = (m, s, sig)"
    by (cases "advance_progress ob (ac_progress a1, ac_no_progress a1, ac_signature a1)")
  then have rp: "record_progress ob a1 = a1\<lparr>ac_progress := m, ac_no_progress := s, ac_signature := sig\<rparr>"
    by (simp add: record_progress_def)
  have "m + s \<le> length (filter rr_had_tool_calls (ac_rounds a1))"
    using advance_counts [OF adv] assms by (simp add: at_loop_head_def had_round_def counts_wf_def)
  then show "at_loop_head (record_progress ob a1)"
    using assms(2) by (auto simp: rp at_loop_head_def had_round_def counts_wf_def simp del: upt_Suc)
  show "ac_rounds (record_progress ob a1) = ac_rounds a1" by (simp add: rp)
qed

lemma talked_round_head: "had_round False a a1 \<Longrightarrow> at_loop_head a1"
  by (simp add: at_loop_head_def had_round_def)

text \<open>The observations the loop asks for, one after each round that worked.\<close>

fun observed :: "loop_config \<Rightarrow> accountant \<Rightarrow> 'p round_input list \<Rightarrow> progress_observation list" where
  "observed cfg a is =
     (if \<not> may_start_round (lc_budget cfg) (length (ac_rounds a)) then []
      else case is of
        [] \<Rightarrow> []
      | i # is' \<Rightarrow>
          (case loop_round cfg i a of
             (a1, RoundStops r) \<Rightarrow> []
           | (a1, RoundTalked) \<Rightarrow> observed cfg a1 is'
           | (a1, RoundWorked) \<Rightarrow>
               let a2 = record_progress (ri_observation i) a1
               in ri_observation i # (if stalled_run (ac_no_progress a2) (lc_limits cfg) then [] else observed cfg a2 is')))"

declare observed.simps [simp del]

text \<open>The same run as a relation, with what each of its rounds left, for proofs by rule induction.\<close>

inductive loop_trace ::
  "loop_config \<Rightarrow> accountant \<Rightarrow> 'p round_input list \<Rightarrow> progress_observation list \<Rightarrow> 'p agent_run \<Rightarrow> bool"
  for cfg
where
  Spent: "at_loop_head a \<Longrightarrow> \<not> may_start_round (lc_budget cfg) (length (ac_rounds a)) \<Longrightarrow>
    loop_trace cfg a is [] (exhausted_run cfg RoundsExhausted a)"
| Stops: "at_loop_head a \<Longrightarrow> may_start_round (lc_budget cfg) (length (ac_rounds a)) \<Longrightarrow>
    round_stop_ok i (length (ac_rounds a) + 1) r \<Longrightarrow> loop_trace cfg a (i # is) [] r"
| Talked: "at_loop_head a \<Longrightarrow> may_start_round (lc_budget cfg) (length (ac_rounds a)) \<Longrightarrow> had_round False a a1 \<Longrightarrow>
    loop_trace cfg a1 is obs r \<Longrightarrow> loop_trace cfg a (i # is) obs r"
| Stalled: "at_loop_head a2 \<Longrightarrow> may_start_round (lc_budget cfg) (length (ac_rounds a)) \<Longrightarrow> had_round True a a1 \<Longrightarrow>
    a2 = record_progress (ri_observation i) a1 \<Longrightarrow> stalled_run (ac_no_progress a2) (lc_limits cfg) \<Longrightarrow>
    loop_trace cfg a (i # is) [ri_observation i] (exhausted_run cfg NoProgress a2)"
| Worked: "at_loop_head a2 \<Longrightarrow> may_start_round (lc_budget cfg) (length (ac_rounds a)) \<Longrightarrow> had_round True a a1 \<Longrightarrow>
    a2 = record_progress (ri_observation i) a1 \<Longrightarrow> \<not> stalled_run (ac_no_progress a2) (lc_limits cfg) \<Longrightarrow>
    loop_trace cfg a2 is obs r \<Longrightarrow> loop_trace cfg a (i # is) (ri_observation i # obs) r"

lemma agent_loop_trace:
  "at_loop_head a \<Longrightarrow> agent_loop cfg a is = Some r \<Longrightarrow> loop_trace cfg a is (observed cfg a is) r"
proof (induction cfg a "is" rule: agent_loop.induct)
  case (1 cfg a "is")
  note head = \<open>at_loop_head a\<close> [unfolded at_loop_head_def]
  note unfolds = agent_loop.simps [of cfg a] observed.simps [of cfg a]
  show ?case
  proof (cases "may_start_round (lc_budget cfg) (length (ac_rounds a))")
    case False
    then show ?thesis using "1.prems" by (auto simp: unfolds intro: loop_trace.Spent)
  next
    case True
    then obtain i is' where is_: "is = i # is'"
      using "1.prems" by (cases "is") (simp_all add: agent_loop.simps)
    obtain a1 e where round: "loop_round cfg i a = (a1, e)" by fastforce
    note spec = loop_round_spec [OF head [THEN conjunct1] head [THEN conjunct2] round]
    show ?thesis
    proof (cases e)
      case (RoundStops r')
      then show ?thesis
        using "1.prems" True spec by (auto simp: is_ round unfolds intro: loop_trace.Stops)
    next
      case RoundTalked
      then have "at_loop_head a1" "agent_loop cfg a1 is' = Some r" "observed cfg a is = observed cfg a1 is'"
        using "1.prems" True spec talked_round_head by (simp_all add: is_ round unfolds)
      moreover from this have "loop_trace cfg a1 is' (observed cfg a1 is') r"
        using "1.IH"(1) True RoundTalked is_ round by simp
      ultimately show ?thesis
        using "1.prems"(1) True spec RoundTalked by (simp add: is_ loop_trace.Talked)
    next
      case RoundWorked
      let ?a2 = "record_progress (ri_observation i) a1"
      have a2: "at_loop_head ?a2" using worked_round_head "1.prems"(1) spec RoundWorked by simp
      show ?thesis
      proof (cases "stalled_run (ac_no_progress ?a2) (lc_limits cfg)")
        case stuck: True
        then have "r = exhausted_run cfg NoProgress ?a2" "observed cfg a is = [ri_observation i]"
          using "1.prems" True RoundWorked by (simp_all add: is_ round unfolds Let_def)
        then show ?thesis using a2 True spec RoundWorked stuck by (simp add: is_ loop_trace.Stalled)
      next
        case going: False
        then have "agent_loop cfg ?a2 is' = Some r" "observed cfg a is = ri_observation i # observed cfg ?a2 is'"
          using "1.prems" True RoundWorked by (simp_all add: is_ round unfolds Let_def)
        moreover from this have "loop_trace cfg ?a2 is' (observed cfg ?a2 is') r"
          using "1.IH"(2) True RoundWorked is_ round going a2 by simp
        ultimately show ?thesis using a2 True spec RoundWorked going by (simp add: is_ loop_trace.Worked)
      qed
    qed
  qed
qed

lemma trace_told: "loop_trace cfg a is obs r \<Longrightarrow> told_once r"
  by (induction rule: loop_trace.induct) (simp_all add: at_loop_head_def round_stop_ok_def told_finish)

lemma expired_round: "expired_at (lc_budget cfg) (ri_moment i) \<Longrightarrow>
    loop_round cfg i a = (a, RoundStops (exhausted_run cfg DeadlineExhausted a))"
  by (simp add: loop_round_def)

lemma agent_loop_bounded:
  assumes "at_loop_head a" "length (ac_rounds a) \<le> k" "k - length (ac_rounds a) \<le> length is"
    and "lb_max_rounds (lc_budget cfg) = Some k
      \<or> k - length (ac_rounds a) < length is
        \<and> expired_at (lc_budget cfg) (ri_moment (is ! (k - length (ac_rounds a))))"
  shows "\<exists>r. agent_loop cfg a is = Some r \<and> records_within k r"
  using assms
proof (induction "is" arbitrary: a)
  case Nil
  then have "\<not> may_start_round (lc_budget cfg) (length (ac_rounds a))" by (auto simp: may_start_round_def)
  then show ?case using Nil.prems(2) by (auto simp: agent_loop.simps within_finish)
next
  case (Cons i is')
  let ?n = "length (ac_rounds a)"
  note unfold = agent_loop.simps [of cfg a]
  note head = \<open>at_loop_head a\<close> [unfolded at_loop_head_def]
  consider "\<not> may_start_round (lc_budget cfg) ?n" | "may_start_round (lc_budget cfg) ?n" "?n = k"
    | "may_start_round (lc_budget cfg) ?n" "?n < k"
    using Cons.prems(2) by fastforce
  then show ?case
  proof cases
    case 1
    then show ?thesis using Cons.prems(2) by (auto simp: unfold within_finish)
  next
    case 2
    then have "expired_at (lc_budget cfg) (ri_moment i)" using Cons.prems(4) by (auto simp: may_start_round_def)
    then show ?thesis using 2 by (simp add: unfold expired_round within_finish)
  next
    case 3
    obtain a1 e where round: "loop_round cfg i a = (a1, e)" by fastforce
    note spec = loop_round_spec [OF head [THEN conjunct1] head [THEN conjunct2] round]
    have later: "\<exists>r. agent_loop cfg a' is' = Some r \<and> records_within k r"
      if "at_loop_head a'" "length (ac_rounds a') = ?n + 1" for a'
    proof (rule Cons.IH [OF that(1)])
      show "length (ac_rounds a') \<le> k" "k - length (ac_rounds a') \<le> length is'"
        using 3(2) that(2) Cons.prems(3) by auto
      have "k - ?n = Suc (k - length (ac_rounds a'))" using 3(2) that(2) by simp
      with Cons.prems(4) show "lb_max_rounds (lc_budget cfg) = Some k
          \<or> k - length (ac_rounds a') < length is'
            \<and> expired_at (lc_budget cfg) (ri_moment (is' ! (k - length (ac_rounds a'))))"
        by simp
    qed
    show ?thesis
    proof (cases e)
      case (RoundStops r)
      then have "records_within (?n + 1) r" using spec by (simp add: round_stop_ok_def)
      then have "records_within k r" using 3(2) by (auto simp: records_within_def)
      then show ?thesis using 3(1) RoundStops by (simp add: unfold round)
    next
      case RoundTalked
      then show ?thesis
        using 3(1) spec later [of a1] talked_round_head by (simp add: unfold round had_round_def)
    next
      case RoundWorked
      let ?a2 = "record_progress (ri_observation i) a1"
      have "at_loop_head ?a2" "length (ac_rounds ?a2) = ?n + 1"
        using worked_round_head [OF Cons.prems(1)] spec RoundWorked by (simp_all add: had_round_def)
      then show ?thesis
        using 3 RoundWorked later [of ?a2] by (auto simp: unfold round within_finish Let_def)
    qed
  qed
qed

lemma expired_start:
  "expired_at (lc_budget (loop_start l (Some d) pc now marker)) m
     = (model_time pc now + d \<le> model_time (mo_clock m) (mo_now m))"
  by (auto simp: expired_at_def loop_start_def loop_budget_of_def loop_expired_def loop_remaining_def)

text \<open>
  C20: no agent loop goes on for ever. A loop that may have \<open>k\<close> rounds returns within them, and one that
  was given \<open>d\<close> seconds of model time returns within its first \<open>k\<close> rounds once the clock at the head of the
  next one has spent them, whatever the provider, the tools and the agent's policy do: plain text,
  refused calls and rounds of no effect included.
\<close>

theorem agent_loop_returns:
  assumes "k \<le> length is"
    and "ll_max_rounds l = Some k
      \<or> k < length is \<and> (\<exists>d. deadline_s = Some d
          \<and> model_time pc now + d \<le> model_time (mo_clock (ri_moment (is ! k))) (mo_now (ri_moment (is ! k))))"
  shows "\<exists>r. run_agent_loop l deadline_s pc now marker is = Some r \<and> records_within k r"
proof -
  have "lb_max_rounds (lc_budget (loop_start l deadline_s pc now marker)) = ll_max_rounds l"
    by (simp add: loop_start_def loop_budget_of_def)
  moreover have "length (ac_rounds new_accountant) = 0" by (simp add: new_accountant_def)
  ultimately show ?thesis
    unfolding run_agent_loop_def using assms
    by (intro agent_loop_bounded new_accountant_head) (auto simp: expired_start)
qed

text \<open>
  C21: what an agent run leaves is the truth, once. A run that ended leaves one record, of the end it
  returned; a tool or a close-out that raised leaves one of its failure before the exception goes on; a
  superseded run leaves a breadcrumb and no record, and a cancelled or fenced one nothing. In every record
  the rounds and the calls are numbered without a gap, each call lies in a round that was had and is not
  accepted if its arguments did not parse, the provider's attempts are those of the rounds, and the
  terminal action is marked only in a run that ended in one, with its payload.
\<close>

theorem agent_run_told_once:
  assumes "run_agent_loop l deadline_s pc now marker is = Some r"
  shows "told_once r"
  using trace_told [OF agent_loop_trace [OF new_accountant_head assms [unfolded run_agent_loop_def]]] .

section \<open>Stopped for want of progress\<close>

lemma repetition_is_stall:
  assumes "obs = xs @ replicate n ob" "\<not> po_made_progress ob" "po_signature ob \<noteq> []" "0 < n"
  shows "n \<le> stall_length obs"
proof -
  have rev: "rev obs = replicate n ob @ rev xs" using assms(1) by simp
  have all: "\<forall>x \<in> set (replicate n ob). same_stall ob x" using assms(2,3) by (auto simp: same_stall_def)
  have "takeWhile (same_stall ob) (rev obs) = replicate n ob @ takeWhile (same_stall ob) (rev xs)"
    unfolding rev by (rule takeWhile_append2) (use all in blast)
  moreover obtain rest where "rev obs = ob # rest" using rev assms(4) by (cases n) auto
  ultimately show ?thesis using assms(2) by (simp add: stall_length_def)
qed

lemma trace_no_progress:
  assumes "loop_trace cfg a is obs r" "ll_no_progress_threshold (lc_limits cfg) = Some n"
    and "\<forall>i \<in> set is. ri_plain_exit i \<noteq> NoProgress"
    and "(ac_progress a, ac_no_progress a, ac_signature a) = progress_of before" "stall_length before < n"
  shows "(\<exists>mk p. ar_end r = LoopEnded NoProgress mk p) \<longleftrightarrow> n \<le> stall_length (before @ obs)"
  using assms
proof (induction arbitrary: before rule: loop_trace.induct)
  case (Spent a "is")
  then show ?case by (simp add: not_stalled_finish)
next
  case (Stops a i r "is")
  then show ?case by (auto simp: round_stop_ok_def)
next
  case (Talked a a1 "is" obs r i)
  then show ?case by (simp add: had_round_def)
next
  case (Stalled a2 a a1 i "is")
  have "(ac_progress a2, ac_no_progress a2, ac_signature a2) = progress_of (before @ [ri_observation i])"
    using Stalled by (simp add: record_progress_def had_round_def progress_of_snoc split: prod.split)
  then have "ac_no_progress a2 = stall_length (before @ [ri_observation i])"
    using stall_length_spec [of "before @ [ri_observation i]"] by (metis fst_conv snd_conv)
  then show ?case using Stalled by (simp add: stalled_run_def not_stalled_finish)
next
  case (Worked a2 a a1 i "is" obs r)
  have state: "(ac_progress a2, ac_no_progress a2, ac_signature a2) = progress_of (before @ [ri_observation i])"
    using Worked by (simp add: record_progress_def had_round_def progress_of_snoc split: prod.split)
  then have "ac_no_progress a2 = stall_length (before @ [ri_observation i])"
    using stall_length_spec [of "before @ [ri_observation i]"] by (metis fst_conv snd_conv)
  then have "stall_length (before @ [ri_observation i]) < n" using Worked by (simp add: stalled_run_def)
  then show ?case using Worked.IH [OF Worked.prems(1) _ state] Worked.prems(2) by simp
qed

text \<open>
  C30: a loop is stopped for want of progress exactly when it is stuck. With a threshold of \<open>n\<close>, two at
  least, the run ends for want of progress exactly when the last \<open>n\<close> observations of its policy are one
  and the same, of no progress and with a signature: a round that moved its work, one that failed in
  another way, or one without a signature begins the count again, and rounds of plain text do not.
\<close>

theorem stopped_when_stuck:
  assumes "run_agent_loop l deadline_s pc now marker is = Some r"
    and "ll_no_progress_threshold l = Some n" "2 \<le> n" "\<forall>i \<in> set is. ri_plain_exit i \<noteq> NoProgress"
  shows "(\<exists>mk p. ar_end r = LoopEnded NoProgress mk p) \<longleftrightarrow>
    (\<exists>xs ob. observed (loop_start l deadline_s pc now marker) new_accountant is = xs @ replicate n ob
       \<and> \<not> po_made_progress ob \<and> po_signature ob \<noteq> [])"
proof -
  let ?obs = "observed (loop_start l deadline_s pc now marker) new_accountant is"
  have "loop_trace (loop_start l deadline_s pc now marker) new_accountant is ?obs r"
    using agent_loop_trace [OF new_accountant_head assms(1) [unfolded run_agent_loop_def]] .
  moreover have "(ac_progress new_accountant, ac_no_progress new_accountant, ac_signature new_accountant) = progress_of []"
    by (simp add: new_accountant_def progress_of_def)
  moreover have "ll_no_progress_threshold (lc_limits (loop_start l deadline_s pc now marker)) = Some n"
    using assms(2) by (simp add: loop_start_def)
  moreover have "stall_length [] < n" using assms(3) by (simp add: stall_length_def)
  ultimately have "(\<exists>mk p. ar_end r = LoopEnded NoProgress mk p) \<longleftrightarrow> n \<le> stall_length ([] @ ?obs)"
    using assms(4) by (intro trace_no_progress)
  then show ?thesis using stall_is_repetition [OF assms(3)] repetition_is_stall assms(3) by auto
qed

section \<open>Runs to evaluate\<close>

definition demo_limits :: loop_limits where
  "demo_limits = \<lparr>ll_max_rounds = Some 3, ll_warn_at_remaining_rounds = Some 2,
     ll_closing_at_remaining_rounds = Some 1, ll_no_progress_threshold = Some 2\<rparr>"

definition demo_reply :: "int \<Rightarrow> string provider_reply \<Rightarrow> string round_input" where
  "demo_reply now reply = \<lparr>ri_moment = \<lparr>mo_clock = progress_reset, mo_now = now\<rparr>, ri_reply = reply,
     ri_plain_complete = False, ri_plain_exit = TurnComplete, ri_plain_payload = None, ri_close = NothingToClose,
     ri_observation = \<lparr>po_made_progress = False, po_signature = ''same_gate''\<rparr>\<rparr>"

definition demo_call :: "string tool_answer \<Rightarrow> string tool_call" where
  "demo_call answer = \<lparr>cl_category = ''mesh'', cl_malformed = False,
     cl_moment = \<lparr>mo_clock = progress_reset, mo_now = 1\<rparr>, cl_trace = Published, cl_answer = answer\<rparr>"

definition demo_refused :: "string tool_answer" where
  "demo_refused = ToolReturned \<lparr>to_accepted = False, to_terminal = False, to_ends_loop = False, to_payload = []\<rparr>"

definition demo_talk :: "string round_input" where
  "demo_talk = demo_reply 1 (Reply 1 [] [] True)"

definition demo_work :: "string tool_answer \<Rightarrow> string round_input" where
  "demo_work answer = demo_reply 2 (Reply 2 [] [demo_call answer] True)"

abbreviation demo_loop :: "string round_input list \<Rightarrow> string agent_run option" where
  "demo_loop \<equiv> run_agent_loop demo_limits (Some 60) progress_reset 0 (\<lambda>_. [])"

theorem agent_loop_returns_witness:
  "\<exists>r. demo_loop [demo_talk, demo_talk, demo_talk] = Some r \<and> records_within 3 r"
  by (rule agent_loop_returns) (simp_all add: demo_limits_def)

theorem agent_run_told_once_witness:
  "\<exists>r. demo_loop [demo_talk, demo_work (ToolRaised False False)] = Some r
     \<and> ar_end r = LoopRaised ToolFailure \<and> told_once r"
proof -
  have "case demo_loop [demo_talk, demo_work (ToolRaised False False)] of
      None \<Rightarrow> False | Some r \<Rightarrow> (case ar_end r of LoopRaised why \<Rightarrow> why = ToolFailure | _ \<Rightarrow> False)"
    by code_simp
  then obtain r where "demo_loop [demo_talk, demo_work (ToolRaised False False)] = Some r"
    "ar_end r = LoopRaised ToolFailure"
    by (auto split: option.splits loop_end.splits)
  with agent_run_told_once [OF this(1)] show ?thesis by blast
qed

theorem stopped_when_stuck_witness:
  "\<exists>r. demo_loop [demo_work demo_refused, demo_talk, demo_work demo_refused] = Some r
     \<and> (\<exists>mk p. ar_end r = LoopEnded NoProgress mk p)"
proof -
  let ?is = "[demo_work demo_refused, demo_talk, demo_work demo_refused]"
  let ?ob = "\<lparr>po_made_progress = False, po_signature = ''same_gate''\<rparr>"
  have "demo_loop ?is \<noteq> None" by code_simp
  then obtain r where r: "demo_loop ?is = Some r" by blast
  have "observed (loop_start demo_limits (Some 60) progress_reset 0 (\<lambda>_. [])) new_accountant ?is = [?ob, ?ob]"
    by code_simp
  then have "observed (loop_start demo_limits (Some 60) progress_reset 0 (\<lambda>_. [])) new_accountant ?is
      = [] @ replicate 2 ?ob" by (simp add: numeral_2_eq_2)
  moreover have "\<not> po_made_progress ?ob \<and> po_signature ?ob \<noteq> []" by simp
  ultimately have stuck: "\<exists>xs ob. observed (loop_start demo_limits (Some 60) progress_reset 0 (\<lambda>_. [])) new_accountant ?is
      = xs @ replicate 2 ob \<and> \<not> po_made_progress ob \<and> po_signature ob \<noteq> []" by blast
  have plain: "\<forall>i \<in> set ?is. ri_plain_exit i \<noteq> NoProgress"
    by (simp add: demo_work_def demo_talk_def demo_reply_def)
  have "ll_no_progress_threshold demo_limits = Some 2" by (simp add: demo_limits_def)
  from stopped_when_stuck [OF r this _ plain] stuck r show ?thesis by simp
qed

end
