(* ===== verification/FailureCause.thy ===== *)
theory FailureCause
  imports Prelude
begin

text \<open>
  What stopped a mesh attempt (\<open>contracts/failure_cause.py\<close>): the causes, the classes they belong
  to, the facts a failed gate hands over, and which causes another attempt can change. The
  sentences said to the user are not modelled.

  A cause travels in the run's state as its string, so \<open>as_cause\<close> is the parser the code uses.
  The facts are a JSON object; \<open>facts\<close> has a field for every key a decision reads, and
  \<open>other_facts\<close> for the keys that are only worded. Numbers are rationals: the code compares and
  divides them, and never depends on their rounding.
\<close>

datatype FailureCause =
    CONTRACT_MISMATCH | PATCH_NOT_CAPTURED | BOUNDARY_TYPE | MESH_QUALITY | UNDER_RESOLVED
  | CELL_BUDGET | DOMAIN_EXTENT | NOT_SOLVABLE | REGION_SPLIT | ENGINE_CRASHED | NOT_BUILT
  | ENGINE_TIMED_OUT | RUN_INFRASTRUCTURE | GEOMETRY_REJECTED | REVIEW_INCOMPLETE

fun cause_value :: "FailureCause \<Rightarrow> string" where
  "cause_value CONTRACT_MISMATCH = ''contract_mismatch''"
| "cause_value PATCH_NOT_CAPTURED = ''patch_not_captured''"
| "cause_value BOUNDARY_TYPE = ''boundary_type''"
| "cause_value MESH_QUALITY = ''mesh_quality''"
| "cause_value UNDER_RESOLVED = ''under_resolved''"
| "cause_value CELL_BUDGET = ''cell_budget''"
| "cause_value DOMAIN_EXTENT = ''domain_extent''"
| "cause_value NOT_SOLVABLE = ''not_solvable''"
| "cause_value REGION_SPLIT = ''region_split''"
| "cause_value ENGINE_CRASHED = ''engine_crashed''"
| "cause_value NOT_BUILT = ''not_built''"
| "cause_value ENGINE_TIMED_OUT = ''engine_timed_out''"
| "cause_value RUN_INFRASTRUCTURE = ''run_infrastructure''"
| "cause_value GEOMETRY_REJECTED = ''geometry_rejected''"
| "cause_value REVIEW_INCOMPLETE = ''review_incomplete''"

definition all_causes :: "FailureCause list" where
  "all_causes = [CONTRACT_MISMATCH, PATCH_NOT_CAPTURED, BOUNDARY_TYPE, MESH_QUALITY,
     UNDER_RESOLVED, CELL_BUDGET, DOMAIN_EXTENT, NOT_SOLVABLE, REGION_SPLIT, ENGINE_CRASHED,
     NOT_BUILT, ENGINE_TIMED_OUT, RUN_INFRASTRUCTURE, GEOMETRY_REJECTED, REVIEW_INCOMPLETE]"

definition as_cause :: "string \<Rightarrow> FailureCause option" where
  "as_cause s = find (\<lambda>c. cause_value c = s) all_causes"

lemma as_cause_value [simp]: "as_cause (cause_value c) = Some c"
  by (cases c) (simp_all add: as_cause_def all_causes_def)

lemma cause_value_inj [simp]: "cause_value c = cause_value d \<longleftrightarrow> c = d"
  by (metis as_cause_value option.inject)

lemma as_cause_Some: "as_cause s = Some c \<longleftrightarrow> s = cause_value c"
proof
  assume "as_cause s = Some c"
  then show "s = cause_value c" by (auto simp: as_cause_def find_Some_iff)
qed simp

lemma as_cause_empty [simp]: "as_cause [] = None"
  by (simp add: as_cause_def all_causes_def)

text \<open>From here on a cause's string is compared with another cause's by injectivity.\<close>

declare cause_value.simps [simp del]

section \<open>The facts\<close>

record facts =
  retry_may_fix :: bool
  rebuild_cells :: "rat option"
  cell_limit :: "rat option"
  deterministic :: bool
  ladder_exhausted :: bool
  fatal_defects :: "string list"
  over_size_by_rule :: bool
  guard_fact :: "string option"
  meshers_started :: "int option"
  before_meshing :: bool
  refused_by_design_fact :: bool
  cells_across :: "rat option"
  needed :: "rat option"
  cells_fact :: "rat option"
  ours :: bool
  other_facts :: json_obj

definition no_facts :: facts where
  "no_facts = \<lparr>retry_may_fix = False, rebuild_cells = None, cell_limit = None,
     deterministic = False, ladder_exhausted = False, fatal_defects = [],
     over_size_by_rule = False, guard_fact = None, meshers_started = None,
     before_meshing = False, refused_by_design_fact = False, cells_across = None,
     needed = None, cells_fact = None, ours = False, other_facts = []\<rparr>"

section \<open>Which failures another attempt can change\<close>

definition rebuild_over_limit :: "facts \<Rightarrow> bool" where
  "rebuild_over_limit f =
     (case (rebuild_cells f, cell_limit f) of
        (Some need, Some limit) \<Rightarrow> 0 < limit \<and> limit < need
      | _ \<Rightarrow> False)"

fun NOT_RETRYABLE :: "FailureCause \<Rightarrow> bool" where
  "NOT_RETRYABLE CONTRACT_MISMATCH = True"
| "NOT_RETRYABLE GEOMETRY_REJECTED = True"
| "NOT_RETRYABLE _ = False"

definition retry_can_help :: "string \<Rightarrow> facts \<Rightarrow> bool" where
  "retry_can_help cause f =
     (case as_cause cause of
        None \<Rightarrow> True
      | Some c \<Rightarrow>
          if c = CONTRACT_MISMATCH \<and> retry_may_fix f then True
          else if c = UNDER_RESOLVED \<and> rebuild_over_limit f then False
          else if deterministic f \<and> ladder_exhausted f then False
          else if c = NOT_BUILT then \<not> deterministic f
          else \<not> NOT_RETRYABLE c)"

section \<open>The classes\<close>

datatype StopClass =
    REFUSED_BY_DESIGN | MESHER_CRASHED | OUT_OF_BUDGET | CHECK_FAILED | REVIEW_REBUILD
  | INFRASTRUCTURE

fun STOP_CLASS :: "FailureCause \<Rightarrow> StopClass" where
  "STOP_CLASS GEOMETRY_REJECTED = REFUSED_BY_DESIGN"
| "STOP_CLASS NOT_BUILT = REFUSED_BY_DESIGN"
| "STOP_CLASS ENGINE_CRASHED = MESHER_CRASHED"
| "STOP_CLASS ENGINE_TIMED_OUT = OUT_OF_BUDGET"
| "STOP_CLASS CELL_BUDGET = OUT_OF_BUDGET"
| "STOP_CLASS RUN_INFRASTRUCTURE = INFRASTRUCTURE"
| "STOP_CLASS REVIEW_INCOMPLETE = INFRASTRUCTURE"
| "STOP_CLASS _ = CHECK_FAILED"

definition stop_class_of :: "string \<Rightarrow> bool \<Rightarrow> bool \<Rightarrow> StopClass option" where
  "stop_class_of cause review infrastructure =
     (if infrastructure then Some INFRASTRUCTURE
      else if review then Some REVIEW_REBUILD
      else map_option STOP_CLASS (as_cause cause))"

text \<open>The rejection sources that are not declared gates.\<close>

definition SEAM_CAUSES :: "string \<Rightarrow> FailureCause option" where
  "SEAM_CAUSES gate =
     (if gate = ''finalize'' then Some ENGINE_CRASHED
      else if gate = ''domain_extent'' then Some DOMAIN_EXTENT
      else if gate = ''solvability'' then Some NOT_SOLVABLE
      else if gate = ''geometry'' then Some GEOMETRY_REJECTED
      else None)"

text \<open>
  The retry policy. An unknown cause always keeps its retry. A retry is refused only for a
  cause whose next attempt meets the same inputs: a contract mismatch our own code wrote, a refused
  geometry, a deterministic build that stopped before its mesher or ran out of its own ladder, and a
  mesh whose cheapest rebuild is over the cell limit. No other fact about the run has a say, and a
  cause that is a failure on our side always keeps its retry unless a deterministic driver's ladder
  is spent.
\<close>

theorem retry_policy_spec:
  "(as_cause cause = None \<longrightarrow> retry_can_help cause f)
   \<and> (\<not> retry_can_help cause f \<longleftrightarrow>
        (\<exists>c. cause = cause_value c
           \<and> (c = CONTRACT_MISMATCH \<and> \<not> retry_may_fix f
              \<or> c = GEOMETRY_REJECTED
              \<or> c = UNDER_RESOLVED \<and> rebuild_over_limit f
              \<or> c = NOT_BUILT \<and> deterministic f
              \<or> deterministic f \<and> ladder_exhausted f \<and> \<not> (c = CONTRACT_MISMATCH \<and> retry_may_fix f))))
   \<and> (stop_class_of cause False False = Some INFRASTRUCTURE
        \<and> \<not> (deterministic f \<and> ladder_exhausted f) \<longrightarrow> retry_can_help cause f)"
proof (cases "as_cause cause")
  case None
  then have "cause \<noteq> cause_value c" for c by auto
  with None show ?thesis by (simp add: retry_can_help_def stop_class_of_def)
next
  case (Some c)
  then have c: "cause = cause_value c" by (simp add: as_cause_Some)
  show ?thesis unfolding c by (cases c) (auto simp: retry_can_help_def stop_class_of_def)
qed

theorem retry_policy_spec_witness:
  "\<not> retry_can_help ''under_resolved'' (no_facts\<lparr>rebuild_cells := Some 9000000, cell_limit := Some 8000000\<rparr>)"
proof -
  let ?f = "no_facts\<lparr>rebuild_cells := Some 9000000, cell_limit := Some 8000000\<rparr>"
  have "rebuild_over_limit ?f" by (simp add: rebuild_over_limit_def)
  with retry_policy_spec [of "''under_resolved''" ?f] show ?thesis
    by (metis cause_value.simps(5))
qed

end
