(* ===== verification/PipelineState.thy ===== *)
theory PipelineState
  imports FailureCause
begin

text \<open>
  The one state object the pipeline's nodes read and write (\<open>contracts/pipeline_state.py\<close>), with the
  fields a route or a node's decision reads, and the tunables they are compared with
  (\<open>agents/builder/settings.py\<close>, \<open>agents/reviewer/settings.py\<close>, \<open>settings/policy.py\<close>).

  A dictionary a field holds is a record of the keys that are read; an absent key is \<open>None\<close>, the
  empty string, or the value the code defaults it to. A recorded review finding, a requirement
  caveat and a ladder attempt are lists of such records. Counters are naturals: the code only ever
  adds one to them, or subtracts one and takes the maximum with zero. Texts nothing decides on
  (the narration, the brief, the planner's coaching) are left out.
\<close>

section \<open>What the fields hold\<close>

record finding =
  axis_key :: string
  f_passed :: "bool option"
  f_improve :: "bool option"
  f_blocking :: string

record gap_plan =
  plan_status :: string
  plan_budget :: "rat option"
  plan_limit :: "rat option"

record caveat =
  c_kind :: string
  c_cells_across :: "rat option"
  c_cells :: "rat option"
  c_cell_limit :: "rat option"
  c_plan :: "gap_plan option"
  c_facts :: "facts option"

record review_entry =
  h_attempt :: nat
  h_workspace :: string
  h_evidence_key :: string
  h_verdict :: string
  h_findings :: "finding list"
  h_caveats :: "caveat list"
  h_engine :: string

record sound_attempt =
  s_attempt :: nat
  s_workspace :: string
  s_engine :: string
  s_caveats :: "caveat list"

text \<open>The engine ladder's record (\<open>engine_ladder\<close>) and the resolution ladder's (\<open>resolution_ladder\<close>).
  An attempt that passed has no kind.\<close>

datatype ladder_kind = ENGINE | FIXABLE | NEVER | REVIEW

text \<open>Why the ladder stays or moves (the \<open>why\<close> of \<open>engine_fallback.decide\<close>'s answer).\<close>

datatype why =
    NotFailed | LadderOff | AnotherCannot | ReviewNeverMoves | NotOurs | NoUntriedEngine
  | NoRegularAttempt | LeversFirst | RetryFits | KindTakesOver | CameOutBroken | CouldNotBuild
  | SameFailureAgain | SharedAttempts

record ladder_attempt =
  a_attempt :: nat
  a_engine :: string
  a_kind :: "ladder_kind option"
  a_cause :: string
  a_built :: bool

record ladder_switch =
  w_attempt :: nat
  w_from :: string
  w_to :: string
  w_because :: string
  w_kind :: ladder_kind
  w_why :: why

record engine_ladder =
  l_approved :: "string option"
  l_source :: "string option"
  l_order :: "string list"
  l_passages :: "nat option"
  l_staged :: bool
  l_attempts :: "ladder_attempt list"
  l_switches :: "ladder_switch list"
  l_delivered_from :: "nat option"

definition no_ladder :: engine_ladder where
  "no_ladder = \<lparr>l_approved = None, l_source = None, l_order = [], l_passages = None,
     l_staged = False, l_attempts = [], l_switches = [], l_delivered_from = None\<rparr>"

record resolution_ladder =
  r_rung :: nat
  r_engine :: "string option"
  r_switched :: bool
  r_after_switch :: bool
  r_factor :: "rat option"
  r_measured :: "rat option"
  r_floor :: "rat option"

definition no_rungs :: resolution_ladder where
  "no_rungs = \<lparr>r_rung = 0, r_engine = None, r_switched = False, r_after_switch = False,
     r_factor = None, r_measured = None, r_floor = None\<rparr>"

section \<open>The state\<close>

text \<open>\<open>user_dispute\<close> is the dispute's mode when the run is a dispute run.\<close>

record pstate =
  engine :: string
  engine_source :: string
  user_dispute :: "string option"
  retry_count :: nat
  infra_retry_count :: nat
  guard_replay_count :: nat
  review_rerun_count :: nat
  builder_noop_count :: nat
  builder_mode :: string
  builder_stop :: string
  api_failure :: string
  openfoam_workspace :: string
  geometry_unsuitable_reason :: string
  executor_success :: bool
  executor_output :: string
  executor_failed_gate :: string
  executor_failure_cause :: string
  executor_failure_facts :: facts
  requirement_caveats :: "caveat list"
  reviewer_verdict :: string
  reviewer_axis_findings :: "finding list"
  reviewer_rebuild_required :: bool
  review_history :: "review_entry list"
  classifier_gate :: string
  classifier_section :: string
  classifier_summary :: string
  error_source :: string
  ladder_record :: engine_ladder
  rung_record :: resolution_ladder
  sound_attempts :: "sound_attempt list"

text \<open>The state a run starts with (\<open>pipeline/state_factory.py\<close>).\<close>

definition initial_state :: "string \<Rightarrow> string \<Rightarrow> string option \<Rightarrow> pstate" where
  "initial_state e source dispute =
     \<lparr>engine = e, engine_source = source, user_dispute = dispute, retry_count = 0,
      infra_retry_count = 0, guard_replay_count = 0, review_rerun_count = 0,
      builder_noop_count = 0, builder_mode = ''initial'', builder_stop = [], api_failure = [],
      openfoam_workspace = [], geometry_unsuitable_reason = [], executor_success = False,
      executor_output = [], executor_failed_gate = [], executor_failure_cause = [],
      executor_failure_facts = no_facts, requirement_caveats = [], reviewer_verdict = [],
      reviewer_axis_findings = [], reviewer_rebuild_required = False, review_history = [],
      classifier_gate = [], classifier_section = [], classifier_summary = [], error_source = [],
      ladder_record = no_ladder, rung_record = no_rungs, sound_attempts = []\<rparr>"

record settings =
  MAX_BUILDER_RETRIES :: nat
  BUILDER_INFRA_RETRY_MAX :: nat
  REVIEWER_RERUN_MAX :: nat
  VERDICT_BY_LIMITS :: bool
  ENGINE_FALLBACK_ENABLED :: bool
  CELL_HARD_LIMIT :: nat

definition BUILDER_MAX_TOTAL_ATTEMPTS :: "settings \<Rightarrow> nat" where
  "BUILDER_MAX_TOTAL_ATTEMPTS cfg = MAX_BUILDER_RETRIES cfg + 2"

definition default_settings :: settings where
  "default_settings = \<lparr>MAX_BUILDER_RETRIES = 1, BUILDER_INFRA_RETRY_MAX = 2,
     REVIEWER_RERUN_MAX = 2, VERDICT_BY_LIMITS = False, ENGINE_FALLBACK_ENABLED = True,
     CELL_HARD_LIMIT = 8000000\<rparr>"

end
