(* ===== verification/Resolution.thy ===== *)
theory Resolution
  imports PipelineState
begin

text \<open>
  The resolution policy (\<open>engines/resolution_policy.py\<close>): which gates only leave a note on a sound
  mesh, the ladder of rungs a retry climbs, when a rung is left, and which sound mesh of a run is
  delivered. A manifest on disk is given by \<open>manifests\<close>: the fatal defects of the manifest in a
  workspace that can still be read. \<open>math.inf\<close> is \<open>None\<close> in \<open>resolution_of\<close>.
\<close>

definition RESOLUTION_SHORT :: string where "RESOLUTION_SHORT = ''resolution_short''"
definition OVER_CELL_LIMIT :: string where "OVER_CELL_LIMIT = ''over_cell_limit''"
definition DOMAIN_EXTENT_KIND :: string where "DOMAIN_EXTENT_KIND = ''domain_extent''"

lemma kinds_differ [simp]:
  "RESOLUTION_SHORT \<noteq> OVER_CELL_LIMIT" "OVER_CELL_LIMIT \<noteq> RESOLUTION_SHORT"
  "RESOLUTION_SHORT \<noteq> DOMAIN_EXTENT_KIND" "DOMAIN_EXTENT_KIND \<noteq> RESOLUTION_SHORT"
  "OVER_CELL_LIMIT \<noteq> DOMAIN_EXTENT_KIND" "DOMAIN_EXTENT_KIND \<noteq> OVER_CELL_LIMIT"
  "RESOLUTION_SHORT \<noteq> []" "OVER_CELL_LIMIT \<noteq> []" "DOMAIN_EXTENT_KIND \<noteq> []"
  by (simp_all add: RESOLUTION_SHORT_def OVER_CELL_LIMIT_def DOMAIN_EXTENT_KIND_def)

definition NOTE_KINDS :: "string list" where
  "NOTE_KINDS = [RESOLUTION_SHORT, OVER_CELL_LIMIT]"

definition NOTE_GATES :: "string \<Rightarrow> string option" where
  "NOTE_GATES gate =
     (if gate = ''resolution_floor'' then Some RESOLUTION_SHORT
      else if gate = ''cell_limit'' then Some OVER_CELL_LIMIT else None)"

definition is_note_gate :: "string \<Rightarrow> bool" where
  "is_note_gate gate = (NOTE_GATES gate \<noteq> None)"

section \<open>The rung\<close>

definition RUNG_FACTORS :: "rat list" where "RUNG_FACTORS = [1, 3/2, 2]"
definition RUNG_CAP :: rat where "RUNG_CAP = 3"

text \<open>\<open>round(x, 3)\<close>: to the nearest thousandth, ties to the even one.\<close>

definition round_even :: "rat \<Rightarrow> int" where
  "round_even x =
     (let n = \<lfloor>x\<rfloor>; d = x - of_int n in
      if d < 1/2 \<or> (d = 1/2 \<and> even n) then n else n + 1)"

definition round3 :: "rat \<Rightarrow> rat" where
  "round3 x = of_int (round_even (x * 1000)) / 1000"

definition rung_factor :: "nat \<Rightarrow> rat option \<Rightarrow> rat option \<Rightarrow> rat" where
  "rung_factor r measured bar =
     (if r = 0 then 1
      else
        let base = RUNG_FACTORS ! min r (length RUNG_FACTORS - 1);
            need = (case (measured, bar) of
                      (Some m, Some f) \<Rightarrow> if f \<noteq> 0 \<and> 0 < m then (f + 1) / m else 0
                    | _ \<Rightarrow> 0)
        in round3 (min RUNG_CAP (max base need)))"

definition current_rung :: "pstate \<Rightarrow> nat" where
  "current_rung st = r_rung (rung_record st)"

definition rung_left :: "pstate \<Rightarrow> bool" where
  "rung_left st = (current_rung st + 1 < length RUNG_FACTORS)"

text \<open>The fact an attempt's workspace carries; none at rung 0.\<close>

record rung_fact =
  rf_rung :: nat
  rf_factor :: rat
  rf_engine :: string

definition fact_for :: "pstate \<Rightarrow> rung_fact option" where
  "fact_for st =
     (let lad = rung_record st; rung = current_rung st in
      if rung = 0 then None
      else Some \<lparr>rf_rung = rung,
                 rf_factor = (case r_factor lad of
                                Some f \<Rightarrow> if f = 0 then rung_factor rung None None else f
                              | None \<Rightarrow> rung_factor rung None None),
                 rf_engine = (case r_engine lad of Some e \<Rightarrow> if e = [] then engine st else e
                              | None \<Rightarrow> engine st)\<rparr>)"

definition factor_of :: "rung_fact option \<Rightarrow> rat" where
  "factor_of x = (case x of None \<Rightarrow> 1 | Some f \<Rightarrow> if 1 \<le> rf_factor f then rf_factor f else 1)"

section \<open>The note a gate becomes\<close>

text \<open>
  \<open>cell_count\<close> is the manifest's, when it has one. Only a resolution note carries the attempt's gap
  plan and the gate's facts, completed with the mesh's size and the limit.
\<close>

definition note_caveat ::
  "settings \<Rightarrow> string \<Rightarrow> facts \<Rightarrow> gap_plan option \<Rightarrow> rat option \<Rightarrow> caveat"
where
  "note_caveat cfg gate f plan cell_count =
     (let kind = or_else (NOTE_GATES gate) RESOLUTION_SHORT;
          f1 = f\<lparr>cells_fact := (case cells_fact f of None \<Rightarrow> cell_count | c \<Rightarrow> c),
                 cell_limit := (case cell_limit f of
                    None \<Rightarrow> Some (of_nat (CELL_HARD_LIMIT cfg)) | l \<Rightarrow> l)\<rparr>
      in if kind = RESOLUTION_SHORT
         then \<lparr>c_kind = kind, c_cells_across = cells_across f1, c_cells = cells_fact f1,
               c_cell_limit = cell_limit f1,
               c_plan = (case plan of Some p \<Rightarrow> if plan_status p = [] then None else Some p | None \<Rightarrow> None),
               c_facts = Some f1\<rparr>
         else \<lparr>c_kind = kind, c_cells_across = None, c_cells = cells_fact f1,
               c_cell_limit = cell_limit f1, c_plan = None, c_facts = None\<rparr>)"

lemma note_caveat_facts:
  "c_kind (note_caveat cfg gate f plan n) = RESOLUTION_SHORT \<Longrightarrow>
     \<exists>x. c_facts (note_caveat cfg gate f plan n) = Some x \<and> x \<noteq> no_facts"
proof -
  assume k: "c_kind (note_caveat cfg gate f plan n) = RESOLUTION_SHORT"
  have "x \<noteq> no_facts" if "cell_limit x \<noteq> None" for x using that by (auto simp: no_facts_def)
  with k show ?thesis
    by (auto simp: note_caveat_def Let_def split: option.splits if_splits)
qed


definition note_caveats :: "caveat list \<Rightarrow> caveat list" where
  "note_caveats cs = filter (\<lambda>c. c_kind c \<in> set NOTE_KINDS) cs"

definition resolution_caveat :: "caveat list \<Rightarrow> caveat option" where
  "resolution_caveat cs = find (\<lambda>c. c_kind c = RESOLUTION_SHORT) cs"

definition under_resolved_facts :: "pstate \<Rightarrow> facts option" where
  "under_resolved_facts st =
     (if executor_failure_cause st = cause_value UNDER_RESOLVED
      then if executor_failure_facts st = no_facts then None else Some (executor_failure_facts st)
      else if executor_success st
      then (case resolution_caveat (requirement_caveats st) of
              None \<Rightarrow> None
            | Some c \<Rightarrow> (case c_facts c of None \<Rightarrow> None | Some f \<Rightarrow> if f = no_facts then None else Some f))
      else None)"

section \<open>What the router asks\<close>

definition ROOM_SHARE :: rat where "ROOM_SHARE = 9 / 10"

definition HELD_PLANS :: "string list" where
  "HELD_PLANS = [''limited'', ''over_limit'', ''accepted_fewer'']"

definition plan_held :: "gap_plan \<Rightarrow> bool" where
  "plan_held p =
     (plan_status p \<in> set HELD_PLANS
      \<and> (case (plan_budget p, plan_limit p) of
           (Some b, Some l) \<Rightarrow> 0 < l \<and> 999 / 1000 * l \<le> b
         | _ \<Rightarrow> False))"

definition over_limit :: "caveat \<Rightarrow> bool" where
  "over_limit c =
     ((case c_plan c of Some p \<Rightarrow> plan_held p | None \<Rightarrow> False)
      \<or> (case (c_cells c, c_cell_limit c) of
           (Some n, Some l) \<Rightarrow> 0 < l \<and> ROOM_SHARE * l \<le> n
         | _ \<Rightarrow> False))"

definition retry_can_change :: "caveat list \<Rightarrow> pstate \<Rightarrow> bool" where
  "retry_can_change cs st =
     list_ex (\<lambda>c. let kind = (if c_kind c = [] then DOMAIN_EXTENT_KIND else c_kind c) in
        if kind = RESOLUTION_SHORT then rung_left st \<and> \<not> over_limit c
        else kind \<notin> set NOTE_KINDS) cs"

definition switched :: "pstate \<Rightarrow> bool" where
  "switched st = (l_switches (ladder_record st) \<noteq> [] \<or> r_switched (rung_record st))"

definition rung_after_switch :: "pstate \<Rightarrow> nat \<Rightarrow> bool \<times> string" where
  "rung_after_switch st attempts_ceiling =
     (case resolution_caveat (requirement_caveats st) of
        None \<Rightarrow> (False, ''no switch'')
      | Some c \<Rightarrow>
          if \<not> switched st then (False, ''no switch'')
          else if current_rung st \<noteq> 0 \<or> r_after_switch (rung_record st)
          then (False, ''this engine already climbed a rung'')
          else if \<not> rung_left st \<or> over_limit c then (False, ''no rung fits'')
          else if attempts_ceiling \<le> retry_count st then (False, ''the run's ceiling of attempts is reached'')
          else (True, []))"

text \<open>\<open>switch_to\<close> is empty when the run stays on its engine.\<close>

definition next_ladder :: "pstate \<Rightarrow> string \<Rightarrow> resolution_ladder" where
  "next_ladder st switch_to =
     (let lad = rung_record st in
      if switch_to \<noteq> [] \<and> switch_to \<noteq> engine st
      then no_rungs\<lparr>r_engine := Some switch_to, r_switched := True\<rparr>
      else
        case under_resolved_facts st of
          None \<Rightarrow> lad\<lparr>r_engine := (case r_engine lad of None \<Rightarrow> Some (engine st) | e \<Rightarrow> e)\<rparr>
        | Some f \<Rightarrow>
            let rung = min (current_rung st + 1) (length RUNG_FACTORS - 1)
            in lad\<lparr>r_rung := rung, r_engine := Some (engine st),
                   r_factor := Some (rung_factor rung (cells_across f) (needed f)),
                   r_measured := cells_across f, r_floor := needed f,
                   r_after_switch := r_after_switch lad
                     \<or> (r_switched lad \<and> current_rung st = 0 \<and> 1 < retry_count st)\<rparr>)"

section \<open>The sound meshes of a run\<close>

definition sound_entry :: "pstate \<Rightarrow> string \<Rightarrow> string \<Rightarrow> caveat list \<Rightarrow> sound_attempt" where
  "sound_entry st workspace mesh_mode cs =
     \<lparr>s_attempt = retry_count st, s_workspace = workspace,
      s_engine = (if mesh_mode = [] then engine st else mesh_mode), s_caveats = cs\<rparr>"

definition with_sound :: "pstate \<Rightarrow> sound_attempt \<Rightarrow> sound_attempt list" where
  "with_sound st e = filter (\<lambda>r. s_workspace r \<noteq> s_workspace e) (sound_attempts st) @ [e]"

definition resolution_of :: "sound_attempt \<Rightarrow> rat option" where
  "resolution_of e =
     (case resolution_caveat (s_caveats e) of
        None \<Rightarrow> None
      | Some c \<Rightarrow> Some (or_else (c_cells_across c) 0))"

definition at_least :: "rat option \<Rightarrow> rat option \<Rightarrow> bool" where
  "at_least a b =
     (case a of None \<Rightarrow> True | Some x \<Rightarrow> (case b of None \<Rightarrow> False | Some y \<Rightarrow> y \<le> x))"

type_synonym manifests = "string \<Rightarrow> string list option"

definition readable :: "manifests \<Rightarrow> sound_attempt \<Rightarrow> bool" where
  "readable mf r = (s_workspace r \<noteq> [] \<and> mf (s_workspace r) = Some [])"

definition pick_best :: "manifests \<Rightarrow> sound_attempt \<Rightarrow> sound_attempt option \<Rightarrow> sound_attempt option" where
  "pick_best mf r best =
     (if \<not> readable mf r then best
      else case best of
        None \<Rightarrow> Some r
      | Some b \<Rightarrow> if at_least (resolution_of r) (resolution_of b) then Some r else best)"

definition deliverable_sound :: "manifests \<Rightarrow> pstate \<Rightarrow> sound_attempt option" where
  "deliverable_sound mf st = fold (pick_best mf) (sound_attempts st) None"

definition better_earlier_sound :: "manifests \<Rightarrow> pstate \<Rightarrow> sound_attempt option" where
  "better_earlier_sound mf st =
     (let rows = sound_attempts st in
      if length rows < 2 then None
      else case deliverable_sound mf st of
        None \<Rightarrow> None
      | Some best \<Rightarrow>
          let here = (if openfoam_workspace st = [] then s_workspace (last rows)
                      else openfoam_workspace st) in
          if s_workspace best = here then None
          else
            let mine = (case find (\<lambda>r. s_workspace r = here) rows of Some r \<Rightarrow> r | None \<Rightarrow> last rows)
            in if \<not> at_least (resolution_of mine) (resolution_of best) then Some best else None)"

section \<open>What the ladder and the delivery guarantee\<close>

lemma round_even_ge: "of_int n \<le> x \<Longrightarrow> n \<le> round_even x"
  by (simp add: round_even_def Let_def le_floor_iff) linarith

lemma round_even_le: "x \<le> of_int n \<Longrightarrow> round_even x \<le> n"
proof -
  assume "x \<le> of_int n"
  then have "\<lfloor>x\<rfloor> < n \<or> x = of_int n" by (metis floor_less_iff le_less)
  then show ?thesis by (auto simp: round_even_def Let_def)
qed

lemma round3_bounds: "of_int a / 1000 \<le> x \<Longrightarrow> x \<le> of_int b / 1000 \<Longrightarrow> of_int a / 1000 \<le> round3 x \<and> round3 x \<le> of_int b / 1000"
  using round_even_ge [of a "x * 1000"] round_even_le [of "x * 1000" b]
  by (simp add: round3_def divide_right_mono)

text \<open>
  A rung sizes up, within its cap, and only while one is left. Every rung above the plan sizes
  the narrow spots up by at least one half and at most three times; the rung of a run never passes
  the last one, and a rung left means a higher factor table entry. But a second rung need not
  change the mesh: a shortfall that asks for the cap at the first rung and still does at the second
  is sized the same.
\<close>

theorem rung_bounds:
  "(0 < r \<longrightarrow> 3 / 2 \<le> rung_factor r measured bar \<and> rung_factor r measured bar \<le> RUNG_CAP)
   \<and> rung_factor 0 measured bar = 1
   \<and> (r_rung (rung_record st) < length RUNG_FACTORS
        \<longrightarrow> r_rung (next_ladder st to) < length RUNG_FACTORS
            \<and> (rung_left st \<and> under_resolved_facts st \<noteq> None \<and> (to = [] \<or> to = engine st)
                 \<longrightarrow> r_rung (next_ladder st to) = current_rung st + 1))
   \<and> (\<forall>m n f. 0 < m \<and> 0 < n \<and> 3 * m \<le> f + 1 \<and> 3 * n \<le> f + 1 \<and> f \<noteq> 0
        \<longrightarrow> rung_factor 1 (Some m) (Some f) = rung_factor 2 (Some n) (Some f))"
proof (intro conjI impI allI)
  have base: "3 / 2 \<le> RUNG_FACTORS ! min r (length RUNG_FACTORS - 1)
      \<and> RUNG_FACTORS ! min r (length RUNG_FACTORS - 1) \<le> RUNG_CAP" if "0 < r"
  proof (cases "r = 1")
    case False
    with that have "min r 2 = 2" by simp
    then show ?thesis by (simp add: RUNG_FACTORS_def RUNG_CAP_def)
  qed (simp add: RUNG_FACTORS_def RUNG_CAP_def)
  have clip: "3 / 2 \<le> round3 (min RUNG_CAP (max y x)) \<and> round3 (min RUNG_CAP (max y x)) \<le> RUNG_CAP"
    if "3 / 2 \<le> y" for x y
    using that round3_bounds [of 1500 "min RUNG_CAP (max y x)" 3000] by (simp add: RUNG_CAP_def max_def min_def split: if_splits)
  have b: "3 / 2 \<le> rung_factor r measured bar \<and> rung_factor r measured bar \<le> RUNG_CAP"
    if "0 < r" using that base [OF that] clip by (simp only: rung_factor_def Let_def) simp
  show "3 / 2 \<le> rung_factor r measured bar" "rung_factor r measured bar \<le> RUNG_CAP" if "0 < r"
    using b that by simp_all
next
  show "rung_factor 0 measured bar = 1" by (simp add: rung_factor_def)
next
  assume "r_rung (rung_record st) < length RUNG_FACTORS"
  then show "r_rung (next_ladder st to) < length RUNG_FACTORS"
    by (auto simp: next_ladder_def no_rungs_def RUNG_FACTORS_def Let_def split: option.split)
next
  assume "rung_left st \<and> under_resolved_facts st \<noteq> None \<and> (to = [] \<or> to = engine st)"
  then show "r_rung (next_ladder st to) = current_rung st + 1"
    by (auto simp: next_ladder_def rung_left_def Let_def)
next
  fix m n f :: rat
  assume "0 < m \<and> 0 < n \<and> 3 * m \<le> f + 1 \<and> 3 * n \<le> f + 1 \<and> f \<noteq> 0"
  then have "3 \<le> (f + 1) / m" "3 \<le> (f + 1) / n" "0 < m" "0 < n" "f \<noteq> 0"
    by (simp_all add: field_simps)
  then show "rung_factor 1 (Some m) (Some f) = rung_factor 2 (Some n) (Some f)"
    by (simp add: rung_factor_def RUNG_FACTORS_def RUNG_CAP_def Let_def min_absorb1 max_absorb2
        le_max_iff_disj)
qed

theorem rung_bounds_witness:
  "rung_factor 1 (Some 3) (Some 12) = rung_factor 2 (Some 4) (Some 12)
   \<and> 3 / 2 \<le> rung_factor 2 (Some 4) (Some 12)"
  using rung_bounds [where r = 2 and measured = "Some 4" and bar = "Some 12"] by auto

lemma at_least_refl [simp]: "at_least a a"
  by (cases a) (simp_all add: at_least_def)

lemma at_least_trans: "at_least a b \<Longrightarrow> at_least b c \<Longrightarrow> at_least a c"
  by (auto simp: at_least_def split: option.splits)

lemma at_least_total: "at_least a b \<or> at_least b a"
  by (auto simp: at_least_def split: option.splits)

lemma at_least_strict: "\<not> at_least a b \<Longrightarrow> at_least b a"
  using at_least_total by blast

text \<open>What \<open>fold (pick_best mf)\<close> returns: the last of the best readable rows.\<close>

definition best_of :: "manifests \<Rightarrow> sound_attempt list \<Rightarrow> sound_attempt option \<Rightarrow> bool" where
  "best_of mf rows b \<longleftrightarrow>
     (case b of
        None \<Rightarrow> (\<forall>r\<in>set rows. \<not> readable mf r)
      | Some x \<Rightarrow>
          (\<exists>before after. rows = before @ x # after \<and> readable mf x
             \<and> (\<forall>r\<in>set before. readable mf r \<longrightarrow> at_least (resolution_of x) (resolution_of r))
             \<and> (\<forall>r\<in>set after. readable mf r \<longrightarrow> \<not> at_least (resolution_of r) (resolution_of x))))"

lemma best_of_snoc:
  assumes "best_of mf rows b"
  shows "best_of mf (rows @ [r]) (pick_best mf r b)"
proof (cases b)
  case None
  then have n: "\<forall>r\<in>set rows. \<not> readable mf r" using assms by (simp add: best_of_def)
  show ?thesis
  proof (cases "readable mf r")
    case True
    have "best_of mf (rows @ [r]) (Some r)"
      unfolding best_of_def option.case
      by (rule exI [of _ rows], rule exI [of _ "[]"]) (use n True in auto)
    with None True show ?thesis by (simp add: pick_best_def)
  next
    case False
    with None n show ?thesis by (simp add: pick_best_def best_of_def)
  qed
next
  case (Some x)
  then obtain before after where s: "rows = before @ x # after" "readable mf x"
    "\<forall>r\<in>set before. readable mf r \<longrightarrow> at_least (resolution_of x) (resolution_of r)"
    "\<forall>r\<in>set after. readable mf r \<longrightarrow> \<not> at_least (resolution_of r) (resolution_of x)"
    using assms by (auto simp: best_of_def)
  show ?thesis
  proof (cases "readable mf r \<and> at_least (resolution_of r) (resolution_of x)")
    case True
    have "\<forall>q\<in>set rows. readable mf q \<longrightarrow> at_least (resolution_of r) (resolution_of q)"
    proof (intro ballI impI)
      fix q
      assume q: "q \<in> set rows" "readable mf q"
      have "at_least (resolution_of x) (resolution_of q)"
        using q s at_least_strict by (auto simp: s(1))
      then show "at_least (resolution_of r) (resolution_of q)"
        using True at_least_trans by blast
    qed
    then have "best_of mf (rows @ [r]) (Some r)"
      unfolding best_of_def option.case
      by (intro exI [of _ rows] exI [of _ "[]"]) (use True in auto)
    with Some True show ?thesis by (simp add: pick_best_def)
  next
    case False
    have "best_of mf (rows @ [r]) (Some x)"
      unfolding best_of_def option.case
      by (rule exI [of _ before], rule exI [of _ "after @ [r]"]) (use s False in auto)
    with Some False show ?thesis by (auto simp: pick_best_def)
  qed
qed

lemma best_of_fold: "best_of mf rows (fold (pick_best mf) rows None)"
  by (induction rows rule: rev_induct) (simp_all add: best_of_snoc, simp add: best_of_def)

lemma deliverable_best: "best_of mf (sound_attempts st) (deliverable_sound mf st)"
  by (simp add: deliverable_sound_def best_of_fold)

text \<open>
  The run delivers its best sound mesh. What is delivered is one of the run's sound meshes,
  still readable and without a fatal defect; none of the others resolves its narrowest gap better,
  and none that came later resolves it as well; and nothing is delivered only when no mesh is left
  to deliver. When the last attempt is sound, an earlier mesh replaces it only if it resolves the
  gap strictly better.
\<close>

theorem best_sound_delivered:
  "(case deliverable_sound mf st of
      None \<Rightarrow> \<forall>r\<in>set (sound_attempts st). \<not> readable mf r
    | Some x \<Rightarrow> x \<in> set (sound_attempts st) \<and> readable mf x
        \<and> (\<forall>r\<in>set (sound_attempts st). readable mf r \<longrightarrow> at_least (resolution_of x) (resolution_of r))
        \<and> (\<exists>before after. sound_attempts st = before @ x # after
             \<and> (\<forall>r\<in>set after. readable mf r \<longrightarrow> \<not> at_least (resolution_of r) (resolution_of x))))
   \<and> (\<forall>x. better_earlier_sound mf st = Some x \<longrightarrow>
        deliverable_sound mf st = Some x
        \<and> (\<exists>mine\<in>set (sound_attempts st). \<not> at_least (resolution_of mine) (resolution_of x)))"
proof
  show "case deliverable_sound mf st of
      None \<Rightarrow> \<forall>r\<in>set (sound_attempts st). \<not> readable mf r
    | Some x \<Rightarrow> x \<in> set (sound_attempts st) \<and> readable mf x
        \<and> (\<forall>r\<in>set (sound_attempts st). readable mf r \<longrightarrow> at_least (resolution_of x) (resolution_of r))
        \<and> (\<exists>before after. sound_attempts st = before @ x # after
             \<and> (\<forall>r\<in>set after. readable mf r \<longrightarrow> \<not> at_least (resolution_of r) (resolution_of x)))"
  proof (cases "deliverable_sound mf st")
    case None
    with deliverable_best [of mf st] show ?thesis by (simp add: best_of_def)
  next
    case (Some x)
    with deliverable_best [of mf st] obtain before after where
      s: "sound_attempts st = before @ x # after" "readable mf x"
      "\<forall>r\<in>set before. readable mf r \<longrightarrow> at_least (resolution_of x) (resolution_of r)"
      "\<forall>r\<in>set after. readable mf r \<longrightarrow> \<not> at_least (resolution_of r) (resolution_of x)"
      by (auto simp: best_of_def)
    then have "\<forall>r\<in>set (sound_attempts st). readable mf r
        \<longrightarrow> at_least (resolution_of x) (resolution_of r)"
      using at_least_strict by auto
    with s Some show ?thesis by auto
  qed
  show "\<forall>x. better_earlier_sound mf st = Some x \<longrightarrow>
        deliverable_sound mf st = Some x
        \<and> (\<exists>mine\<in>set (sound_attempts st). \<not> at_least (resolution_of mine) (resolution_of x))"
  proof (intro allI impI)
    fix x
    assume b: "better_earlier_sound mf st = Some x"
    define rows where "rows = sound_attempts st"
    define here where "here = (if openfoam_workspace st = [] then s_workspace (last rows)
      else openfoam_workspace st)"
    define mine where "mine = (case find (\<lambda>r. s_workspace r = here) rows of Some r \<Rightarrow> r | None \<Rightarrow> last rows)"
    have rows: "rows \<noteq> []" "deliverable_sound mf st = Some x"
      and worse: "\<not> at_least (resolution_of mine) (resolution_of x)"
      using b by (auto simp: better_earlier_sound_def Let_def rows_def here_def mine_def
          split: option.splits if_splits)
    have "mine \<in> set rows"
      using rows by (auto simp: mine_def find_Some_iff split: option.split)
    with rows worse show "deliverable_sound mf st = Some x
        \<and> (\<exists>mine\<in>set (sound_attempts st). \<not> at_least (resolution_of mine) (resolution_of x))"
      by (auto simp: rows_def)
  qed
qed

definition demo_short :: "nat \<Rightarrow> rat \<Rightarrow> string \<Rightarrow> sound_attempt" where
  "demo_short n x ws = \<lparr>s_attempt = n, s_workspace = ws, s_engine = ''snappy'',
     s_caveats = [note_caveat default_settings ''resolution_floor''
       (no_facts\<lparr>cells_across := Some x, needed := Some 12\<rparr>) None None]\<rparr>"

definition demo_two_sound :: pstate where
  "demo_two_sound = initial_state ''snappy'' ''system'' None
     \<lparr>sound_attempts := [demo_short 1 9 ''attempt_1'', demo_short 2 7 ''attempt_2''],
      openfoam_workspace := ''attempt_2''\<rparr>"

theorem best_sound_delivered_witness:
  "map_option s_attempt (deliverable_sound (\<lambda>_. Some []) demo_two_sound) = Some 1
   \<and> (\<exists>mine\<in>set (sound_attempts demo_two_sound).
        \<not> at_least (resolution_of mine) (resolution_of (demo_short 1 9 ''attempt_1'')))"
proof -
  have d: "deliverable_sound (\<lambda>_. Some []) demo_two_sound = Some (demo_short 1 9 ''attempt_1'')"
    "better_earlier_sound (\<lambda>_. Some []) demo_two_sound = Some (demo_short 1 9 ''attempt_1'')"
    by (simp_all add: better_earlier_sound_def deliverable_sound_def pick_best_def readable_def
        resolution_of_def resolution_caveat_def demo_two_sound_def demo_short_def note_caveat_def
        NOTE_GATES_def at_least_def initial_state_def Let_def)
  from best_sound_delivered [where mf = "\<lambda>_. Some []" and st = demo_two_sound] d show ?thesis
    by (auto simp: demo_short_def)
qed

end
