(* ===== verification/Fallback.thy ===== *)
theory Fallback
  imports Resolution
begin

text \<open>
  The fallback ladder (\<open>pipeline/engine_fallback.py\<close>): which engines are rungs, what kind of failure
  an attempt ended on, and when a run moves to another engine on its own.

  The engine catalogue is an argument: for the request at hand, what each engine's spec declares and
  answers (its delivered mesh, whether it admits the request, how many passages one job of it
  meshes, whether the approved parameters carry over, the causes its gates declare), in the order of
  \<open>flow_ranking\<close>. The words of the brief are read by regular expressions that are not modelled; a
  \<open>request\<close> holds what they answer. The reasons of a decision are constructors instead of sentences.
\<close>

section \<open>The engines and the request\<close>

record DeliveredMesh =
  d_cells :: string
  d_walls :: nat
  d_layers :: bool
  d_wake :: bool

record EngineSpec =
  e_name :: string
  e_format :: string
  e_delivered :: "DeliveredMesh option"
  e_admits :: bool
  e_max_passages :: "nat option"
  e_params_ok :: bool
  e_measures :: bool
  e_gates :: "(string \<times> string) list"

type_synonym catalogue = "EngineSpec list"

record request =
  q_flow :: string
  q_layers :: bool
  q_no_layers :: bool
  q_no_wake :: bool
  q_draft :: bool

definition get_spec :: "catalogue \<Rightarrow> string \<Rightarrow> EngineSpec option" where
  "get_spec cat e = find (\<lambda>s. e_name s = e) cat"

lemma get_spec_Some: "get_spec cat e = Some s \<Longrightarrow> s \<in> set cat \<and> e_name s = e"
  by (auto simp: get_spec_def find_Some_iff)

definition ranked_engines :: "string list \<Rightarrow> string list \<Rightarrow> string list" where
  "ranked_engines order ranking =
     filter (\<lambda>e. e \<in> set order) (remdups ranking) @ filter (\<lambda>e. e \<notin> set ranking) order"

definition fallback_order :: "catalogue \<Rightarrow> pstate \<Rightarrow> string list" where
  "fallback_order cat st = ranked_engines (map e_name cat) (l_order (ladder_record st))"

lemma set_ranked_engines [simp]: "set (ranked_engines order ranking) = set order"
  by (auto simp: ranked_engines_def)

lemma distinct_ranked_engines: "distinct order \<Longrightarrow> distinct (ranked_engines order ranking)"
  by (auto simp: ranked_engines_def)

definition SOURCE_SUGGESTED :: string where "SOURCE_SUGGESTED = ''suggested_confirmed''"
definition SOURCE_SYSTEM :: string where "SOURCE_SYSTEM = ''system''"
definition SOURCE_DISPUTE :: string where "SOURCE_DISPUTE = ''dispute''"
definition SOURCE_USER :: string where "SOURCE_USER = ''user_direct''"

lemma sources_differ [simp]:
  "SOURCE_DISPUTE \<noteq> SOURCE_SUGGESTED" "SOURCE_DISPUTE \<noteq> SOURCE_SYSTEM"
  "SOURCE_SUGGESTED \<noteq> SOURCE_DISPUTE" "SOURCE_SYSTEM \<noteq> SOURCE_DISPUTE"
  "SOURCE_USER \<noteq> SOURCE_SUGGESTED" "SOURCE_USER \<noteq> SOURCE_SYSTEM"
  by (simp_all add: SOURCE_DISPUTE_def SOURCE_SUGGESTED_def SOURCE_SYSTEM_def SOURCE_USER_def)

definition approved_engine :: "pstate \<Rightarrow> string" where
  "approved_engine st =
     (case l_approved (ladder_record st) of
        Some a \<Rightarrow> if a = [] then engine st else a
      | None \<Rightarrow> engine st)"

definition source_of :: "pstate \<Rightarrow> string" where
  "source_of st = (if user_dispute st \<noteq> None then SOURCE_DISPUTE else engine_source st)"

definition may_switch_on_its_own :: "pstate \<Rightarrow> bool" where
  "may_switch_on_its_own st = (source_of st \<in> {SOURCE_SUGGESTED, SOURCE_SYSTEM})"

definition with_staged_passages :: "nat option \<Rightarrow> pstate \<Rightarrow> pstate" where
  "with_staged_passages staged st =
     (case staged of
        None \<Rightarrow> st
      | Some n \<Rightarrow>
          if l_passages (ladder_record st) = Some n \<and> l_staged (ladder_record st) then st
          else st\<lparr>ladder_record := (ladder_record st)\<lparr>l_passages := Some n, l_staged := True\<rparr>\<rparr>)"

definition covers_passages :: "EngineSpec \<Rightarrow> string \<Rightarrow> nat option \<Rightarrow> bool" where
  "covers_passages s flow passages =
     (case passages of
        None \<Rightarrow> True
      | Some n \<Rightarrow>
          if flow \<noteq> ''internal'' \<or> n \<le> 1 then True
          else (case e_max_passages s of None \<Rightarrow> True | Some limit \<Rightarrow> n \<le> limit))"

section \<open>The rungs\<close>

datatype requirement = REQ_PRISM_LAYERS | REQ_WAKE

definition plan_requirements :: "request \<Rightarrow> EngineSpec \<Rightarrow> requirement list" where
  "plan_requirements q s =
     (if q_layers q
         \<or> (case e_delivered s of
              Some d \<Rightarrow> d_layers d \<and> \<not> q_draft q \<and> \<not> (q_no_layers q \<and> \<not> q_layers q)
            | None \<Rightarrow> False)
      then [REQ_PRISM_LAYERS] else [])
     @ (if q_flow q = ''external'' \<and> (case e_delivered s of Some d \<Rightarrow> d_wake d | None \<Rightarrow> False)
           \<and> \<not> q_no_wake q
        then [REQ_WAKE] else [])"

fun has_requirement :: "DeliveredMesh \<Rightarrow> requirement \<Rightarrow> bool" where
  "has_requirement d REQ_PRISM_LAYERS = d_layers d"
| "has_requirement d REQ_WAKE = d_wake d"

definition uncovered :: "EngineSpec \<Rightarrow> requirement list \<Rightarrow> requirement list" where
  "uncovered s reqs =
     (case e_delivered s of
        None \<Rightarrow> reqs
      | Some d \<Rightarrow> filter (\<lambda>r. \<not> has_requirement d r) reqs)"

datatype change =
    Incomparable | OtherFormat string string | OtherCells string string | WeakerWall
  | NoLayersAsked | NoPlanLayers | NoPlanWake | DefaultSettings string

definition kind_changes :: "EngineSpec \<Rightarrow> EngineSpec \<Rightarrow> change list" where
  "kind_changes approved s =
     (case (e_delivered approved, e_delivered s) of
        (Some a, Some c) \<Rightarrow>
          (if e_format s \<noteq> e_format approved then [OtherFormat (e_format s) (e_format approved)] else [])
          @ (if d_cells c \<noteq> d_cells a then [OtherCells (d_cells c) (d_cells a)] else [])
      | _ \<Rightarrow> [])"

definition contract_changes :: "EngineSpec \<Rightarrow> EngineSpec \<Rightarrow> bool \<Rightarrow> change list" where
  "contract_changes approved s layers =
     (case (e_delivered approved, e_delivered s) of
        (Some a, Some c) \<Rightarrow>
          kind_changes approved s
          @ (if d_walls c < d_walls a then [WeakerWall] else [])
          @ (if layers \<and> \<not> d_layers c then [NoLayersAsked] else [])
      | _ \<Rightarrow> [Incomparable])"

definition plan_changes :: "EngineSpec \<Rightarrow> bool \<Rightarrow> requirement list \<Rightarrow> change list" where
  "plan_changes s layers reqs =
     (if e_delivered s = None then []
      else let missing = uncovered s reqs in
        (if REQ_PRISM_LAYERS \<in> set missing \<and> \<not> layers then [NoPlanLayers] else [])
        @ (if REQ_WAKE \<in> set missing then [NoPlanWake] else []))"

record Rung =
  rung_engine :: string
  same_contract :: bool
  rung_changes :: "change list"
  kind_only :: bool

definition rung_of :: "request \<Rightarrow> EngineSpec \<Rightarrow> EngineSpec \<Rightarrow> Rung" where
  "rung_of q approved s =
     (let ch = contract_changes approved s (q_layers q)
             @ plan_changes s (q_layers q) (plan_requirements q approved)
             @ (if e_params_ok s then [] else [DefaultSettings (e_name s)])
      in \<lparr>rung_engine = e_name s, same_contract = (ch = []), rung_changes = ch,
          kind_only = (ch \<noteq> [] \<and> set ch \<subseteq> set (kind_changes approved s))\<rparr>)"

definition ladder :: "catalogue \<Rightarrow> request \<Rightarrow> pstate \<Rightarrow> Rung list" where
  "ladder cat q st =
     (let approved = approved_engine st;
          first = \<lparr>rung_engine = approved, same_contract = True, rung_changes = [], kind_only = False\<rparr>
      in
      if approved = [] then []
      else if q_flow q = [] \<or> source_of st = SOURCE_DISPUTE then [first]
      else
        case get_spec cat approved of
          None \<Rightarrow> [first]
        | Some a \<Rightarrow>
            first # map (rung_of q a)
              (filter (\<lambda>s. e_name s \<noteq> approved \<and> e_admits s
                        \<and> covers_passages s (q_flow q) (l_passages (ladder_record st)))
                (List.map_filter (get_spec cat) (fallback_order cat st))))"

section \<open>The failure that just happened\<close>

record Failure =
  kind :: ladder_kind
  cause :: string
  stop :: "StopClass option"

fun LADDER_CLASS :: "FailureCause \<Rightarrow> ladder_kind" where
  "LADDER_CLASS ENGINE_CRASHED = ENGINE"
| "LADDER_CLASS GEOMETRY_REJECTED = ENGINE"
| "LADDER_CLASS NOT_BUILT = ENGINE"
| "LADDER_CLASS MESH_QUALITY = FIXABLE"
| "LADDER_CLASS UNDER_RESOLVED = FIXABLE"
| "LADDER_CLASS CELL_BUDGET = FIXABLE"
| "LADDER_CLASS NOT_SOLVABLE = FIXABLE"
| "LADDER_CLASS PATCH_NOT_CAPTURED = FIXABLE"
| "LADDER_CLASS ENGINE_TIMED_OUT = FIXABLE"
| "LADDER_CLASS CONTRACT_MISMATCH = NEVER"
| "LADDER_CLASS BOUNDARY_TYPE = NEVER"
| "LADDER_CLASS DOMAIN_EXTENT = NEVER"
| "LADDER_CLASS REGION_SPLIT = NEVER"
| "LADDER_CLASS REVIEW_INCOMPLETE = NEVER"
| "LADDER_CLASS RUN_INFRASTRUCTURE = NEVER"

definition ONLY_ANOTHER_ENGINE_CHANGES :: "FailureCause list" where
  "ONLY_ANOTHER_ENGINE_CHANGES = [GEOMETRY_REJECTED, UNDER_RESOLVED, NOT_BUILT]"

definition broken_cells :: "facts \<Rightarrow> string list" where
  "broken_cells f = filter (\<lambda>x. strip x \<noteq> []) (fatal_defects f)"

definition mesher_started :: "pstate \<Rightarrow> bool" where
  "mesher_started st =
     (if geometry_unsuitable_reason st \<noteq> [] then False
      else if executor_success st then True
      else case meshers_started (executor_failure_facts st) of
        Some n \<Rightarrow> 0 < n
      | None \<Rightarrow> \<not> before_meshing (executor_failure_facts st))"

text \<open>\<open>executor._gate_cause\<close>: the cause the check named, else the one its gate declares, else a
  seam's. \<open>named\<close> is empty when the check named none.\<close>

definition gate_cause :: "catalogue \<Rightarrow> string \<Rightarrow> string \<Rightarrow> string \<Rightarrow> string" where
  "gate_cause cat e gate named =
     (if named \<noteq> [] then named
      else
        let declared = (case get_spec cat e of
                          Some s \<Rightarrow> (case find (\<lambda>(k, c). k = gate \<and> c \<noteq> []) (e_gates s) of
                                       Some (k, c) \<Rightarrow> c | None \<Rightarrow> [])
                        | None \<Rightarrow> [])
        in if declared \<noteq> [] then declared
           else (case SEAM_CAUSES gate of Some c \<Rightarrow> cause_value c | None \<Rightarrow> []))"

definition cause_of :: "catalogue \<Rightarrow> pstate \<Rightarrow> FailureCause option" where
  "cause_of cat st =
     (let recorded = as_cause (executor_failure_cause st); gate = executor_failed_gate st in
      if recorded \<noteq> None \<or> gate = [] then recorded
      else as_cause (gate_cause cat (engine st) gate []))"

definition failure_kind :: "FailureCause \<Rightarrow> facts \<Rightarrow> ladder_kind" where
  "failure_kind c f =
     (let k = (if \<not> retry_can_help (cause_value c) f \<and> c \<notin> set ONLY_ANOTHER_ENGINE_CHANGES
               then NEVER else LADDER_CLASS c)
      in if k \<noteq> NEVER \<and> (over_size_by_rule f \<or> broken_cells f \<noteq> []) then ENGINE else k)"

definition classify :: "catalogue \<Rightarrow> pstate \<Rightarrow> Failure option" where
  "classify cat st =
     (if executor_success st
      then
        if resolution_caveat (requirement_caveats st) \<noteq> None
        then Some \<lparr>kind = NEVER, cause = ''resolution_short'', stop = Some CHECK_FAILED\<rparr>
        else if note_caveats (requirement_caveats st) \<noteq> []
        then Some \<lparr>kind = NEVER, cause = ''over_cell_limit'', stop = Some CHECK_FAILED\<rparr>
        else if requirement_caveats st \<noteq> []
        then Some \<lparr>kind = NEVER, cause = ''requirements_near_miss'', stop = Some CHECK_FAILED\<rparr>
        else if reviewer_verdict st = ''FAIL''
        then Some \<lparr>kind = REVIEW, cause = ''review'', stop = Some REVIEW_REBUILD\<rparr>
        else None
      else
        case (cause_of cat st, executor_failed_gate st) of
          (Some c, _) \<Rightarrow> Some \<lparr>kind = failure_kind c (executor_failure_facts st),
                               cause = cause_value c, stop = Some (STOP_CLASS c)\<rparr>
        | (None, []) \<Rightarrow> Some \<lparr>kind = failure_kind ENGINE_CRASHED (executor_failure_facts st),
                              cause = cause_value ENGINE_CRASHED, stop = Some MESHER_CRASHED\<rparr>
        | (None, gate) \<Rightarrow> Some \<lparr>kind = FIXABLE, cause = gate, stop = Some CHECK_FAILED\<rparr>)"

section \<open>The record\<close>

definition tried_engines :: "pstate \<Rightarrow> string list" where
  "tried_engines st =
     filter (\<lambda>e. e \<noteq> [])
       (approved_engine st # map a_engine (l_attempts (ladder_record st)) @ [engine st])"

definition with_attempt :: "pstate \<Rightarrow> Failure option \<Rightarrow> engine_ladder" where
  "with_attempt st failure =
     (let rec = ladder_record st;
          rec1 = rec\<lparr>l_approved := (case l_approved rec of None \<Rightarrow> Some (approved_engine st) | a \<Rightarrow> a),
                     l_source := (case l_source rec of None \<Rightarrow> Some (source_of st) | s \<Rightarrow> s)\<rparr>;
          refused = (geometry_unsuitable_reason st \<noteq> []);
          n = (if refused then 0 else retry_count st)
      in if (0 < n \<or> refused) \<and> n \<notin> a_attempt ` set (l_attempts rec)
         then rec1\<lparr>l_attempts := l_attempts rec
                @ [\<lparr>a_attempt = n, a_engine = engine st, a_kind = map_option kind failure,
                    a_cause = (case failure of Some f \<Rightarrow> cause f | None \<Rightarrow> []),
                    a_built = (n = 0 \<or> mesher_started st)\<rparr>]\<rparr>
         else rec1)"

definition with_switch ::
  "engine_ladder \<Rightarrow> nat \<Rightarrow> string \<Rightarrow> string \<Rightarrow> Failure \<Rightarrow> why \<Rightarrow> engine_ladder"
where
  "with_switch rec attempt frm to failure reason =
     (if attempt \<in> w_attempt ` set (l_switches rec) then rec
      else rec\<lparr>l_switches := l_switches rec
             @ [\<lparr>w_attempt = attempt, w_from = frm, w_to = to, w_because = cause failure,
                 w_kind = kind failure, w_why = reason\<rparr>]\<rparr>)"

definition attempts_made :: "catalogue \<Rightarrow> pstate \<Rightarrow> bool \<Rightarrow> nat" where
  "attempts_made cat st succeeded =
     (if geometry_unsuitable_reason st \<noteq> [] then 0
      else
        let rec = with_attempt st (if succeeded then None else classify cat st);
            turns = retry_count st;
            idle = {a_attempt a |a. a \<in> set (l_attempts rec) \<and> \<not> a_built a
                      \<and> 0 < a_attempt a \<and> a_attempt a \<le> turns}
        in turns - card idle)"

section \<open>The decision\<close>

record Decision =
  switch_to :: string
  reason :: why
  decided_on :: "Failure option"
  decision_changes :: "change list"

definition stay :: "why \<Rightarrow> Failure option \<Rightarrow> Decision" where
  "stay w f = \<lparr>switch_to = [], reason = w, decided_on = f, decision_changes = []\<rparr>"

definition levers_spent :: "engine_ladder \<Rightarrow> string \<Rightarrow> bool" where
  "levers_spent rec e =
     (2 \<le> length (filter (\<lambda>a. a_engine a = e \<and> a_kind a \<in> {Some FIXABLE, Some ENGINE} \<and> a_built a)
             (l_attempts rec)))"

definition repeats :: "engine_ladder \<Rightarrow> string \<Rightarrow> Failure \<Rightarrow> bool" where
  "repeats rec e f =
     (let mine = filter (\<lambda>a. a_engine a = e) (l_attempts rec) in
      2 \<le> length mine
      \<and> a_kind (mine ! (length mine - 2)) = Some (kind f)
      \<and> a_cause (mine ! (length mine - 2)) = cause f)"

definition NO_MESH_CAUSES :: "string list" where
  "NO_MESH_CAUSES = map cause_value [ENGINE_TIMED_OUT, ENGINE_CRASHED, NOT_BUILT]"

definition measures_its_input :: "catalogue \<Rightarrow> string \<Rightarrow> bool" where
  "measures_its_input cat e = (case get_spec cat e of Some s \<Rightarrow> e_measures s | None \<Rightarrow> False)"

definition untried :: "catalogue \<Rightarrow> request \<Rightarrow> pstate \<Rightarrow> Rung list" where
  "untried cat q st =
     filter (\<lambda>r. rung_engine r \<notin> set (tried_engines st) \<and> \<not> measures_its_input cat (rung_engine r))
       (ladder cat q st)"

definition decide :: "settings \<Rightarrow> catalogue \<Rightarrow> request \<Rightarrow> pstate \<Rightarrow> engine_ladder \<Rightarrow> Decision" where
  "decide cfg cat q st rec =
     (case classify cat st of
        None \<Rightarrow> stay NotFailed None
      | Some f \<Rightarrow>
          if \<not> ENGINE_FALLBACK_ENABLED cfg then stay LadderOff (Some f)
          else if kind f = NEVER then stay AnotherCannot (Some f)
          else if kind f = REVIEW then stay ReviewNeverMoves (Some f)
          else if \<not> may_switch_on_its_own st then stay NotOurs (Some f)
          else
            let e = engine st; left = int (MAX_BUILDER_RETRIES cfg) + 1 - int (retry_count st);
                open_rungs = filter same_contract (untried cat q (st\<lparr>ladder_record := rec\<rparr>));
                kind_rungs = filter kind_only (untried cat q (st\<lparr>ladder_record := rec\<rparr>))
            in
            if open_rungs = []
            then
              if (kind f = ENGINE \<or> cause f \<in> set NO_MESH_CAUSES) \<and> kind_rungs \<noteq> [] \<and> 1 \<le> left
              then \<lparr>switch_to = rung_engine (hd kind_rungs), reason = KindTakesOver,
                    decided_on = Some f, decision_changes = rung_changes (hd kind_rungs)\<rparr>
              else stay NoUntriedEngine (Some f)
            else if left < 1 then stay NoRegularAttempt (Some f)
            else if kind f = FIXABLE \<and> \<not> levers_spent rec e \<and> int (length open_rungs) < left
            then stay LeversFirst (Some f)
            else if kind f = FIXABLE \<and> \<not> repeats rec e f \<and> int (length open_rungs) < left
            then stay RetryFits (Some f)
            else \<lparr>switch_to = rung_engine (hd open_rungs),
                  reason = (if kind f = ENGINE \<and> broken_cells (executor_failure_facts st) \<noteq> []
                            then CameOutBroken
                            else if kind f = ENGINE then CouldNotBuild
                            else if repeats rec e f then SameFailureAgain else SharedAttempts),
                  decided_on = Some f, decision_changes = []\<rparr>)"

text \<open>Asked by the router before it ends a run that a retry of the same engine cannot change.\<close>

definition another_engine_takes_over ::
  "settings \<Rightarrow> catalogue \<Rightarrow> request \<Rightarrow> nat option \<Rightarrow> pstate \<Rightarrow> bool"
where
  "another_engine_takes_over cfg cat q staged st =
     (case classify cat st of
        None \<Rightarrow> False
      | Some f \<Rightarrow>
          if kind f = NEVER then False
          else let s = with_staged_passages staged st in
               switch_to (decide cfg cat q s (with_attempt s (Some f))) \<noteq> [])"

text \<open>The engine the builder is told the run moves to if its attempt comes out broken.\<close>

definition moves_on_from_broken_mesh ::
  "settings \<Rightarrow> catalogue \<Rightarrow> request \<Rightarrow> pstate \<Rightarrow> string"
where
  "moves_on_from_broken_mesh cfg cat q st =
     (let probe = st\<lparr>retry_count := retry_count st + 1, executor_success := False,
            executor_failed_gate := ''finalize'',
            executor_failure_cause := cause_value MESH_QUALITY,
            executor_failure_facts := no_facts\<lparr>fatal_defects := [''broken cells''],
              meshers_started := Some 1\<rparr>,
            requirement_caveats := [], reviewer_verdict := []\<rparr>
      in switch_to (decide cfg cat q probe (with_attempt probe (classify cat probe))))"

section \<open>The node\<close>

text \<open>
  \<open>measured\<close> is what measuring the geometry answers when the run has no order yet: the order and the
  passages it counted.
\<close>

definition seed_measured_order :: "(string list \<times> nat option) option \<Rightarrow> pstate \<Rightarrow> pstate" where
  "seed_measured_order measured st =
     (if l_order (ladder_record st) \<noteq> [] then st
      else case measured of
        None \<Rightarrow> st
      | Some (order, passages) \<Rightarrow>
          st\<lparr>ladder_record := (ladder_record st)\<lparr>l_order := order,
               l_passages := (case passages of None \<Rightarrow> l_passages (ladder_record st) | p \<Rightarrow> p),
               l_staged := (case passages of None \<Rightarrow> l_staged (ladder_record st) | Some _ \<Rightarrow> False)\<rparr>\<rparr>)"

definition node_engine_fallback ::
  "settings \<Rightarrow> catalogue \<Rightarrow> request \<Rightarrow> (string list \<times> nat option) option \<Rightarrow> nat option
     \<Rightarrow> pstate \<Rightarrow> pstate"
where
  "node_engine_fallback cfg cat q measured staged st0 =
     (let st = with_staged_passages staged (seed_measured_order measured st0);
          failure = classify cat st;
          rec = with_attempt st failure;
          d = decide cfg cat q st rec
      in case (switch_to d, decided_on d) of
           (to, Some f) \<Rightarrow>
             if to = [] then st\<lparr>ladder_record := rec, rung_record := next_ladder st []\<rparr>
             else st\<lparr>engine := to, builder_mode := ''initial'', builder_noop_count := 0,
                     classifier_summary := ''first attempt on another engine'',
                     error_source := ''engine_fallback'',
                     ladder_record := with_switch rec (retry_count st + 1) (engine st) to f (reason d),
                     rung_record := next_ladder st to\<rparr>
         | (_, None) \<Rightarrow> st\<lparr>ladder_record := rec, rung_record := next_ladder st []\<rparr>)"

end
