(* ===== verification/FallbackProps.thy ===== *)
theory FallbackProps
  imports Fallback
begin

text \<open>
  What the ladder guarantees: a run moves only to an engine that delivers what was approved, never
  on a review and never away from an engine the user named, and only finitely often.
\<close>

section \<open>What a rung delivers\<close>

text \<open>The part of the approval every engine a run may move to keeps.\<close>

definition keeps_approval :: "request \<Rightarrow> EngineSpec \<Rightarrow> EngineSpec \<Rightarrow> bool" where
  "keeps_approval q a s \<longleftrightarrow>
     (\<exists>da ds. e_delivered a = Some da \<and> e_delivered s = Some ds \<and> d_walls da \<le> d_walls ds
        \<and> (q_layers q \<longrightarrow> d_layers ds)
        \<and> (\<forall>r\<in>set (plan_requirements q a). has_requirement ds r))
     \<and> e_params_ok s"

definition same_kind :: "EngineSpec \<Rightarrow> EngineSpec \<Rightarrow> bool" where
  "same_kind a s \<longleftrightarrow> e_format s = e_format a
     \<and> map_option d_cells (e_delivered s) = map_option d_cells (e_delivered a)"

lemma set_kind_changes:
  "ch \<in> set (kind_changes a s) \<Longrightarrow>
     (\<exists>x y. ch = OtherFormat x y) \<or> (\<exists>x y. ch = OtherCells x y)"
  by (auto simp: kind_changes_def split: option.splits if_splits)

lemma keeps_approval_rung:
  assumes "set (rung_changes (rung_of q a s)) \<subseteq> set (kind_changes a s)"
  shows "keeps_approval q a s"
proof -
  let ?ch = "set (rung_changes (rung_of q a s))"
  have no: "Incomparable \<notin> ?ch" "WeakerWall \<notin> ?ch" "NoLayersAsked \<notin> ?ch" "NoPlanLayers \<notin> ?ch"
    "NoPlanWake \<notin> ?ch" "DefaultSettings (e_name s) \<notin> ?ch"
    using assms set_kind_changes [of _ a s] by blast+
  have parts: "set (contract_changes a s (q_layers q)) \<subseteq> ?ch"
    "set (plan_changes s (q_layers q) (plan_requirements q a)) \<subseteq> ?ch"
    by (auto simp: rung_of_def Let_def)
  obtain da ds where d: "e_delivered a = Some da" "e_delivered s = Some ds"
    using no(1) parts(1) by (cases "e_delivered a"; cases "e_delivered s")
      (auto simp: contract_changes_def)
  have walls: "d_walls da \<le> d_walls ds"
    using no(2) parts(1) d by (auto simp: contract_changes_def split: if_splits)
  have asked: "q_layers q \<longrightarrow> d_layers ds"
    using no(3) parts(1) d by (auto simp: contract_changes_def split: if_splits)
  have layers: "REQ_PRISM_LAYERS \<in> set (plan_requirements q a) \<longrightarrow> d_layers ds"
    using no(4) asked parts(2) d
    by (auto simp: plan_changes_def uncovered_def Let_def split: if_splits)
  have wake: "REQ_WAKE \<in> set (plan_requirements q a) \<longrightarrow> d_wake ds"
    using no(5) parts(2) d by (auto simp: plan_changes_def uncovered_def Let_def split: if_splits)
  have "\<forall>r\<in>set (plan_requirements q a). has_requirement ds r"
  proof
    fix r assume r: "r \<in> set (plan_requirements q a)"
    show "has_requirement ds r" by (cases r) (use r layers wake in auto)
  qed
  moreover have "e_params_ok s" using no(6) by (auto simp: rung_of_def Let_def split: if_splits)
  ultimately show ?thesis using d walls asked by (auto simp: keeps_approval_def)
qed

lemma same_contract_rung:
  assumes "same_contract (rung_of q a s)"
  shows "keeps_approval q a s \<and> same_kind a s"
proof
  have none: "rung_changes (rung_of q a s) = []" using assms by (simp add: rung_of_def Let_def)
  then show k: "keeps_approval q a s" using keeps_approval_rung [of q a s] by simp
  then obtain da ds where d: "e_delivered a = Some da" "e_delivered s = Some ds"
    by (auto simp: keeps_approval_def)
  have "kind_changes a s = []"
    using none d by (auto simp: rung_of_def contract_changes_def Let_def split: if_splits)
  with d show "same_kind a s" by (auto simp: kind_changes_def same_kind_def split: if_splits)
qed

lemma kind_only_rung: "kind_only (rung_of q a s) \<Longrightarrow> keeps_approval q a s"
  using keeps_approval_rung [of q a s] by (simp add: rung_of_def Let_def)

lemma set_tried_engines:
  "set (tried_engines st) = {e. e \<noteq> [] \<and> (e = approved_engine st \<or> e = engine st
     \<or> e \<in> a_engine ` set (l_attempts (ladder_record st)))}"
  by (auto simp: tried_engines_def)

lemma untried_rung:
  assumes "r \<in> set (untried cat q st)"
  shows "\<exists>a s. get_spec cat (approved_engine st) = Some a \<and> get_spec cat (rung_engine r) = Some s
     \<and> r = rung_of q a s \<and> e_admits s
     \<and> covers_passages s (q_flow q) (l_passages (ladder_record st))
     \<and> \<not> e_measures s \<and> rung_engine r \<notin> set (tried_engines st)
     \<and> source_of st \<noteq> SOURCE_DISPUTE"
proof -
  have r: "r \<in> set (ladder cat q st)" "rung_engine r \<notin> set (tried_engines st)"
    "\<not> measures_its_input cat (rung_engine r)"
    using assms by (auto simp: untried_def)
  have app: "approved_engine st \<noteq> []" using r(1) by (auto simp: ladder_def Let_def)
  then have tried: "approved_engine st \<in> set (tried_engines st)" by (simp add: set_tried_engines)
  then have other: "rung_engine r \<noteq> approved_engine st" using r(2) by auto
  have src: "source_of st \<noteq> SOURCE_DISPUTE"
    using r(1) app other by (auto simp: ladder_def Let_def split: if_splits)
  obtain a where a: "get_spec cat (approved_engine st) = Some a"
    using r(1) app other by (cases "get_spec cat (approved_engine st)")
      (auto simp: ladder_def Let_def split: if_splits)
  obtain s n where s: "r = rung_of q a s" "get_spec cat n = Some s" "e_admits s"
    "covers_passages s (q_flow q) (l_passages (ladder_record st))" "n \<in> set (fallback_order cat st)"
    using r(1) app other a
    by (auto simp: ladder_def Let_def List.map_filter_def split: if_splits)
  have n: "e_name s = n" using get_spec_Some [OF s(2)] by simp
  have name: "rung_engine r = n" by (simp add: s(1) rung_of_def Let_def n)
  show ?thesis using a s r n name src by (auto simp: measures_its_input_def)
qed

section \<open>When a run may move\<close>

lemma approved_with_attempt [simp]:
  "approved_engine (st\<lparr>ladder_record := with_attempt st f\<rparr>) = approved_engine st"
  by (auto simp: approved_engine_def with_attempt_def Let_def split: option.split)

lemma passages_with_attempt [simp]: "l_passages (with_attempt st f) = l_passages (ladder_record st)"
  by (simp add: with_attempt_def Let_def)

lemma source_with_ladder [simp]: "source_of (st\<lparr>ladder_record := r\<rparr>) = source_of st"
  by (simp add: source_of_def)

lemma attempts_with_attempt:
  "set (l_attempts (ladder_record st)) \<subseteq> set (l_attempts (with_attempt st f))"
  by (auto simp: with_attempt_def Let_def)

text \<open>What a decision to move rests on; the record is the one the node hands over.\<close>

lemma decide_moves:
  assumes "switch_to (decide cfg cat q st rec) \<noteq> []"
  obtains f r where "classify cat st = Some f" "decided_on (decide cfg cat q st rec) = Some f"
    "kind f = ENGINE \<or> kind f = FIXABLE" "ENGINE_FALLBACK_ENABLED cfg" "may_switch_on_its_own st"
    "retry_count st \<le> MAX_BUILDER_RETRIES cfg"
    "r \<in> set (untried cat q (st\<lparr>ladder_record := rec\<rparr>))"
    "switch_to (decide cfg cat q st rec) = rung_engine r"
    "same_contract r \<or> kind_only r \<and> (kind f = ENGINE \<or> cause f \<in> set NO_MESH_CAUSES)
       \<and> decision_changes (decide cfg cat q st rec) = rung_changes r"
proof (cases "classify cat st")
  case None
  with assms show ?thesis by (simp add: decide_def stay_def)
next
  case (Some f)
  define rungs where "rungs = untried cat q (st\<lparr>ladder_record := rec\<rparr>)"
  have gates: "ENGINE_FALLBACK_ENABLED cfg" "kind f \<noteq> NEVER" "kind f \<noteq> REVIEW"
    "may_switch_on_its_own st"
    using assms Some by (auto simp: decide_def stay_def split: if_splits)
  then have k: "kind f = ENGINE \<or> kind f = FIXABLE" by (cases "kind f") auto
  show ?thesis
  proof (cases "filter same_contract rungs = []")
    case True
    then have alt: "kind f = ENGINE \<or> cause f \<in> set NO_MESH_CAUSES" "filter kind_only rungs \<noteq> []"
      "retry_count st \<le> MAX_BUILDER_RETRIES cfg"
      and d: "decide cfg cat q st rec = \<lparr>switch_to = rung_engine (hd (filter kind_only rungs)),
        reason = KindTakesOver, decided_on = Some f,
        decision_changes = rung_changes (hd (filter kind_only rungs))\<rparr>"
      using assms Some gates
      by (auto simp: decide_def stay_def rungs_def Let_def split: if_splits)
    have "hd (filter kind_only rungs) \<in> set (filter kind_only rungs)" using alt(2) by (rule hd_in_set)
    then show ?thesis
      using that [of f "hd (filter kind_only rungs)"] Some gates k alt d by (auto simp: rungs_def)
  next
    case False
    then have left: "retry_count st \<le> MAX_BUILDER_RETRIES cfg"
      and d: "switch_to (decide cfg cat q st rec) = rung_engine (hd (filter same_contract rungs))"
        "decided_on (decide cfg cat q st rec) = Some f"
      using assms Some gates
      by (auto simp: decide_def stay_def rungs_def Let_def split: if_splits)
    have "hd (filter same_contract rungs) \<in> set (filter same_contract rungs)"
      using False by (rule hd_in_set)
    then show ?thesis
      using that [of f "hd (filter same_contract rungs)"] Some gates k left d
      by (auto simp: rungs_def)
  qed
qed

text \<open>
  C10: approved equals delivered. When a run moves to another engine on its own, the failed attempt
  was a measured failure of the engine and not a review's; the engine was the system's choice, never
  the user's or a dispute's; an attempt is left; the engine it moves to was not tried before, admits
  the request and meshes the case's passages; and its mesh keeps the approved plan: a wall at least
  as true, the layers asked for, every requirement of the plan, and the approved settings. Only when
  no usable mesh came out may the file format and the cells differ, and then the user is told.
\<close>

theorem approved_equals_delivered:
  assumes "d = decide cfg cat q st (with_attempt st (classify cat st))" "switch_to d \<noteq> []"
  shows "\<exists>f a s.
     decided_on d = Some f \<and> (kind f = ENGINE \<or> kind f = FIXABLE)
     \<and> user_dispute st = None \<and> engine_source st \<in> {SOURCE_SUGGESTED, SOURCE_SYSTEM}
     \<and> retry_count st \<le> MAX_BUILDER_RETRIES cfg
     \<and> switch_to d \<notin> set (tried_engines st) \<and> switch_to d \<noteq> engine st
     \<and> get_spec cat (approved_engine st) = Some a \<and> get_spec cat (switch_to d) = Some s
     \<and> e_admits s \<and> covers_passages s (q_flow q) (l_passages (ladder_record st))
     \<and> keeps_approval q a s
     \<and> (same_kind a s \<or> (kind f = ENGINE \<or> cause f \<in> set NO_MESH_CAUSES) \<and> decision_changes d \<noteq> [])"
proof -
  let ?rec = "with_attempt st (classify cat st)"
  let ?st = "st\<lparr>ladder_record := ?rec\<rparr>"
  obtain f r where f: "decided_on d = Some f" "kind f = ENGINE \<or> kind f = FIXABLE"
      "may_switch_on_its_own st" "retry_count st \<le> MAX_BUILDER_RETRIES cfg"
    and r: "r \<in> set (untried cat q ?st)" "switch_to d = rung_engine r"
      "same_contract r \<or> kind_only r \<and> (kind f = ENGINE \<or> cause f \<in> set NO_MESH_CAUSES)
         \<and> decision_changes d = rung_changes r"
    using decide_moves [of cfg cat q st ?rec] assms by metis
  from untried_rung [OF r(1)] obtain a s where
    u: "get_spec cat (approved_engine st) = Some a" "get_spec cat (rung_engine r) = Some s"
      "r = rung_of q a s" "e_admits s" "covers_passages s (q_flow q) (l_passages (ladder_record st))"
      "rung_engine r \<notin> set (tried_engines ?st)"
    by auto
  have tried: "set (tried_engines st) \<subseteq> set (tried_engines ?st)"
    using attempts_with_attempt [of st "classify cat st"] by (auto simp: set_tried_engines)
  have here: "rung_engine r \<noteq> engine st"
    using u(6) assms(2) r(2) by (auto simp: set_tried_engines)
  have src: "user_dispute st = None" "engine_source st \<in> {SOURCE_SUGGESTED, SOURCE_SYSTEM}"
    using f(3) by (auto simp: may_switch_on_its_own_def source_of_def split: if_splits)
  have "keeps_approval q a s"
    using r(3) u(3) same_contract_rung [of q a s] kind_only_rung [of q a s] by auto
  moreover have "same_kind a s
      \<or> (kind f = ENGINE \<or> cause f \<in> set NO_MESH_CAUSES) \<and> decision_changes d \<noteq> []"
    using r(3) u(3) same_contract_rung [of q a s] by (auto simp: rung_of_def Let_def)
  ultimately show ?thesis
    using f r(2) u tried here src by (metis subsetD)
qed

definition demo_spec :: "string \<Rightarrow> EngineSpec" where
  "demo_spec n = \<lparr>e_name = n, e_format = ''polymesh'',
     e_delivered = Some \<lparr>d_cells = ''hex-dominant'', d_walls = 1, d_layers = True, d_wake = True\<rparr>,
     e_admits = True, e_max_passages = None, e_params_ok = True, e_measures = False, e_gates = []\<rparr>"

definition demo_request :: request where
  "demo_request = \<lparr>q_flow = ''external'', q_layers = True, q_no_layers = False, q_no_wake = False,
     q_draft = False\<rparr>"

definition demo_settings :: settings where
  "demo_settings = \<lparr>MAX_BUILDER_RETRIES = 1, BUILDER_INFRA_RETRY_MAX = 2, REVIEWER_RERUN_MAX = 2,
     VERDICT_BY_LIMITS = False, ENGINE_FALLBACK_ENABLED = True, CELL_HARD_LIMIT = 100\<rparr>"

definition demo_crashed :: pstate where
  "demo_crashed = initial_state ''snappy'' ''system'' None
     \<lparr>retry_count := 1, executor_failed_gate := ''finalize'',
      executor_failure_cause := cause_value ENGINE_CRASHED\<rparr>"

lemma demo_switches:
  "switch_to (decide demo_settings [demo_spec ''snappy'', demo_spec ''cfmesh''] demo_request
     demo_crashed (with_attempt demo_crashed
       (classify [demo_spec ''snappy'', demo_spec ''cfmesh''] demo_crashed))) = ''cfmesh''"
  by code_simp

theorem approved_equals_delivered_witness:
  "\<exists>a s. keeps_approval demo_request a s \<and> e_name s = ''cfmesh''"
proof -
  let ?cat = "[demo_spec ''snappy'', demo_spec ''cfmesh'']"
  let ?d = "decide demo_settings ?cat demo_request demo_crashed
    (with_attempt demo_crashed (classify ?cat demo_crashed))"
  have "switch_to ?d \<noteq> []" unfolding demo_switches by simp
  from approved_equals_delivered [OF refl this] obtain a s where
    "get_spec ?cat (switch_to ?d) = Some s" "keeps_approval demo_request a s"
    by (elim exE conjE)
  then show ?thesis unfolding demo_switches using get_spec_Some by blast
qed

section \<open>The builder is told where a broken mesh would send the run\<close>

lemma untried_cong:
  assumes "engine s = engine t" "user_dispute s = user_dispute t" "engine_source s = engine_source t"
    "ladder_record s = ladder_record t"
  shows "untried cat q s = untried cat q t"
proof -
  have "approved_engine s = approved_engine t" "source_of s = source_of t"
    "fallback_order cat s = fallback_order cat t"
    unfolding approved_engine_def source_of_def fallback_order_def assms by (rule refl)+
  then show ?thesis unfolding untried_def ladder_def tried_engines_def assms by presburger
qed

lemma with_attempt_cong:
  assumes "engine s = engine t" "user_dispute s = user_dispute t" "engine_source s = engine_source t"
    "ladder_record s = ladder_record t" "retry_count s = retry_count t"
    "geometry_unsuitable_reason s = geometry_unsuitable_reason t"
    "mesher_started s = mesher_started t"
  shows "with_attempt s x = with_attempt t x"
proof -
  have "approved_engine s = approved_engine t" "source_of s = source_of t"
    unfolding approved_engine_def source_of_def assms by (rule refl)+
  then show ?thesis unfolding with_attempt_def assms by presburger
qed

lemma classify_broken:
  assumes "\<not> executor_success st" "executor_failure_cause st = cause_value MESH_QUALITY"
    "broken_cells (executor_failure_facts st) \<noteq> []"
    "\<not> (deterministic (executor_failure_facts st) \<and> ladder_exhausted (executor_failure_facts st))"
  shows "classify cat st = Some \<lparr>kind = ENGINE, cause = cause_value MESH_QUALITY, stop = Some CHECK_FAILED\<rparr>"
  using assms by (auto simp: classify_def cause_of_def failure_kind_def retry_can_help_def)

text \<open>
  The builder's prediction is the ladder's decision. Before an attempt runs, the builder asks
  where the run would move if the mesh came out broken; when an attempt then does come out broken,
  whatever its defects and whatever else its gate reported, the ladder moves the run exactly there.
\<close>

theorem predicted_move_is_made:
  assumes "st' = st\<lparr>retry_count := retry_count st + 1, executor_success := False,
      executor_failed_gate := gate, executor_failure_cause := cause_value MESH_QUALITY,
      executor_failure_facts := f, executor_output := words, requirement_caveats := cs\<rparr>"
    and "broken_cells f \<noteq> []" "\<not> (deterministic f \<and> ladder_exhausted f)"
    and "meshers_started f = Some n" "0 < n"
  shows "switch_to (decide cfg cat q st' (with_attempt st' (classify cat st')))
      = moves_on_from_broken_mesh cfg cat q st"
proof -
  define probe where "probe = st\<lparr>retry_count := retry_count st + 1, executor_success := False,
    executor_failed_gate := ''finalize'', executor_failure_cause := cause_value MESH_QUALITY,
    executor_failure_facts := no_facts\<lparr>fatal_defects := [''broken cells''],
      meshers_started := Some 1\<rparr>,
    requirement_caveats := [], reviewer_verdict := []\<rparr>"
  have b: "broken_cells (executor_failure_facts probe) \<noteq> []"
    by (simp add: probe_def broken_cells_def strip_def is_space_def Let_def)
  have "\<not> executor_success probe" "executor_failure_cause probe = cause_value MESH_QUALITY"
    "\<not> (deterministic (executor_failure_facts probe) \<and> ladder_exhausted (executor_failure_facts probe))"
    by (simp_all add: probe_def no_facts_def)
  then have p: "classify cat probe
      = Some \<lparr>kind = ENGINE, cause = cause_value MESH_QUALITY, stop = Some CHECK_FAILED\<rparr>"
    using b by (intro classify_broken)
  have s: "classify cat st'
      = Some \<lparr>kind = ENGINE, cause = cause_value MESH_QUALITY, stop = Some CHECK_FAILED\<rparr>"
    using assms by (intro classify_broken) simp_all
  have rec: "with_attempt st' (classify cat st') = with_attempt probe (classify cat probe)"
    unfolding s p
    by (rule with_attempt_cong) (use assms(4,5) in \<open>simp_all add: assms(1) probe_def mesher_started_def\<close>)
  have un: "untried cat q (st'\<lparr>ladder_record := r\<rparr>) = untried cat q (probe\<lparr>ladder_record := r\<rparr>)" for r
    by (rule untried_cong) (simp_all add: assms(1) probe_def)
  have fields: "may_switch_on_its_own st' = may_switch_on_its_own probe"
    "retry_count st' = retry_count probe" "engine st' = engine probe"
    by (simp_all add: assms(1) probe_def may_switch_on_its_own_def source_of_def)
  show ?thesis
    unfolding moves_on_from_broken_mesh_def Let_def probe_def [symmetric] rec
    by (simp add: decide_def s p fields un stay_def Let_def)
qed

theorem predicted_move_is_made_witness:
  "moves_on_from_broken_mesh demo_settings [demo_spec ''snappy'', demo_spec ''cfmesh''] demo_request
     (initial_state ''snappy'' ''system'' None) = ''cfmesh''"
proof -
  let ?cat = "[demo_spec ''snappy'', demo_spec ''cfmesh'']" and ?st = "initial_state ''snappy'' ''system'' None"
  let ?f = "no_facts\<lparr>fatal_defects := [''negative volumes''], meshers_started := Some 1\<rparr>"
  let ?s = "?st\<lparr>retry_count := retry_count ?st + 1, executor_success := False,
      executor_failed_gate := ''finalize'', executor_failure_cause := cause_value MESH_QUALITY,
      executor_failure_facts := ?f, executor_output := [], requirement_caveats := []\<rparr>"
  have b: "broken_cells ?f \<noteq> []"
    by (simp add: broken_cells_def strip_def is_space_def Let_def)
  have "switch_to (decide demo_settings ?cat demo_request ?s (with_attempt ?s (classify ?cat ?s)))
      = ''cfmesh''"
    by code_simp
  moreover have "\<not> (deterministic ?f \<and> ladder_exhausted ?f)" "meshers_started ?f = Some 1"
    by (simp_all add: no_facts_def)
  ultimately show ?thesis
    using predicted_move_is_made [where st = "?st" and gate = "''finalize''" and words = "[]"
        and cs = "[]" and n = 1 and cfg = demo_settings and cat = "?cat" and q = demo_request, OF refl b]
    by simp
qed

end
