(* ===== verification/Review.thy ===== *)
theory Review
  imports PipelineState
begin

text \<open>
  What a concluded review may do (\<open>agents/reviewer/review_policy.py\<close>): which finding makes the mesh the
  wrong problem, which asks for a rebuild and which stands as a concern, the citation check against
  the brief, the measurements that overrule a claim, and the reviewer node's result
  (\<open>agents/reviewer/visual.py\<close>, \<open>unified.py\<close>).

  The model's submission is data: a finding with the fields it filled in, and whether it was backed
  by an inspection of the mesh. Text is normalised as the code does on ASCII text; its Unicode
  folding (NFKC) is not modelled. Numbers are rationals.
\<close>

section \<open>The vocabulary\<close>

definition WRONG_PROBLEM :: "string list" where
  "WRONG_PROBLEM = [''wrong_side_meshed'', ''missing_geometry'', ''wrong_scale'',
     ''wrong_flow_setup'', ''wrong_boundaries'', ''no_flow_path'', ''shape_changed'',
     ''junk_regions'', ''requirement_absent'']"

definition NOT_WRONG_PROBLEM :: string where "NOT_WRONG_PROBLEM = ''none''"

definition LEVERS :: "string list" where
  "LEVERS = [''domain'', ''refinement'', ''layers'', ''boundaries'']"

definition MIN_QUOTE_CHARS :: nat where "MIN_QUOTE_CHARS = 10"

definition builder_levers :: "bool \<Rightarrow> string \<Rightarrow> string list" where
  "builder_levers delivers_layers topology =
     filter (\<lambda>l. l \<in> {''refinement'', ''boundaries''}
               \<or> (l = ''layers'' \<and> delivers_layers)
               \<or> (l = ''domain'' \<and> topology = ''external'')) LEVERS"

section \<open>The citation check\<close>

definition is_word_char :: "char \<Rightarrow> bool" where
  "is_word_char c =
     (let n = of_char c :: nat in
      (48 \<le> n \<and> n \<le> 57) \<or> (65 \<le> n \<and> n \<le> 90) \<or> (97 \<le> n \<and> n \<le> 122) \<or> n = 95 \<or> 128 \<le> n
      \<or> c \<in> {CHR ''+'', CHR ''%'', CHR ''.''})"

text \<open>Every run of other characters becomes one space.\<close>

fun squeeze :: "bool \<Rightarrow> string \<Rightarrow> string" where
  "squeeze gap [] = []"
| "squeeze gap (c # cs) =
     (if is_word_char c then c # squeeze False cs
      else if gap then squeeze True cs else CHR '' '' # squeeze True cs)"

definition trim_chars :: "char set \<Rightarrow> string \<Rightarrow> string" where
  "trim_chars cs s = rev (dropWhile (\<lambda>c. c \<in> cs) (rev (dropWhile (\<lambda>c. c \<in> cs) s)))"

definition norm_quote :: "string \<Rightarrow> string" where
  "norm_quote s = trim_chars {CHR '' '', CHR ''.''} (squeeze False (lower s))"

text \<open>\<open>re.split\<close> at an ellipsis of three dots.\<close>

fun split_dots :: "string \<Rightarrow> string \<Rightarrow> string list" where
  "split_dots acc [] = [acc]"
| "split_dots acc (c # cs) =
     (if starts_with ''...'' (c # cs) then acc # split_dots [] (drop 2 cs)
      else split_dots (acc @ [c]) cs)"

text \<open>What follows the first occurrence (\<open>str.find\<close> from a position).\<close>

fun after_first :: "string \<Rightarrow> string \<Rightarrow> string option" where
  "after_first p s =
     (if starts_with p s then Some (drop (length p) s)
      else case s of [] \<Rightarrow> None | c # cs \<Rightarrow> after_first p cs)"

declare after_first.simps [simp del]

fun found_in_order :: "string list \<Rightarrow> string \<Rightarrow> bool" where
  "found_in_order [] hay = True"
| "found_in_order (f # fs) hay =
     (case after_first f hay of None \<Rightarrow> False | Some rest \<Rightarrow> found_in_order fs rest)"

definition quote_fragments :: "string \<Rightarrow> string list" where
  "quote_fragments quote = filter (\<lambda>f. f \<noteq> []) (map norm_quote (split_dots [] quote))"

definition brief_quote_found :: "string \<Rightarrow> string \<Rightarrow> bool" where
  "brief_quote_found quote brief =
     (let fragments = quote_fragments quote in
      fragments \<noteq> [] \<and> MIN_QUOTE_CHARS \<le> sum_list (map length fragments)
      \<and> 2 \<le> sum_list (map (\<lambda>f. length (split_words [] f)) fragments)
      \<and> found_in_order fragments (norm_quote brief))"

section \<open>The judgement of one finding\<close>

record raw_finding =
  rw_axis_key :: string
  rw_passed :: bool
  rw_requirement :: string
  rw_severity :: string
  rw_wrong_problem :: string
  rw_builder_change :: string
  rw_change_request :: string
  rw_inspected :: bool

record measured =
  m_regions :: "rat option"
  m_body_length :: "rat option"
  m_reference_length :: "rat option"
  m_p95_ratio :: "rat option"
  m_frac_beyond :: "rat option"
  m_layer_coverage :: "rat option"
  m_purpose :: string
  m_fea_valid :: bool
  m_fea_faces_complete :: bool

definition FEA_PURPOSE :: string where "FEA_PURPOSE = ''structural''"

definition fea_valid :: "measured \<Rightarrow> bool" where
  "fea_valid m = (strip (m_purpose m) = FEA_PURPOSE \<and> m_fea_valid m)"

definition settled_by_measurement :: "string \<Rightarrow> measured \<Rightarrow> bool" where
  "settled_by_measurement axis m = (axis = ''fea_faces_named'' \<and> m_fea_faces_complete m)"

definition settle :: "raw_finding list \<Rightarrow> measured \<Rightarrow> raw_finding list" where
  "settle fs m = map (\<lambda>f.
     if \<not> rw_passed f \<and> settled_by_measurement (rw_axis_key f) m
     then f\<lparr>rw_passed := True, rw_wrong_problem := [], rw_builder_change := [],
            rw_change_request := []\<rparr> else f) fs"

definition review_passes :: "raw_finding list \<Rightarrow> measured \<Rightarrow> bool" where
  "review_passes fs m = (fea_valid m \<or> list_all rw_passed fs)"

datatype veto = OneRegion | ScaleMatches | WallKept | LayersPresent

definition measured_veto :: "string \<Rightarrow> string \<Rightarrow> measured \<Rightarrow> veto option" where
  "measured_veto claim axis m =
     (if claim = ''junk_regions'' \<and> (case m_regions m of Some r \<Rightarrow> r \<le> 1 | None \<Rightarrow> False)
      then Some OneRegion
      else if claim = ''wrong_scale''
        \<and> (case (m_body_length m, m_reference_length m) of
             (Some b, Some r) \<Rightarrow> b \<noteq> 0 \<and> r \<noteq> 0 \<and> 1 / 5 \<le> b / r \<and> b / r \<le> 5
           | _ \<Rightarrow> False)
      then Some ScaleMatches
      else if claim = ''shape_changed''
        \<and> (case m_p95_ratio m of Some p \<Rightarrow> p \<le> 1 | None \<Rightarrow> False)
        \<and> (case m_frac_beyond m of Some x \<Rightarrow> x \<le> 1 / 100 | None \<Rightarrow> True)
      then Some WallKept
      else if claim = ''requirement_absent'' \<and> contains ''layer'' (lower axis)
        \<and> (case m_layer_coverage m of Some x \<Rightarrow> 1 < x | None \<Rightarrow> False)
      then Some LayersPresent
      else None)"

datatype concern_reason =
    UnrecognisedClaim | NoCitation | QuoteNotInBrief | NotInspected | Vetoed veto | FeaNeverFailed
  | NoBuildableChange | NoChangeNamed

record Judgement =
  j_blocking :: string
  j_improve :: bool
  j_reason :: "concern_reason option"
  j_material :: bool

text \<open>The grounds on which a wrong-problem claim is not accepted, in the code's order.\<close>

definition claim_refused :: "string \<Rightarrow> string \<Rightarrow> string \<Rightarrow> bool \<Rightarrow> string \<Rightarrow> measured \<Rightarrow> concern_reason option" where
  "claim_refused claim quote brief looked axis m =
     (if claim \<notin> set WRONG_PROBLEM then Some UnrecognisedClaim
      else if quote = [] then Some NoCitation
      else if \<not> brief_quote_found quote brief then Some QuoteNotInBrief
      else if \<not> looked then Some NotInspected
      else map_option Vetoed (measured_veto claim axis m))"

definition judge :: "string \<Rightarrow> string list \<Rightarrow> measured \<Rightarrow> raw_finding \<Rightarrow> Judgement option" where
  "judge brief levers m f =
     (if rw_passed f then None
      else
        let quote = strip (rw_requirement f); cited = brief_quote_found quote brief;
            looked = rw_inspected f; material0 = (lower (rw_severity f) = ''material'');
            claim = lower (strip (rw_wrong_problem f));
            claims = (claim \<noteq> [] \<and> claim \<noteq> NOT_WRONG_PROBLEM);
            reason0 = (if claims then claim_refused claim quote brief looked (rw_axis_key f) m else None);
            blocking0 = (if claims \<and> reason0 = None then claim else []);
            material1 = (material0 \<or> (claims \<and> blocking0 = []));
            lever = lower (strip (rw_builder_change f));
            improve0 = (cited \<and> looked \<and> lever \<in> set levers \<and> strip (rw_change_request f) \<noteq> []);
            fea = fea_valid m;
            reason1 = (if fea \<and> (blocking0 \<noteq> [] \<or> claims) then Some FeaNeverFailed else reason0);
            material2 = (material1 \<or> (fea \<and> (blocking0 \<noteq> [] \<or> claims)));
            blocking1 = (if fea then [] else blocking0);
            improve1 = (improve0 \<and> \<not> fea);
            reason2 = (if blocking1 = [] \<and> reason1 = None
                       then (if improve1 then None
                             else if quote = [] then Some NoCitation
                             else if \<not> cited then Some QuoteNotInBrief
                             else if lever \<notin> set levers then Some NoBuildableChange
                             else if strip (rw_change_request f) = [] then Some NoChangeNamed
                             else Some NotInspected)
                       else reason1)
        in Some \<lparr>j_blocking = blocking1, j_improve = improve1, j_reason = reason2,
                 j_material = material2\<rparr>)"

definition judge_all :: "string \<Rightarrow> string list \<Rightarrow> measured \<Rightarrow> raw_finding list \<Rightarrow> (string \<times> Judgement) list" where
  "judge_all brief levers m fs =
     List.map_filter (\<lambda>f. map_option (Pair (rw_axis_key f)) (judge brief levers m f)) fs"

text \<open>What is recorded of a finding; of two judgements under one axis the last stands.\<close>

definition recorded_finding :: "(string \<times> Judgement) list \<Rightarrow> raw_finding \<Rightarrow> finding" where
  "recorded_finding js f =
     (case (if rw_passed f then None else map_of (rev js) (rw_axis_key f)) of
        None \<Rightarrow> \<lparr>axis_key = rw_axis_key f, f_passed = Some (rw_passed f), f_improve = None, f_blocking = []\<rparr>
      | Some j \<Rightarrow> \<lparr>axis_key = rw_axis_key f, f_passed = Some (rw_passed f), f_improve = Some (j_improve j),
                   f_blocking = j_blocking j\<rparr>)"

section \<open>What a recorded review asks for\<close>

definition asks_for_rebuild :: "finding list \<Rightarrow> bool" where
  "asks_for_rebuild rows =
     (if \<not> list_ex (\<lambda>f. f_improve f \<noteq> None) rows
      then rows = [] \<or> list_ex (\<lambda>f. f_passed f = Some False) rows
      else list_ex (\<lambda>f. f_improve f = Some True) rows)"

definition blocking_findings :: "finding list \<Rightarrow> finding list" where
  "blocking_findings rows =
     filter (\<lambda>f. f_passed f = Some False \<and> f_blocking f \<in> set WRONG_PROBLEM) rows"

definition concern_retry_spent :: "pstate \<Rightarrow> bool" where
  "concern_retry_spent st =
     (blocking_findings (reviewer_axis_findings st) = []
      \<and> list_ex (\<lambda>h. h_attempt h < retry_count st \<and> h_verdict h = ''FAIL''
                  \<and> blocking_findings (h_findings h) = [] \<and> asks_for_rebuild (h_findings h))
          (review_history st))"

section \<open>The reviewer's node\<close>

text \<open>
  What the review's conversation ended with: no eligible verdict, under a marker, or an accepted
  submission with the verdict the eligibility derived from its findings.
\<close>

datatype review_outcome =
    NoVerdict string
  | Accepted bool "raw_finding list" bool

record review_input =
  ri_evidence_key :: string
  ri_brief :: string
  ri_levers :: "string list"
  ri_measured :: measured
  ri_outcome :: review_outcome

definition reused_review :: "pstate \<Rightarrow> review_input \<Rightarrow> review_entry option" where
  "reused_review st ri =
     (let key = (if executor_success st then ri_evidence_key ri else []) in
      if 0 < review_rerun_count st \<or> user_dispute st \<noteq> None \<or> key = [] then None
      else find (\<lambda>h. h_evidence_key h = key \<and> h_verdict h \<in> {''PASS'', ''FAIL''})
             (rev (review_history st)))"

definition spent_finding :: "finding \<Rightarrow> finding" where
  "spent_finding f = (if f_passed f = Some False then f\<lparr>f_improve := Some False\<rparr> else f)"

definition review_concludes :: "pstate \<Rightarrow> review_input \<Rightarrow> string \<Rightarrow> finding list \<Rightarrow> bool \<Rightarrow> pstate" where
  "review_concludes st ri verdict fs rebuild =
     st\<lparr>reviewer_verdict := verdict, reviewer_axis_findings := fs,
        reviewer_rebuild_required := rebuild,
        review_history := review_history st @
          [\<lparr>h_attempt = retry_count st, h_workspace = openfoam_workspace st,
             h_evidence_key = (if executor_success st then ri_evidence_key ri else []),
             h_verdict = verdict, h_findings = fs, h_caveats = requirement_caveats st,
             h_engine = engine st\<rparr>]\<rparr>"

definition node_reviewer :: "review_input \<Rightarrow> pstate \<Rightarrow> pstate" where
  "node_reviewer ri st =
     (case reused_review st ri of
        Some h \<Rightarrow> review_concludes st ri (h_verdict h) (map spent_finding (h_findings h)) False
      | None \<Rightarrow>
          if \<not> executor_success st then st\<lparr>api_failure := ''reviewer_evidence_missing''\<rparr>
          else
            case ri_outcome ri of
              NoVerdict marker \<Rightarrow> st\<lparr>api_failure := marker\<rparr>
            | Accepted accepted_passed raw rebuild \<Rightarrow>
                let fs = settle raw (ri_measured ri);
                    passed = (accepted_passed \<or> review_passes fs (ri_measured ri));
                    js = judge_all (ri_brief ri) (ri_levers ri) (ri_measured ri) fs
                in review_concludes st ri (if passed then ''PASS'' else ''FAIL'')
                     (map (recorded_finding js) fs) (rebuild \<and> \<not> passed))"

section \<open>What the citation check decides\<close>

text \<open>The fragments occur one after another, with anything between them.\<close>

fun in_order :: "string list \<Rightarrow> string \<Rightarrow> bool" where
  "in_order [] h = True"
| "in_order (f # fs) h = (\<exists>a b. h = a @ f @ b \<and> in_order fs b)"

lemma in_order_longer: "in_order fs h \<Longrightarrow> in_order fs (a @ h)"
proof (cases fs)
  case (Cons f gs)
  assume "in_order fs h"
  with Cons obtain x y where "h = x @ f @ y" "in_order gs y" by auto
  then have "a @ h = (a @ x) @ f @ y" by simp
  with \<open>in_order gs y\<close> Cons show ?thesis by (metis in_order.simps(2))
qed simp

lemma after_first_here [simp]: "after_first p (p @ t) = Some t"
  by (subst after_first.simps) (auto simp: starts_with_iff)

lemma after_first_skip: "\<not> starts_with p (c # cs) \<Longrightarrow> after_first p (c # cs) = after_first p cs"
  by (subst after_first.simps) simp

lemma after_first_none: "\<not> starts_with p [] \<Longrightarrow> after_first p [] = None"
  by (subst after_first.simps) simp

lemma after_first_Some: "after_first p s = Some t \<Longrightarrow> \<exists>a. s = a @ p @ t"
proof (induction s)
  case Nil
  then show ?case
    using after_first_here [of "[]" "[]"]
    by (cases "starts_with p []") (auto simp: starts_with_iff after_first_none)
next
  case (Cons c cs)
  show ?case
  proof (cases "starts_with p (c # cs)")
    case True
    then obtain u where "c # cs = p @ u" by (auto simp: starts_with_iff)
    with Cons.prems have "c # cs = [] @ p @ t" by simp
    then show ?thesis by blast
  next
    case False
    with Cons obtain a where "cs = a @ p @ t" by (auto simp: after_first_skip)
    then have "c # cs = (c # a) @ p @ t" by simp
    then show ?thesis by blast
  qed
qed

lemma after_first_earliest:
  "s = a @ p @ b \<Longrightarrow> \<exists>t x. after_first p s = Some t \<and> t = x @ b"
proof (induction a arbitrary: s)
  case Nil
  then show ?case by simp
next
  case (Cons c a)
  show ?case
  proof (cases "starts_with p s")
    case True
    then obtain t where t: "s = p @ t" by (auto simp: starts_with_iff)
    define xs where "xs = c # a @ p"
    have "p @ t = xs @ b" using t Cons.prems by (simp add: xs_def)
    moreover have "length p \<le> length xs" by (simp add: xs_def)
    ultimately have "t = drop (length p) xs @ b"
      using drop_append [of "length p" xs b] append_eq_conv_conj [of p t] by simp
    with t show ?thesis by (metis after_first_here)
  next
    case False
    with Cons show ?thesis by (simp add: after_first_skip)
  qed
qed

lemma found_in_order_iff: "found_in_order fs h \<longleftrightarrow> in_order fs h"
proof (induction fs arbitrary: h)
  case (Cons f fs)
  show ?case
  proof
    assume "found_in_order (f # fs) h"
    then obtain t where "after_first f h = Some t" "in_order fs t"
      by (auto simp: Cons.IH split: option.splits)
    then show "in_order (f # fs) h" using after_first_Some by fastforce
  next
    assume "in_order (f # fs) h"
    then obtain a b where ab: "h = a @ f @ b" "in_order fs b" by auto
    from after_first_earliest [OF ab(1)] obtain t x where
      "after_first f h = Some t" "t = x @ b" by blast
    with ab(2) in_order_longer show "found_in_order (f # fs) h" by (simp add: Cons.IH)
  qed
qed simp

text \<open>
  The citation check accepts exactly the quotes that are in the brief. A quote passes if and only
  if, after folding case, spacing and punctuation, it has a fragment, at least ten characters and two
  words, and its fragments occur in the folded brief one after another - found by the first match of
  each from where the last one ended, which never misses an occurrence.
\<close>

theorem citation_check_exact:
  "brief_quote_found quote brief \<longleftrightarrow>
     quote_fragments quote \<noteq> []
     \<and> MIN_QUOTE_CHARS \<le> sum_list (map length (quote_fragments quote))
     \<and> 2 \<le> sum_list (map (\<lambda>f. length (split_words [] f)) (quote_fragments quote))
     \<and> in_order (quote_fragments quote) (norm_quote brief)"
  by (simp add: brief_quote_found_def Let_def found_in_order_iff)

section \<open>What a finding may do\<close>

lemma none_no_wrong_problem [simp]: "NOT_WRONG_PROBLEM \<notin> set WRONG_PROBLEM" "[] \<notin> set WRONG_PROBLEM"
  by (simp_all add: NOT_WRONG_PROBLEM_def WRONG_PROBLEM_def)

lemma claim_refused_None:
  "claim_refused claim quote brief looked axis m = None \<longleftrightarrow>
     claim \<in> set WRONG_PROBLEM \<and> quote \<noteq> [] \<and> brief_quote_found quote brief \<and> looked
     \<and> measured_veto claim axis m = None"
  by (simp add: claim_refused_def)

definition claim_of :: "raw_finding \<Rightarrow> string" where
  "claim_of f = lower (strip (rw_wrong_problem f))"

definition claim_stands :: "string \<Rightarrow> measured \<Rightarrow> raw_finding \<Rightarrow> bool" where
  "claim_stands brief m f \<longleftrightarrow>
     claim_refused (claim_of f) (strip (rw_requirement f)) brief (rw_inspected f) (rw_axis_key f) m = None"

lemma claim_stands_named: "claim_stands brief m f \<Longrightarrow> claim_of f \<noteq> [] \<and> claim_of f \<noteq> NOT_WRONG_PROBLEM"
  using none_no_wrong_problem unfolding claim_stands_def claim_refused_None by metis

lemma reason_given:
  "x = [] \<and> \<not> i \<longrightarrow>
     (if x = [] \<and> r = None
      then if i then None
           else if a then Some u else if b then Some v else if c then Some w
           else if d then Some y else Some z
      else r) \<noteq> None"
  by simp

lemma judge_fields:
  assumes "judge brief levers m f = Some j"
  shows "\<not> rw_passed f"
    and "j_blocking j = (if \<not> fea_valid m \<and> claim_stands brief m f then claim_of f else [])"
    and "j_improve j \<longleftrightarrow> brief_quote_found (strip (rw_requirement f)) brief \<and> rw_inspected f
      \<and> lower (strip (rw_builder_change f)) \<in> set levers \<and> strip (rw_change_request f) \<noteq> []
      \<and> \<not> fea_valid m"
    and "j_blocking j = [] \<and> \<not> j_improve j \<longrightarrow> j_reason j \<noteq> None"
proof -
  show p: "\<not> rw_passed f" using assms by (auto simp: judge_def)
  have j: "j = the (judge brief levers m f)" using assms by simp
  show "j_blocking j = (if \<not> fea_valid m \<and> claim_stands brief m f then claim_of f else [])"
    using p claim_stands_named [of brief m f]
    by (simp add: j judge_def Let_def claim_stands_def claim_of_def)
  show "j_improve j \<longleftrightarrow> brief_quote_found (strip (rw_requirement f)) brief \<and> rw_inspected f
      \<and> lower (strip (rw_builder_change f)) \<in> set levers \<and> strip (rw_change_request f) \<noteq> []
      \<and> \<not> fea_valid m"
    using p by (simp only: j judge_def Let_def if_False option.sel Judgement.select_convs conj_assoc)
  show "j_blocking j = [] \<and> \<not> j_improve j \<longrightarrow> j_reason j \<noteq> None"
    unfolding j judge_def Let_def
    using p by (simp only: if_False option.sel Judgement.select_convs) (rule reason_given)
qed

text \<open>
  C29: a review may fail a job only when the mesh is the wrong problem. A finding blocks exactly when
  it did not pass, names a class of the taxonomy, quotes a requirement that is in the brief, was
  backed by an inspection, is contradicted by no measurement, and the mesh is not one the FEA checks
  call valid; it asks for a rebuild exactly when it quotes the brief, was inspected, names a lever
  the builder has and says what to change; and every finding that does neither carries its reason.
\<close>

theorem review_blocks_only_wrong_problem:
  assumes "judge brief levers m f = Some j"
  shows "\<not> rw_passed f
    \<and> (j_blocking j \<noteq> [] \<longleftrightarrow>
         lower (strip (rw_wrong_problem f)) \<in> set WRONG_PROBLEM
         \<and> brief_quote_found (strip (rw_requirement f)) brief \<and> strip (rw_requirement f) \<noteq> []
         \<and> rw_inspected f \<and> \<not> fea_valid m
         \<and> measured_veto (lower (strip (rw_wrong_problem f))) (rw_axis_key f) m = None)
    \<and> j_blocking j \<in> insert [] (set WRONG_PROBLEM)
    \<and> (j_improve j \<longleftrightarrow>
         brief_quote_found (strip (rw_requirement f)) brief \<and> rw_inspected f \<and> \<not> fea_valid m
         \<and> lower (strip (rw_builder_change f)) \<in> set levers
         \<and> strip (rw_change_request f) \<noteq> [])
    \<and> (j_blocking j = [] \<and> \<not> j_improve j \<longrightarrow> j_reason j \<noteq> None)"
proof -
  have nonempty: "w \<in> set WRONG_PROBLEM \<Longrightarrow> w \<noteq> []" for w by auto
  from judge_fields [OF assms] nonempty show ?thesis
    by (auto simp: claim_stands_def claim_of_def claim_refused_None)
qed

definition demo_measured :: measured where
  "demo_measured = \<lparr>m_regions = Some 1, m_body_length = None, m_reference_length = None,
     m_p95_ratio = None, m_frac_beyond = None, m_layer_coverage = None, m_purpose = ''external_cfd'',
     m_fea_valid = False, m_fea_faces_complete = False\<rparr>"

definition demo_finding :: raw_finding where
  "demo_finding = \<lparr>rw_axis_key = ''domain'', rw_passed = False,
     rw_requirement = ''The Wake ... is refined'', rw_severity = [],
     rw_wrong_problem = ''requirement_absent'', rw_builder_change = ''refinement'',
     rw_change_request = ''add a wake box'', rw_inspected = True\<rparr>"

definition demo_judgement :: Judgement where
  "demo_judgement = the (judge ''Note: the WAKE behind the car is refined.'' [''refinement'']
     demo_measured demo_finding)"

lemma demo_judged:
  "judge ''Note: the WAKE behind the car is refined.'' [''refinement''] demo_measured demo_finding
     = Some demo_judgement"
  by (simp add: demo_judgement_def judge_def demo_finding_def Let_def)

theorem review_blocks_only_wrong_problem_witness:
  "j_blocking demo_judgement \<noteq> [] \<and> j_improve demo_judgement"
proof -
  have facts: "brief_quote_found (strip (rw_requirement demo_finding)) ''Note: the WAKE behind the car is refined.''"
    "lower (strip (rw_wrong_problem demo_finding)) \<in> set WRONG_PROBLEM"
    "measured_veto (lower (strip (rw_wrong_problem demo_finding))) (rw_axis_key demo_finding) demo_measured = None"
    "lower (strip (rw_builder_change demo_finding)) \<in> set [''refinement'']"
    "strip (rw_requirement demo_finding) \<noteq> []" "strip (rw_change_request demo_finding) \<noteq> []"
    "\<not> fea_valid demo_measured" "rw_inspected demo_finding"
    by code_simp+
  with review_blocks_only_wrong_problem [OF demo_judged] show ?thesis by simp
qed

section \<open>A valid FEA mesh\<close>

lemma judge_fea: "fea_valid m \<Longrightarrow> judge brief levers m f = Some j \<Longrightarrow> j_blocking j = [] \<and> \<not> j_improve j"
  using judge_fields [of brief levers m f j] by auto

lemma in_map_filter: "y \<in> set (List.map_filter g xs) \<longleftrightarrow> (\<exists>x\<in>set xs. g x = Some y)"
  by (induction xs) (auto simp: map_filter_simps split: option.split)

lemma judge_all_in: "(k, j) \<in> set (judge_all brief levers m fs) \<Longrightarrow> \<exists>f\<in>set fs. judge brief levers m f = Some j"
  by (auto simp: judge_all_def in_map_filter)

text \<open>
  A review explains a valid FEA mesh and never fails it. Whatever the reviewer submitted, once the
  measured checks call an FEA mesh valid the review passes, no recorded finding makes the mesh the
  wrong problem, and none asks for a rebuild.
\<close>

theorem fea_mesh_never_failed:
  assumes "reused_review st ri = None" "executor_success st"
    and "ri_outcome ri = Accepted accepted raw rebuild" "raw \<noteq> []"
    and "fea_valid (ri_measured ri)"
  shows "reviewer_verdict (node_reviewer ri st) = ''PASS''
    \<and> blocking_findings (reviewer_axis_findings (node_reviewer ri st)) = []
    \<and> \<not> asks_for_rebuild (reviewer_axis_findings (node_reviewer ri st))
    \<and> \<not> reviewer_rebuild_required (node_reviewer ri st)"
proof -
  define m where "m = ri_measured ri"
  define fs where "fs = settle raw m"
  define js where "js = judge_all (ri_brief ri) (ri_levers ri) m fs"
  have out: "node_reviewer ri st = review_concludes st ri ''PASS'' (map (recorded_finding js) fs) False"
    using assms by (simp add: node_reviewer_def Let_def review_passes_def m_def fs_def js_def)
  have j: "j_blocking j = [] \<and> \<not> j_improve j" if "map_of (rev js) k = Some j" for k j
    using that judge_all_in [of k j] judge_fea [of m] assms(5)
    by (auto simp: js_def m_def dest!: map_of_SomeD) blast+
  have rec: "f_blocking (recorded_finding js f) = [] \<and> f_improve (recorded_finding js f) \<noteq> Some True" for f
    using j by (auto simp: recorded_finding_def split: option.split)
  have judged: "f_improve (recorded_finding js f) \<noteq> None" if f: "f \<in> set fs" "\<not> rw_passed f" for f
  proof -
    obtain j where j: "judge (ri_brief ri) (ri_levers ri) m f = Some j"
      using f(2) by (simp add: judge_def Let_def)
    have "(rw_axis_key f, j) \<in> set js"
      using f(1) j by (auto simp: js_def judge_all_def in_map_filter)
    then have "rw_axis_key f \<in> fst ` set (rev js)" by (auto simp: image_iff intro: bexI [rotated])
    then have "map_of (rev js) (rw_axis_key f) \<noteq> None" by (simp only: map_of_eq_None_iff) simp
    with f(2) show ?thesis by (auto simp: recorded_finding_def)
  qed
  have "fs \<noteq> []" using assms(4) by (simp add: fs_def settle_def)
  then have "\<not> asks_for_rebuild (map (recorded_finding js) fs)"
    using rec judged
    by (auto simp: asks_for_rebuild_def list_ex_iff recorded_finding_def split: if_splits)
  moreover have "blocking_findings (map (recorded_finding js) fs) = []"
    using rec by (simp add: blocking_findings_def filter_map o_def)
  ultimately show ?thesis by (simp add: out review_concludes_def)
qed

theorem fea_mesh_never_failed_witness:
  "reviewer_verdict (node_reviewer
     \<lparr>ri_evidence_key = ''k'', ri_brief = [], ri_levers = [],
      ri_measured = demo_measured\<lparr>m_purpose := ''structural'', m_fea_valid := True\<rparr>,
      ri_outcome = Accepted False [demo_finding] True\<rparr>
     (initial_state ''gmsh'' ''system'' None\<lparr>executor_success := True\<rparr>)) = ''PASS''"
proof -
  let ?ri = "\<lparr>ri_evidence_key = ''k'', ri_brief = [], ri_levers = [],
      ri_measured = demo_measured\<lparr>m_purpose := ''structural'', m_fea_valid := True\<rparr>,
      ri_outcome = Accepted False [demo_finding] True\<rparr>"
  let ?st = "initial_state ''gmsh'' ''system'' None\<lparr>executor_success := True\<rparr>"
  have "reused_review ?st ?ri = None" by (simp add: reused_review_def initial_state_def)
  moreover have "fea_valid (ri_measured ?ri)" by code_simp
  ultimately show ?thesis using fea_mesh_never_failed [of ?st ?ri False "[demo_finding]" True] by simp
qed

end
