(* ===== verification/Builder.thy ===== *)
theory Builder
  imports Fallback
begin

text \<open>
  The builder's turn (\<open>agents/builder/agent.py\<close>, \<open>attempt.py\<close>, \<open>noop.py\<close>, \<open>no_progress.py\<close>,
  \<open>turn_patch.py\<close>): whether a turn builds at all, what it hands the graph, and how a turn that
  changed nothing is counted.

  What a turn meets is a \<open>turn\<close>: whether the run's time is spent, the failure the previous attempt
  recorded beside its case, whether staging the engine's input failed, the digests of the authored
  files before and after, and how the attempt itself ended. The model conversation and the engine's
  driver are not modelled: their result is \<open>t_api_failure\<close> and \<open>t_driver_stop\<close>, and a pre-flight refusal they leave in the
  workspace is \<open>t_refusal\<close>. An attempt's workspace is named by its number.
\<close>

section \<open>The refusal record\<close>

record refusal =
  rf_gate :: string
  rf_cause :: string
  rf_text :: string
  rf_facts :: facts

definition STAGING_GATE :: string where "STAGING_GATE = ''staging''"

definition attempt_dir :: "nat \<Rightarrow> string" where
  "attempt_dir n = ''attempt_'' @ map (\<lambda>i. CHR ''I'') [0..<n]"

lemma attempt_dir_inj [simp]: "attempt_dir m = attempt_dir n \<longleftrightarrow> m = n"
proof -
  have "length (attempt_dir k) = 8 + k" for k by (simp add: attempt_dir_def)
  then show ?thesis by (metis add_left_cancel)
qed

lemma attempt_dir_nonempty [simp]: "attempt_dir n \<noteq> []"
  by (simp add: attempt_dir_def)

section \<open>A turn that changed nothing\<close>

definition NOOP_LIMIT :: nat where "NOOP_LIMIT = 2"

record NoopVerdict =
  repeated :: bool
  consecutive :: nat
  v_retry_count :: nat

definition assess :: "settings \<Rightarrow> string \<Rightarrow> string \<Rightarrow> nat \<Rightarrow> nat \<Rightarrow> NoopVerdict" where
  "assess cfg before after carried rc =
     (let rep = (before \<noteq> [] \<and> after \<noteq> [] \<and> before = after);
          n = (if rep then carried + 1 else carried)
      in \<lparr>repeated = rep, consecutive = n,
          v_retry_count = (if NOOP_LIMIT \<le> n then MAX_BUILDER_RETRIES cfg + 1 else rc)\<rparr>)"

section \<open>A failure met twice\<close>

type_synonym signature = "string \<times> string \<times> string"

definition failure_signature :: "pstate \<Rightarrow> signature option" where
  "failure_signature st =
     (if classifier_gate st = [] then None
      else Some (classifier_gate st, classifier_section st, classifier_summary st))"

definition repeats_previous :: "nat \<Rightarrow> signature option \<Rightarrow> signature option \<Rightarrow> bool" where
  "repeats_previous attempt sig previous = (sig \<noteq> None \<and> 2 \<le> attempt \<and> previous = sig)"

section \<open>Stopping without building\<close>

definition carried_refusal :: "pstate \<Rightarrow> refusal \<times> bool" where
  "carried_refusal st =
     (let gate = executor_failed_gate st;
          cause = (if gate \<noteq> [] \<and> executor_failure_cause st = []
                   then (case SEAM_CAUSES gate of Some c \<Rightarrow> cause_value c | None \<Rightarrow> [])
                   else executor_failure_cause st)
      in if gate \<noteq> [] \<and> cause \<noteq> [] \<and> \<not> executor_success st
         then (\<lparr>rf_gate = gate, rf_cause = cause, rf_text = executor_output st,
                rf_facts = executor_failure_facts st\<rparr>, True)
         else (\<lparr>rf_gate = ''builder_budget'', rf_cause = cause_value RUN_INFRASTRUCTURE,
                rf_text = ''the run's time was spent before a mesher started'',
                rf_facts = no_facts\<lparr>ours := True, before_meshing := True\<rparr>\<rparr>, False))"

section \<open>The patch a turn hands the graph\<close>

record patch =
  p_workspace :: string
  p_retry_count :: nat
  p_noop_count :: nat
  p_api_failure :: string
  p_stop :: string

definition apply_patch :: "patch \<Rightarrow> pstate \<Rightarrow> pstate" where
  "apply_patch p st =
     (let s1 = st\<lparr>retry_count := p_retry_count p, openfoam_workspace := p_workspace p\<rparr>;
          s2 = (if p_api_failure p \<noteq> [] then s1\<lparr>api_failure := p_api_failure p\<rparr>
                else s1\<lparr>builder_noop_count := p_noop_count p\<rparr>);
          s3 = (if p_api_failure p = [] \<and> p_stop p = [] then s2\<lparr>review_rerun_count := 0\<rparr> else s2)
      in if p_stop p = [] then s3 else s3\<lparr>builder_stop := p_stop p\<rparr>)"

definition stop_without_building :: "settings \<Rightarrow> pstate \<Rightarrow> string \<Rightarrow> patch \<times> refusal option" where
  "stop_without_building cfg st stopped =
     (if executor_success st
      then (\<lparr>p_workspace = (if openfoam_workspace st = [] then attempt_dir (retry_count st + 1)
                            else openfoam_workspace st),
             p_retry_count = retry_count st, p_noop_count = builder_noop_count st,
             p_api_failure = [], p_stop = ''builder_'' @ stopped\<rparr>, None)
      else (\<lparr>p_workspace = attempt_dir (retry_count st + 1),
             p_retry_count = MAX_BUILDER_RETRIES cfg + 1, p_noop_count = builder_noop_count st,
             p_api_failure = [], p_stop = []\<rparr>, Some (fst (carried_refusal st))))"

section \<open>The turn\<close>

datatype staging = Staged | StagingOurs | StagingRefused

record turn =
  t_exhausted :: bool
  t_previous :: "signature option"
  t_staging :: staging
  t_staging_refusal :: refusal
  t_before :: string
  t_after :: string
  t_api_failure :: string
  t_driver_stop :: string
  t_refusal :: "refusal option"

definition STAGING_SYSTEM_FAILURE :: string where
  "STAGING_SYSTEM_FAILURE = ''<<API_FAILURE:builder_staging_system>>''"

definition STOP_REVIEWED_CASE_REPEATS :: string where
  "STOP_REVIEWED_CASE_REPEATS = ''reviewed_case_repeats''"

definition review_caused_retry :: "pstate \<Rightarrow> bool" where
  "review_caused_retry st = (error_source st = ''reviewer_fail'' \<and> user_dispute st = None)"

definition is_retry :: "pstate \<Rightarrow> bool" where
  "is_retry st = (builder_mode st = ''retry'')"

definition noop_verdict :: "settings \<Rightarrow> turn \<Rightarrow> pstate \<Rightarrow> NoopVerdict" where
  "noop_verdict cfg t st =
     (if t_staging t = StagingRefused
      then \<lparr>repeated = False, consecutive = builder_noop_count st, v_retry_count = retry_count st + 1\<rparr>
      else let before = (if is_retry st then t_before t else []) in
           assess cfg before (if before = [] then [] else t_after t) (builder_noop_count st)
             (retry_count st + 1))"

definition builder_patch :: "settings \<Rightarrow> turn \<Rightarrow> pstate \<Rightarrow> patch \<times> refusal option" where
  "builder_patch cfg t st =
     (let rc = retry_count st + 1; ws = attempt_dir rc; sig = failure_signature st;
          refused = (case t_staging t of Staged \<Rightarrow> t_refusal t | _ \<Rightarrow> Some (t_staging_refusal t))
      in
      if t_exhausted t then stop_without_building cfg st ''time_spent''
      else if is_retry st \<and> repeats_previous rc sig (t_previous t)
      then stop_without_building cfg st ''no_progress''
      else if t_staging t = StagingOurs
      then (\<lparr>p_workspace = ws, p_retry_count = rc, p_noop_count = 0,
             p_api_failure = STAGING_SYSTEM_FAILURE, p_stop = []\<rparr>, refused)
      else if t_staging t = Staged \<and> t_api_failure t \<noteq> []
      then (\<lparr>p_workspace = ws, p_retry_count = rc, p_noop_count = 0,
             p_api_failure = t_api_failure t, p_stop = []\<rparr>, refused)
      else
        let v = noop_verdict cfg t st in
            if (t_staging t = Staged \<and> t_driver_stop t = STOP_REVIEWED_CASE_REPEATS)
               \<or> (repeated v \<and> review_caused_retry st)
            then (\<lparr>p_workspace = (if openfoam_workspace st = [] then ws else openfoam_workspace st),
                   p_retry_count = retry_count st, p_noop_count = builder_noop_count st,
                   p_api_failure = [], p_stop = STOP_REVIEWED_CASE_REPEATS\<rparr>, refused)
            else (\<lparr>p_workspace = ws, p_retry_count = v_retry_count v, p_noop_count = consecutive v,
                   p_api_failure = [], p_stop = []\<rparr>, refused))"

text \<open>The node returns the state and the refusal record left in the attempt's workspace.\<close>

definition node_builder :: "settings \<Rightarrow> turn \<Rightarrow> pstate \<Rightarrow> pstate \<times> refusal option" where
  "node_builder cfg t st =
     (apply_patch (fst (builder_patch cfg t st)) st, snd (builder_patch cfg t st))"

section \<open>What a turn may do\<close>

text \<open>The fields a turn writes are the ones the builder owns.\<close>

lemma apply_patch_frame [simp]:
  "engine (apply_patch p st) = engine st"
  "engine_source (apply_patch p st) = engine_source st"
  "user_dispute (apply_patch p st) = user_dispute st"
  "ladder_record (apply_patch p st) = ladder_record st"
  "rung_record (apply_patch p st) = rung_record st"
  "infra_retry_count (apply_patch p st) = infra_retry_count st"
  "guard_replay_count (apply_patch p st) = guard_replay_count st"
  "executor_success (apply_patch p st) = executor_success st"
  "executor_failed_gate (apply_patch p st) = executor_failed_gate st"
  "executor_failure_cause (apply_patch p st) = executor_failure_cause st"
  "executor_failure_facts (apply_patch p st) = executor_failure_facts st"
  "requirement_caveats (apply_patch p st) = requirement_caveats st"
  "geometry_unsuitable_reason (apply_patch p st) = geometry_unsuitable_reason st"
  "review_history (apply_patch p st) = review_history st"
  "reviewer_verdict (apply_patch p st) = reviewer_verdict st"
  "reviewer_axis_findings (apply_patch p st) = reviewer_axis_findings st"
  "sound_attempts (apply_patch p st) = sound_attempts st"
  "retry_count (apply_patch p st) = p_retry_count p"
  "openfoam_workspace (apply_patch p st) = p_workspace p"
  by (simp_all add: apply_patch_def Let_def)

text \<open>A turn ends in one of four ways.\<close>

definition failed_turn :: "settings \<Rightarrow> turn \<Rightarrow> pstate \<Rightarrow> bool" where
  "failed_turn cfg t st \<longleftrightarrow> p_api_failure (fst (builder_patch cfg t st)) \<noteq> []"

definition stopped_turn :: "settings \<Rightarrow> turn \<Rightarrow> pstate \<Rightarrow> bool" where
  "stopped_turn cfg t st \<longleftrightarrow> p_stop (fst (builder_patch cfg t st)) \<noteq> []"

lemma turn_ends:
  obtains (Failed) "p_api_failure (fst (builder_patch cfg t st)) \<noteq> []"
      "p_stop (fst (builder_patch cfg t st)) = []"
      "p_retry_count (fst (builder_patch cfg t st)) = retry_count st + 1"
  | (Stopped) "p_api_failure (fst (builder_patch cfg t st)) = []"
      "p_stop (fst (builder_patch cfg t st)) \<noteq> []"
      "p_retry_count (fst (builder_patch cfg t st)) = retry_count st"
      "openfoam_workspace st \<noteq> [] \<longrightarrow> p_workspace (fst (builder_patch cfg t st)) = openfoam_workspace st"
  | (Built) "p_api_failure (fst (builder_patch cfg t st)) = []"
      "p_stop (fst (builder_patch cfg t st)) = []"
      "p_retry_count (fst (builder_patch cfg t st)) = retry_count st + 1
       \<or> p_retry_count (fst (builder_patch cfg t st)) = MAX_BUILDER_RETRIES cfg + 1
         \<and> (\<not> executor_success st \<or> NOOP_LIMIT \<le> p_noop_count (fst (builder_patch cfg t st)))"
      "p_workspace (fst (builder_patch cfg t st)) = attempt_dir (retry_count st + 1)"
proof -
  let ?p = "fst (builder_patch cfg t st)"
  have "(p_api_failure ?p \<noteq> [] \<and> p_stop ?p = [] \<and> p_retry_count ?p = retry_count st + 1)
    \<or> (p_api_failure ?p = [] \<and> p_stop ?p \<noteq> [] \<and> p_retry_count ?p = retry_count st
        \<and> (openfoam_workspace st \<noteq> [] \<longrightarrow> p_workspace ?p = openfoam_workspace st))
    \<or> (p_api_failure ?p = [] \<and> p_stop ?p = []
        \<and> (p_retry_count ?p = retry_count st + 1
             \<or> p_retry_count ?p = MAX_BUILDER_RETRIES cfg + 1
               \<and> (\<not> executor_success st \<or> NOOP_LIMIT \<le> p_noop_count ?p))
        \<and> p_workspace ?p = attempt_dir (retry_count st + 1))"
    by (cases "t_staging t")
       (simp_all add: builder_patch_def stop_without_building_def noop_verdict_def assess_def
          STAGING_SYSTEM_FAILURE_def STOP_REVIEWED_CASE_REPEATS_def Let_def)
  then show ?thesis using that by blast
qed

end
