(* ===== verification/WorkLimits.thy ===== *)
theory WorkLimits
  imports Prelude
begin

text \<open>
  Planned work and its guard clock (\<open>contracts/work_limits.py\<close>): a step's guard is computed from its
  planned work alone, within the step's floor and ceiling, and can be decided again from the
  recorded plan; a guard that trips replays the attempt once and then ends the run. Seconds are
  rationals, and \<open>int(...)\<close> of a non-negative number is its floor.
\<close>

datatype time_rule =
    TIME_PLANNED_WORK | TIME_GUARD | TIME_TRIP | TIME_WAIT | TIME_JOB_GUARD | TIME_REPAIR_CLOCK
  | TIME_REPAIR_WORK | TIME_KEEP_VALID

definition NOT_ATTEMPT_ENDING :: "time_rule list" where
  "NOT_ATTEMPT_ENDING = [TIME_WAIT, TIME_KEEP_VALID]"

record guard_trip =
  trip_where :: string
  trip_rule :: "time_rule option"

definition ends_attempt :: "guard_trip \<Rightarrow> bool" where
  "ends_attempt t = (case trip_rule t of None \<Rightarrow> True | Some r \<Rightarrow> r \<notin> set NOT_ATTEMPT_ENDING)"

definition GUARD_FACTOR :: rat where "GUARD_FACTOR = 3"
definition GUARD_REPLAYS :: nat where "GUARD_REPLAYS = 1"

definition FILL_RATES :: "string \<Rightarrow> rat option" where
  "FILL_RATES e =
     (if e = ''snappy'' then Some 1500 else if e = ''cfmesh'' then Some 1200
      else if e = ''vmtk'' then Some 4000 else None)"

definition FLOORS_S :: "string \<Rightarrow> rat option" where
  "FLOORS_S e =
     (if e = ''snappy'' then Some 2400 else if e = ''cfmesh'' then Some 1200
      else if e = ''vmtk'' then Some 3000 else if e = ''gmsh'' then Some 1500
      else if e = ''snappy_multiregion'' then Some 3000 else if e = ''snapgrid'' then Some 3600
      else None)"

definition CEILINGS_S :: "string \<Rightarrow> rat option" where
  "CEILINGS_S e =
     (if e = ''snappy'' then Some 4800 else if e = ''cfmesh'' then Some 3000
      else if e = ''vmtk'' then Some 3000 else if e = ''gmsh'' then Some 1500
      else if e = ''snappy_multiregion'' then Some 3000 else if e = ''snapgrid'' then Some 3600
      else None)"

definition guard_seconds :: "rat option \<Rightarrow> rat \<Rightarrow> rat \<Rightarrow> rat \<Rightarrow> int" where
  "guard_seconds planned floor_s ceiling_s factor =
     (let lo = max 1 floor_s; hi = max lo ceiling_s in
      case planned of
        None \<Rightarrow> \<lfloor>lo\<rfloor>
      | Some p \<Rightarrow> if p \<le> 0 then \<lfloor>lo\<rfloor> else \<lfloor>min hi (max lo (factor * p))\<rfloor>)"

record PlannedWork =
  pw_where :: string
  pw_unit :: string
  pw_amount :: "rat option"
  pw_rate :: "rat option"
  pw_floor :: rat
  pw_ceiling :: rat
  pw_steps :: rat

definition planned_seconds :: "PlannedWork \<Rightarrow> rat option" where
  "planned_seconds w =
     (case (pw_amount w, pw_rate w) of
        (Some a, Some r) \<Rightarrow> if a \<le> 0 \<or> r \<le> 0 then None else Some (a / r * max 1 (pw_steps w))
      | _ \<Rightarrow> None)"

definition work_guard :: "PlannedWork \<Rightarrow> int" where
  "work_guard w = guard_seconds (planned_seconds w) (pw_floor w) (pw_ceiling w) GUARD_FACTOR"

definition guard_for ::
  "string \<Rightarrow> rat option \<Rightarrow> rat \<Rightarrow> rat option \<Rightarrow> rat option \<Rightarrow> PlannedWork"
where
  "guard_for e cells steps floor_s ceiling_s =
     (let lo = (case floor_s of Some f \<Rightarrow> f | None \<Rightarrow> or_else (FLOORS_S e) 1800);
          hi = (case ceiling_s of Some c \<Rightarrow> c | None \<Rightarrow> or_else (CEILINGS_S e) lo)
      in \<lparr>pw_where = e, pw_unit = ''cells'',
          pw_amount = (case cells of Some c \<Rightarrow> if c = 0 then None else Some c | None \<Rightarrow> None),
          pw_rate = FILL_RATES e, pw_floor = lo, pw_ceiling = hi, pw_steps = steps\<rparr>)"

text \<open>
  The record of a step's plan, and the guard decided again from it. A zero number reads as absent
  (\<open>inputs.get(...) or 1.0\<close>).
\<close>

record work_record =
  wr_where :: string
  wr_unit :: string
  wr_amount :: "rat option"
  wr_rate :: "rat option"
  wr_floor :: "rat option"
  wr_ceiling :: "rat option"
  wr_steps :: "rat option"
  wr_planned :: "rat option"
  wr_guard :: int

definition as_dict :: "PlannedWork \<Rightarrow> work_record" where
  "as_dict w = \<lparr>wr_where = pw_where w, wr_unit = pw_unit w, wr_amount = pw_amount w,
     wr_rate = pw_rate w, wr_floor = Some (pw_floor w), wr_ceiling = Some (pw_ceiling w),
     wr_steps = Some (pw_steps w), wr_planned = planned_seconds w, wr_guard = work_guard w\<rparr>"

definition or_one :: "rat option \<Rightarrow> rat" where
  "or_one x = (case x of None \<Rightarrow> 1 | Some v \<Rightarrow> if v = 0 then 1 else v)"

definition work_limit :: "work_record \<Rightarrow> int \<times> time_rule" where
  "work_limit r =
     (work_guard \<lparr>pw_where = wr_where r, pw_unit = wr_unit r, pw_amount = wr_amount r,
        pw_rate = wr_rate r, pw_floor = or_one (wr_floor r), pw_ceiling = or_one (wr_ceiling r),
        pw_steps = or_one (wr_steps r)\<rparr>, TIME_GUARD)"

datatype trip_outcome = REPLAY | RAN_OUT_OF_TIME

definition after_trip :: "nat \<Rightarrow> nat option \<Rightarrow> trip_outcome \<times> time_rule" where
  "after_trip replays allowed =
     (if replays < or_else allowed GUARD_REPLAYS then REPLAY else RAN_OUT_OF_TIME, TIME_TRIP)"

section \<open>What a guard is\<close>

lemma guard_seconds_bounds:
  "\<lfloor>max 1 floor_s\<rfloor> \<le> guard_seconds planned floor_s ceiling_s factor
   \<and> guard_seconds planned floor_s ceiling_s factor \<le> \<lfloor>max (max 1 floor_s) ceiling_s\<rfloor>"
  by (auto simp: guard_seconds_def Let_def split: option.split intro!: floor_mono)

lemma guard_seconds_mono:
  assumes "0 \<le> factor" "p \<le> q"
  shows "guard_seconds (Some p) floor_s ceiling_s factor \<le> guard_seconds (Some q) floor_s ceiling_s factor"
proof -
  have "factor * p \<le> factor * q" using assms by (simp add: mult_left_mono)
  then show ?thesis
    using assms by (auto simp: guard_seconds_def Let_def intro!: floor_mono)
qed

text \<open>
  A guard is decided by planned work. It is never under the step's old cap nor over its ceiling
  (the cap winning when they cross), more planned work never gets a shorter guard, and the plan as
  recorded decides exactly the guard the step was given, on any machine at any later time.
\<close>

theorem guard_from_planned_work:
  fixes w :: PlannedWork
  shows "\<lfloor>max 1 (pw_floor w)\<rfloor> \<le> work_guard w
   \<and> work_guard w \<le> \<lfloor>max (max 1 (pw_floor w)) (pw_ceiling w)\<rfloor>
   \<and> (\<forall>a b. pw_amount w = Some a \<and> 0 < a \<and> a \<le> b \<longrightarrow> work_guard w \<le> work_guard (w\<lparr>pw_amount := Some b\<rparr>))
   \<and> work_limit (as_dict w) = (work_guard w, TIME_GUARD)
   \<and> wr_guard (as_dict w) = work_guard w"
proof (intro conjI allI impI)
  show "\<lfloor>max 1 (pw_floor w)\<rfloor> \<le> work_guard w"
    and "work_guard w \<le> \<lfloor>max (max 1 (pw_floor w)) (pw_ceiling w)\<rfloor>"
    by (simp_all add: work_guard_def guard_seconds_bounds)
next
  fix a b
  assume "pw_amount w = Some a \<and> 0 < a \<and> a \<le> b"
  then have a: "pw_amount w = Some a" "0 < a" "a \<le> b" by simp_all
  show "work_guard w \<le> work_guard (w\<lparr>pw_amount := Some b\<rparr>)"
  proof (cases "pw_rate w")
    case None
    with a show ?thesis by (simp add: work_guard_def planned_seconds_def)
  next
    case (Some r)
    show ?thesis
    proof (cases "r \<le> 0")
      case True
      with Some a show ?thesis by (simp add: work_guard_def planned_seconds_def)
    next
      case False
      have "a / r * max 1 (pw_steps w) \<le> b / r * max 1 (pw_steps w)"
        using False a by (intro mult_right_mono divide_right_mono) auto
      with False Some a show ?thesis
        by (simp add: work_guard_def planned_seconds_def GUARD_FACTOR_def guard_seconds_mono)
    qed
  qed
next
  have one: "max 1 (or_one (Some v)) = max 1 v" for v by (simp add: or_one_def)
  have lim: "guard_seconds p (or_one (Some f)) (or_one (Some c)) k = guard_seconds p f c k" for p f c k
  proof -
    have "max (max 1 f) (or_one (Some c)) = max (max 1 f) c" by (auto simp: or_one_def max_def)
    then show ?thesis by (cases p) (simp_all add: guard_seconds_def one Let_def)
  qed
  show "work_limit (as_dict w) = (work_guard w, TIME_GUARD)"
    by (cases "pw_amount w"; cases "pw_rate w")
       (simp_all add: work_limit_def as_dict_def work_guard_def planned_seconds_def lim one)
  show "wr_guard (as_dict w) = work_guard w" by (simp add: as_dict_def)
qed

theorem guard_from_planned_work_witness:
  "work_guard (guard_for ''snappy'' (Some 2000000) 1 None None) = 4000
   \<and> work_guard (guard_for ''snappy'' (Some 2000000) 1 None None)
       \<le> work_guard (guard_for ''snappy'' (Some 2000000) 1 None None\<lparr>pw_amount := Some 9000000\<rparr>)"
proof -
  let ?w = "guard_for ''snappy'' (Some 2000000) 1 None None"
  have g: "work_guard ?w = 4000"
    by (simp add: work_guard_def guard_for_def planned_seconds_def guard_seconds_def FLOORS_S_def
        CEILINGS_S_def FILL_RATES_def GUARD_FACTOR_def Let_def)
  have "pw_amount ?w = Some 2000000" by (simp add: guard_for_def Let_def)
  with guard_from_planned_work [of ?w] g show ?thesis by simp
qed

end
