(* ===== verification/Errors.thy ===== *)
theory Errors
  imports Jobs
begin

text \<open>
  The failure vocabulary (\<open>errors.py\<close>): classifying a raw exception or a provider failure marker,
  what each class lets a user be told, and the stored reason. The functions are pure; a Python
  exception is given by what the code inspects of it: its type's name, its text, and whether it is
  a \<open>SystemFailure\<close>, a \<open>MemoryError\<close> or an \<open>OSError\<close>.
\<close>

datatype FailureClass =
    USER_INPUT | DOMAIN_REJECTED | NOT_AUTHORIZED | DATA_INTEGRITY
  | PROVIDER_TRANSIENT | PROVIDER_DOWN | DEPENDENCY_DOWN | RESOURCE | INTERNAL
  | WORKER_LOST | NEVER_STARTED | REVIEW_EVIDENCE_MISSING

definition is_system :: "FailureClass \<Rightarrow> bool" where
  "is_system c \<longleftrightarrow> c \<in> {PROVIDER_TRANSIENT, PROVIDER_DOWN, DEPENDENCY_DOWN, RESOURCE, INTERNAL,
     REVIEW_EVIDENCE_MISSING, DATA_INTEGRITY, WORKER_LOST, NEVER_STARTED}"

definition is_retryable :: "FailureClass \<Rightarrow> bool" where
  "is_retryable c \<longleftrightarrow> c \<in> {PROVIDER_TRANSIENT, DEPENDENCY_DOWN}"

record SystemFailure =
  dependency :: string
  failure_class :: FailureClass
  operator_detail :: string

datatype exn_kind = MemoryErr | OSErr | OtherErr

datatype exn = Raised (exn_name: string) (exn_text: string) exn_kind | RaisedSystem SystemFailure

section \<open>Classifying an exception\<close>

definition TIMEOUT_NAMES :: "string list" where
  "TIMEOUT_NAMES = [''Timeout'', ''TimeoutError'', ''TimeoutExpired'', ''ReadTimeout'',
     ''ConnectTimeout'', ''APITimeoutError'']"

definition CONN_NAMES :: "string list" where
  "CONN_NAMES = [''ConnectionError'', ''ConnectError'', ''APIConnectionError'',
     ''RemoteProtocolError'', ''ConnectionRefusedError'', ''OperationalError'',
     ''InterfaceError'', ''RedisConnectionError'', ''TooManyConnections'', ''CannotConnectNow'',
     ''ConnectionDoesNotExist'', ''ConnectionFailure'']"

definition CONN_MESSAGES :: "string list" where
  "CONN_MESSAGES = [''remaining connection slots are reserved'', ''too many clients already'',
     ''sorry, too many clients'', ''the database system is starting up'',
     ''the database system is shutting down'']"

definition BUSY_NAMES :: "string list" where
  "BUSY_NAMES = [''TooManyConnections'', ''CannotConnectNow'']"

definition RATE_NAMES :: "string list" where
  "RATE_NAMES = [''RateLimitError'', ''TooManyRequests'']"

definition SERVER_NAMES :: "string list" where
  "SERVER_NAMES = [''InternalServerError'', ''ServiceUnavailable'', ''BadGateway'',
     ''ServerError'', ''S3Error'', ''MinioException'']"

definition any_in :: "string list \<Rightarrow> string \<Rightarrow> bool" where
  "any_in ts s = list_ex (\<lambda>t. contains t s) ts"

definition is_database_busy :: "string \<Rightarrow> string \<Rightarrow> bool" where
  "is_database_busy name text = (any_in BUSY_NAMES name \<or> any_in CONN_MESSAGES (lower text))"

definition system_failure :: "string \<Rightarrow> FailureClass \<Rightarrow> string \<Rightarrow> string \<Rightarrow> SystemFailure" where
  "system_failure dep cls detail cause_text =
     \<lparr>dependency = dep, failure_class = cls,
      operator_detail = (if detail = [] then cause_text else detail)\<rparr>"

definition exception_class :: "string \<Rightarrow> string \<Rightarrow> exn_kind \<Rightarrow> FailureClass" where
  "exception_class name text kind =
     (if any_in RATE_NAMES name then PROVIDER_TRANSIENT
      else if any_in TIMEOUT_NAMES name
      then (if contains ''Expired'' name then RESOURCE else PROVIDER_TRANSIENT)
      else if any_in CONN_NAMES name \<or> any_in CONN_MESSAGES (lower text) then DEPENDENCY_DOWN
      else if any_in SERVER_NAMES name then PROVIDER_TRANSIENT
      else case kind of MemoryErr \<Rightarrow> RESOURCE | OSErr \<Rightarrow> RESOURCE | OtherErr \<Rightarrow> INTERNAL)"

fun classify_exception :: "exn \<Rightarrow> string \<Rightarrow> SystemFailure" where
  "classify_exception (RaisedSystem f) dep = f"
| "classify_exception (Raised name text kind) dep =
     system_failure dep (exception_class name text kind) (name @ '': '' @ text) text"

text \<open>
  An exception classifies itself once. A \<open>SystemFailure\<close> passes through unchanged; any other
  exception becomes one of five system classes, never a class that blames the user's input; and a
  database that answers "not now" is a dependency outage, unless the exception's name is a rate
  limit's or a timeout's.
\<close>

theorem classify_exception_spec:
  "classify_exception (RaisedSystem f) dep = f
   \<and> classify_exception (RaisedSystem (classify_exception e dep)) dep2 = classify_exception e dep
   \<and> (let c = failure_class (classify_exception (Raised name text kind) dep) in
        c \<in> {PROVIDER_TRANSIENT, DEPENDENCY_DOWN, RESOURCE, INTERNAL} \<and> is_system c
        \<and> (is_database_busy name text \<longrightarrow>
             c = DEPENDENCY_DOWN \<or> any_in RATE_NAMES name \<or> any_in TIMEOUT_NAMES name))"
proof -
  have busy: "any_in BUSY_NAMES name \<Longrightarrow> any_in CONN_NAMES name"
    by (auto simp: any_in_def BUSY_NAMES_def CONN_NAMES_def)
  show ?thesis
    using busy
    by (auto simp: exception_class_def system_failure_def Let_def is_system_def
          is_database_busy_def split: exn_kind.splits)
qed

theorem classify_exception_spec_witness:
  "failure_class (classify_exception
      (Raised ''TooManyConnectionsError'' ''sorry, too many clients already'' OtherErr) ''db'')
     = DEPENDENCY_DOWN"
proof -
  let ?n = "''TooManyConnectionsError''" and ?t = "''sorry, too many clients already''"
  have "is_database_busy ?n ?t" "\<not> any_in RATE_NAMES ?n" "\<not> any_in TIMEOUT_NAMES ?n"
    by code_simp+
  with classify_exception_spec [of undefined "''db''" "RaisedSystem undefined" undefined ?n ?t OtherErr]
  show ?thesis by (simp add: Let_def)
qed

section \<open>Classifying a provider's failure marker\<close>

definition EXACT_MARKER_CLASS :: "(string \<times> FailureClass) list" where
  "EXACT_MARKER_CLASS =
    [(''reviewer_evidence_missing'', REVIEW_EVIDENCE_MISSING),
     (''reviewer_render_unavailable'', REVIEW_EVIDENCE_MISSING),
     (''reviewer_exhausted'', REVIEW_EVIDENCE_MISSING),
     (''reviewer_stalled'', REVIEW_EVIDENCE_MISSING),
     (''reviewer_crashed'', REVIEW_EVIDENCE_MISSING),
     (''builder_staging_system'', PROVIDER_TRANSIENT)]"

definition bare_marker :: "string \<Rightarrow> string" where
  "bare_marker s =
     (if starts_with ''<<api_failure:'' s \<and> ends_with ''>>'' s
      then strip (take (length s - 2 - 14) (drop 14 s)) else s)"

definition classify_api_failure :: "string \<Rightarrow> FailureClass" where
  "classify_api_failure marker =
     (let s = lower marker; bare = bare_marker s in
      case map_of EXACT_MARKER_CLASS bare of
        Some c \<Rightarrow> c
      | None \<Rightarrow>
          if bare = ''non_transient'' \<or> ends_with ''_non_transient'' bare then PROVIDER_DOWN
          else if contains ''rate'' s then PROVIDER_TRANSIENT
          else if contains ''timeout'' s \<or> contains ''transient'' s \<or> contains ''unavailable'' s
                  \<or> contains ''empty_response'' s then PROVIDER_TRANSIENT
          else if contains ''connection'' s \<or> contains ''down'' s then DEPENDENCY_DOWN
          else PROVIDER_DOWN)"

lemma exact_markers_are_not_non_transient:
  "map_of EXACT_MARKER_CLASS (x @ ''_non_transient'') = None"
proof -
  have "last (x @ ''_non_transient'') = CHR ''t'' \<and> CHR ''n'' = last (butlast (x @ ''_non_transient''))"
    by (simp add: butlast_append)
  then show ?thesis
    by (auto simp: EXACT_MARKER_CLASS_def simp del: last_appendR)
qed

lemma bare_marker_suffix:
  "bare_marker (x @ ''_non_transient'') = x @ ''_non_transient''"
  by (simp add: bare_marker_def ends_with_def)

lemma bare_marker_wrapped:
  "\<exists>y. bare_marker (''<<api_failure:'' @ x @ ''_non_transient>>'') = y @ ''_non_transient''"
  using strip_suffix [of "''_non_transient''" x]
  by (simp add: bare_marker_def ends_with_def is_space_def)

text \<open>
  A non-transient failure is never retried. For every role, the marker
  \<open><role>_non_transient\<close> - bare or wrapped, in any letter case - is classified as the non-retryable
  \<open>PROVIDER_DOWN\<close>, although it contains the substring "transient" and the role may contain "rate".
\<close>

theorem non_transient_never_retryable:
  "classify_api_failure (role @ ''_non_transient'') = PROVIDER_DOWN
   \<and> classify_api_failure (''<<API_FAILURE:'' @ role @ ''_non_transient>>'') = PROVIDER_DOWN
   \<and> \<not> is_retryable (classify_api_failure (role @ ''_NON_TRANSIENT''))"
proof -
  have low: "lower ''_non_transient'' = ''_non_transient''" "lower ''_NON_TRANSIENT'' = ''_non_transient''"
    "lower ''<<API_FAILURE:'' = ''<<api_failure:''" "lower ''_non_transient>>'' = ''_non_transient>>''"
    by code_simp+
  have down: "bare_marker s = y @ ''_non_transient'' \<Longrightarrow> lower m = s \<Longrightarrow>
      classify_api_failure m = PROVIDER_DOWN" for s y m
    by (auto simp: classify_api_failure_def Let_def exact_markers_are_not_non_transient ends_with_iff
          split: option.splits)
  obtain y where y: "bare_marker (''<<api_failure:'' @ lower role @ ''_non_transient>>'')
      = y @ ''_non_transient''"
    using bare_marker_wrapped by blast
  have "classify_api_failure (role @ ''_non_transient'') = PROVIDER_DOWN"
    by (rule down [OF bare_marker_suffix]) (simp only: lower_append low)
  moreover have "classify_api_failure (role @ ''_NON_TRANSIENT'') = PROVIDER_DOWN"
    by (rule down [OF bare_marker_suffix]) (simp only: lower_append low)
  moreover have "classify_api_failure (''<<API_FAILURE:'' @ role @ ''_non_transient>>'') = PROVIDER_DOWN"
    by (rule down [OF y]) (simp only: lower_append low)
  ultimately show ?thesis by (simp add: is_retryable_def)
qed

section \<open>What a user is told, and what is stored\<close>

fun USER_MESSAGES :: "FailureClass \<Rightarrow> string option" where
  \<open>USER_MESSAGES REVIEW_EVIDENCE_MISSING = Some (
     ''The review did not produce findings for all required quality criteria, so we '' @
     ''could not verify your mesh. This is on our side, not a problem with your '' @
     ''geometry or request. Please try again - we apologise for the inconvenience.'')\<close>
| \<open>USER_MESSAGES PROVIDER_TRANSIENT = Some (
     ''Some of our systems are temporarily experiencing issues, so we couldn't '' @
     ''complete your mesh job right now. This is on our side, not a problem with '' @
     ''your geometry or request. Please try again in a few minutes - we apologise '' @
     ''for the inconvenience.'')\<close>
| \<open>USER_MESSAGES PROVIDER_DOWN = Some (
     ''One of the AI services this pipeline depends on is currently unavailable, so '' @
     ''we couldn't complete your mesh job. This is on our side. Please try again '' @
     ''shortly - we apologise for the inconvenience.'')\<close>
| \<open>USER_MESSAGES DEPENDENCY_DOWN = Some (
     ''We're having trouble reaching part of our infrastructure right now, so we '' @
     ''couldn't complete your mesh job. This is a temporary issue on our side - '' @
     ''please try again in a few minutes.'')\<close>
| \<open>USER_MESSAGES RESOURCE = Some (
     ''Your mesh job ran into a resource limit on our side before it could finish. '' @
     ''This is not a problem with your request. Please try again shortly; if it '' @
     ''keeps happening, let us know.'')\<close>
| \<open>USER_MESSAGES INTERNAL = Some (
     ''Something went wrong on our side while processing your mesh job. This is not '' @
     ''a problem with your geometry or request. Please try again in a few minutes - '' @
     ''we apologise for the inconvenience.'')\<close>
| \<open>USER_MESSAGES NOT_AUTHORIZED = Some (
     ''That geometry isn't available on this account, so we couldn't start the mesh '' @
     ''job. If you expected it to be here, please upload it again.'')\<close>
| \<open>USER_MESSAGES DATA_INTEGRITY = Some (
     ''We couldn't confirm that the stored geometry is exactly the file you '' @
     ''approved, so we stopped rather than mesh the wrong thing. This is on our '' @
     ''side. Please upload the geometry again - we apologise for the inconvenience.'')\<close>
| \<open>USER_MESSAGES WORKER_LOST = Some (
     ''The worker running this job was lost before it finished, so the run was '' @
     ''marked failed. This is on our side, not your geometry or request - please try '' @
     ''again: say "run it again" in this chat to start a new run.'')\<close>
| \<open>USER_MESSAGES NEVER_STARTED = Some (
     ''No worker picked this run up, so it never started and was marked failed. This '' @
     ''is on our side, not your geometry or request - please try again: say "run it '' @
     ''again" in this chat to start it again.'')\<close>
| "USER_MESSAGES _ = None"

fun DOMAIN_MESSAGES :: "FailureClass \<Rightarrow> (string \<times> string) option" where
  \<open>DOMAIN_MESSAGES USER_INPUT = Some (
     ''This run could not start because of the upload, not our systems'',
     ''Upload the file again and start a new run.'')\<close>
| \<open>DOMAIN_MESSAGES DOMAIN_REJECTED = Some (
     ''This geometry cannot be meshed as it is - the problem is in the geometry '' @
     ''file, not our systems'',
     ''Fix the geometry and upload it again.'')\<close>
| "DOMAIN_MESSAGES _ = None"

text \<open>
  \<open>user_message_for\<close> folds a reason into the sentence of the two domain classes only.
\<close>

definition user_message_for :: "FailureClass \<Rightarrow> string \<Rightarrow> string" where
  "user_message_for fc reason =
     (case DOMAIN_MESSAGES fc of
        Some (lead, next_step) \<Rightarrow>
          let r = rstrip_char (CHR ''.'') (unwords (split_words [] reason))
          in if r \<noteq> [] then lead @ '': '' @ r @ ''. '' @ next_step else lead @ ''. '' @ next_step
      | None \<Rightarrow> or_else (USER_MESSAGES fc) (or_else (USER_MESSAGES INTERNAL) []))"

fun FAILED_REASON :: "FailureClass \<Rightarrow> string option" where
  "FAILED_REASON PROVIDER_TRANSIENT = Some ''api_failure''"
| "FAILED_REASON PROVIDER_DOWN = Some ''api_failure''"
| "FAILED_REASON DEPENDENCY_DOWN = Some ''api_failure''"
| "FAILED_REASON RESOURCE = Some ''unhandled''"
| "FAILED_REASON INTERNAL = Some ''unhandled''"
| "FAILED_REASON REVIEW_EVIDENCE_MISSING = Some ''api_failure''"
| "FAILED_REASON NOT_AUTHORIZED = Some ''unhandled''"
| "FAILED_REASON DATA_INTEGRITY = Some ''unhandled''"
| "FAILED_REASON USER_INPUT = Some ''unhandled''"
| "FAILED_REASON DOMAIN_REJECTED = Some ''mesh_generation''"
| "FAILED_REASON WORKER_LOST = Some ''unhandled''"
| "FAILED_REASON NEVER_STARTED = Some ''unhandled''"

definition failed_reason_for :: "FailureClass \<Rightarrow> string" where
  "failed_reason_for fc = or_else (FAILED_REASON fc) ''unhandled''"

text \<open>\<open>FailedReason(value)\<close> on the stored column's enum; \<open>None\<close> is the \<open>ValueError\<close>.\<close>

definition FailedReason_of :: "string \<Rightarrow> FailedReason option" where
  "FailedReason_of v = map_of
     [(''mesh_generation'', FR_mesh_generation), (''reviewer_rejected'', FR_reviewer_rejected),
      (''api_failure'', FR_api_failure), (''unhandled'', FR_unhandled)] v"

lemma stored_reason_exists: "FailedReason_of (failed_reason_for fc) \<noteq> None"
  by (cases fc) (simp_all add: FailedReason_of_def failed_reason_for_def)

lemma every_class_has_its_words: "DOMAIN_MESSAGES fc \<noteq> None \<or> USER_MESSAGES fc \<noteq> None"
  by (cases fc) simp_all

end
