(* ===== verification/Executor.thy ===== *)
theory Executor
  imports Builder WorkLimits Errors
begin

text \<open>
  The executor's node (\<open>pipeline/executor.py\<close>): what of an attempt is judged, in which order the
  checks speak, and what is recorded when one says no. The measurements themselves - the engine's
  finalize, its gates, the extent verdict, the trial solve - are the \<open>measurement\<close> the node is run on;
  the gates are run by the model (\<open>engines/gates.py\<close>), a crashing gate ends the run as a system
  failure. The progress notes and the training log are left out.
\<close>

section \<open>The measurements\<close>

record native_run =
  refused_before_launch :: bool
  timed_out :: bool
  never_started :: bool
  uncollected :: bool

text \<open>A gate answers, names a cause and facts when it refuses, or crashes.\<close>

datatype gate_answer = Passed | Refused string facts string | Crashed

record gate_run =
  g_key :: string
  g_blocking :: bool
  g_answer :: gate_answer

datatype extent_status = ExtentNA | ExtentUnmeasured | ExtentPass | ExtentMiss | ExtentBlock

datatype extent_check =
    NoFarField
  | TypedExtent extent_status "caveat list"
  | LegacyExtent bool

datatype solve_answer = NoSolve | Solves | DoesNotSolve | SolveCrashed exn

record measurement =
  x_trips :: "guard_trip list"
  x_runs :: "native_run list option"
  x_mesh_on_disk :: bool
  x_deterministic_build :: bool
  x_finalize_ok :: bool
  x_finalize_trips :: "guard_trip list"
  x_broken :: "string list"
  x_gates :: "gate_run list"
  x_manifest_loads :: bool
  x_cell_count :: "rat option"
  x_mesh_mode :: string
  x_extent :: extent_check
  x_strict :: bool
  x_connected :: bool
  x_solve :: solve_answer
  x_plan :: "gap_plan option"
  x_output :: string

section \<open>The gates\<close>

datatype gates_result = GatesPass | GateRefuses string string facts string | GateCrash string

fun run_gates :: "gate_run list \<Rightarrow> gates_result" where
  "run_gates [] = GatesPass"
| "run_gates (g # gs) =
     (case g_answer g of
        Crashed \<Rightarrow> GateCrash (g_key g)
      | Passed \<Rightarrow> run_gates gs
      | Refused named f words \<Rightarrow>
          if g_blocking g then GateRefuses (g_key g) named f words else run_gates gs)"

text \<open>The note gates that said no, among the gates that were reached.\<close>

fun noted_gates :: "gate_run list \<Rightarrow> (string \<times> facts) list" where
  "noted_gates [] = []"
| "noted_gates (g # gs) =
     (case g_answer g of
        Crashed \<Rightarrow> []
      | Passed \<Rightarrow> noted_gates gs
      | Refused named f words \<Rightarrow>
          (if is_note_gate (g_key g) then [(g_key g, f)] else [])
          @ (if g_blocking g then [] else noted_gates gs))"

definition gate_failure :: "string \<Rightarrow> SystemFailure" where
  "gate_failure key = system_failure (''gate:'' @ key) INTERNAL (''gate crashed'') []"

section \<open>An attempt a guard clock stopped\<close>

definition attempt_ending :: "guard_trip list \<Rightarrow> guard_trip list" where
  "attempt_ending ts = filter ends_attempt ts"

definition launched :: "native_run list option \<Rightarrow> native_run list" where
  "launched rs = (case rs of None \<Rightarrow> [] | Some xs \<Rightarrow> filter (\<lambda>r. \<not> refused_before_launch r) xs)"

definition runs_started :: "native_run list option \<Rightarrow> int option" where
  "runs_started rs = map_option (\<lambda>xs. int (length (filter (\<lambda>r. \<not> refused_before_launch r) xs))) rs"

definition guard_trip_stops :: "pstate \<Rightarrow> measurement \<Rightarrow> string option" where
  "guard_trip_stops st m =
     (case attempt_ending (x_trips m) of
        t # _ \<Rightarrow> Some (trip_where t)
      | [] \<Rightarrow>
          if launched (x_runs m) \<noteq> [] \<and> timed_out (last (launched (x_runs m)))
          then Some (if engine st = [] then ''the mesher'' else engine st) else None)"

definition guard_failure :: "pstate \<Rightarrow> measurement \<Rightarrow> string \<Rightarrow> pstate" where
  "guard_failure st m where_tripped =
     st\<lparr>executor_success := False, executor_output := ''[GUARD_CLOCK]'',
        executor_failed_gate := ''finalize'',
        executor_failure_cause := cause_value ENGINE_TIMED_OUT,
        executor_failure_facts := no_facts\<lparr>guard_fact := Some where_tripped,
          meshers_started := runs_started (x_runs m)\<rparr>\<rparr>"

section \<open>An attempt that left no mesh\<close>

definition no_mesh_cause :: "pstate \<Rightarrow> measurement \<Rightarrow> string \<Rightarrow> facts \<Rightarrow> string \<times> facts" where
  "no_mesh_cause st m cause0 f =
     (case x_runs m of
        None \<Rightarrow>
          if cause0 = cause_value ENGINE_CRASHED \<and> \<not> x_mesh_on_disk m
          then (cause_value RUN_INFRASTRUCTURE, f) else (cause0, f)
      | Some rs \<Rightarrow>
          let f1 = f\<lparr>meshers_started := runs_started (Some rs)\<rparr>; ran = launched (Some rs) in
          if ran = []
          then (cause_value NOT_BUILT, f1\<lparr>deterministic := x_deterministic_build m\<rparr>)
          else if timed_out (last ran)
          then (cause_value ENGINE_TIMED_OUT,
                f1\<lparr>guard_fact := (case guard_fact f of
                     None \<Rightarrow> Some (if engine st = [] then ''the mesher'' else engine st) | g \<Rightarrow> g)\<rparr>)
          else if never_started (last ran) then (cause_value RUN_INFRASTRUCTURE, f1)
          else if uncollected (last ran) then (cause_value RUN_INFRASTRUCTURE, f1)
          else (cause0, f1))"

section \<open>A mesh that is judged\<close>

text \<open>The verdict on a mesh: accepted with its caveats, or refused at a gate.\<close>

record verdict =
  ok :: bool
  v_gate :: string
  v_cause :: string
  v_facts :: facts
  v_caveats :: "caveat list"
  v_output :: string

definition refuse :: "string \<Rightarrow> string \<Rightarrow> facts \<Rightarrow> verdict \<Rightarrow> verdict" where
  "refuse gate c f v = v\<lparr>ok := False, v_gate := gate, v_cause := c, v_facts := f\<rparr>"

definition near_miss_caveat :: "caveat \<Rightarrow> caveat" where
  "near_miss_caveat c = c\<lparr>c_kind := DOMAIN_EXTENT_KIND\<rparr>"

definition judge_extent :: "measurement \<Rightarrow> verdict \<Rightarrow> verdict" where
  "judge_extent m v =
     (case x_extent m of
        NoFarField \<Rightarrow> v
      | LegacyExtent fine \<Rightarrow>
          if fine then v else refuse ''domain_extent'' (cause_value DOMAIN_EXTENT) no_facts v
      | TypedExtent s cs \<Rightarrow>
          if s = ExtentMiss \<and> \<not> x_strict m then v\<lparr>v_caveats := map near_miss_caveat cs\<rparr>
          else if s \<in> {ExtentMiss, ExtentBlock, ExtentUnmeasured}
          then refuse ''domain_extent'' (cause_value DOMAIN_EXTENT) no_facts v
          else v)"

definition over_one_job :: "measurement \<Rightarrow> bool" where
  "over_one_job m = (''cell_limit'' \<in> fst ` set (noted_gates (x_gates m)))"

definition not_solvable :: "verdict \<Rightarrow> verdict" where
  "not_solvable v = refuse ''solvability'' (cause_value NOT_SOLVABLE) no_facts v"

text \<open>Every check a mesh meets once its finalize accepted it; a crash is a system failure.\<close>

definition judge_mesh ::
  "settings \<Rightarrow> catalogue \<Rightarrow> pstate \<Rightarrow> measurement \<Rightarrow> SystemFailure + verdict"
where
  "judge_mesh cfg cat st m =
     (let v0 = \<lparr>ok = True, v_gate = [], v_cause = [], v_facts = no_facts, v_caveats = [],
               v_output = x_output m\<rparr>
      in
      case run_gates (x_gates m) of
        GateCrash key \<Rightarrow> Inl (gate_failure key)
      | GateRefuses key named f words \<Rightarrow>
          Inr (refuse key (gate_cause cat (engine st) key named) f
                 v0\<lparr>v_output := x_output m @ CHR 0x0A # words\<rparr>)
      | GatesPass \<Rightarrow>
          let v1 = (if x_manifest_loads m then judge_extent m v0 else v0);
              v2 = (if over_one_job m \<and> ok v1 \<and> \<not> x_connected m then not_solvable v1 else v1);
              solve = (ok v2 \<and> x_manifest_loads m \<and> \<not> over_one_job m)
          in
          case (solve, x_solve m) of
            (True, SolveCrashed e) \<Rightarrow> Inl (classify_exception e ''solvability_gate'')
          | (True, DoesNotSolve) \<Rightarrow> Inr (not_solvable v2)
          | _ \<Rightarrow>
              if ok v2
              then Inr (v2\<lparr>v_caveats := v_caveats v2
                     @ map (\<lambda>(key, f). note_caveat cfg key f (x_plan m) (x_cell_count m))
                         (noted_gates (x_gates m))\<rparr>)
              else Inr v2)"

definition record_verdict :: "verdict \<Rightarrow> measurement \<Rightarrow> pstate \<Rightarrow> pstate" where
  "record_verdict v m st =
     st\<lparr>executor_success := ok v, executor_output := v_output v,
        executor_failed_gate := (if ok v then [] else v_gate v),
        executor_failure_cause := (if ok v then [] else v_cause v),
        executor_failure_facts := (if ok v then no_facts else v_facts v),
        requirement_caveats := v_caveats v,
        sound_attempts := (if ok v
          then with_sound st (sound_entry st (openfoam_workspace st) (x_mesh_mode m) (v_caveats v))
          else sound_attempts st)\<rparr>"

section \<open>The node\<close>

text \<open>
  A driver's verdict on the mesh it left travels with the failure: its keys replace the failure's
  (a driver writes a flag only to set it).
\<close>

definition merge_facts :: "facts \<Rightarrow> facts \<Rightarrow> facts" where
  "merge_facts f d =
     \<lparr>retry_may_fix = retry_may_fix f \<or> retry_may_fix d,
      rebuild_cells = (case rebuild_cells d of None \<Rightarrow> rebuild_cells f | x \<Rightarrow> x),
      cell_limit = (case cell_limit d of None \<Rightarrow> cell_limit f | x \<Rightarrow> x),
      deterministic = deterministic f \<or> deterministic d,
      ladder_exhausted = ladder_exhausted f \<or> ladder_exhausted d,
      fatal_defects = (if fatal_defects d = [] then fatal_defects f else fatal_defects d),
      over_size_by_rule = over_size_by_rule f \<or> over_size_by_rule d,
      guard_fact = (case guard_fact d of None \<Rightarrow> guard_fact f | x \<Rightarrow> x),
      meshers_started = (case meshers_started d of None \<Rightarrow> meshers_started f | x \<Rightarrow> x),
      before_meshing = before_meshing f \<or> before_meshing d,
      refused_by_design_fact = refused_by_design_fact f \<or> refused_by_design_fact d,
      cells_across = (case cells_across d of None \<Rightarrow> cells_across f | x \<Rightarrow> x),
      needed = (case needed d of None \<Rightarrow> needed f | x \<Rightarrow> x),
      cells_fact = (case cells_fact d of None \<Rightarrow> cells_fact f | x \<Rightarrow> x),
      ours = ours f \<or> ours d,
      other_facts = other_facts d @ other_facts f\<rparr>"

definition node_executor ::
  "settings \<Rightarrow> catalogue \<Rightarrow> measurement \<Rightarrow> refusal option \<Rightarrow> pstate \<Rightarrow> SystemFailure + pstate"
where
  "node_executor cfg cat m refused st =
     (if geometry_unsuitable_reason st \<noteq> []
      then Inr (st\<lparr>executor_success := False, executor_output := geometry_unsuitable_reason st,
        executor_failed_gate := ''geometry'',
        executor_failure_cause := cause_value GEOMETRY_REJECTED\<rparr>)
      else if openfoam_workspace st = []
      then Inr (st\<lparr>executor_success := False, executor_output := ''[EXECUTOR_ERROR]'',
        executor_failure_cause := [], executor_failure_facts := no_facts\<rparr>)
      else
        case guard_trip_stops st m of
          Some w \<Rightarrow> Inr (guard_failure st m w)
        | None \<Rightarrow>
            let honoured = (if x_mesh_on_disk m then None else refused);
                driver = (case refused of
                            Some r \<Rightarrow> if x_mesh_on_disk m \<and> ladder_exhausted (rf_facts r)
                                       then Some r else None
                          | None \<Rightarrow> None)
            in
            case honoured of
              Some r \<Rightarrow>
                Inr (record_verdict
                  \<lparr>ok = False, v_gate = rf_gate r, v_cause = rf_cause r,
                   v_facts = (case runs_started (x_runs m) of
                      None \<Rightarrow> rf_facts r | Some n \<Rightarrow> (rf_facts r)\<lparr>meshers_started := Some n\<rparr>),
                   v_caveats = [], v_output = rf_text r\<rparr> m st)
            | None \<Rightarrow>
                case attempt_ending (x_finalize_trips m) of
                  t # _ \<Rightarrow> Inr (guard_failure st m (trip_where t))
                | [] \<Rightarrow>
                    if x_finalize_ok m
                    then (case judge_mesh cfg cat st m of
                            Inl f \<Rightarrow> Inl f
                          | Inr v \<Rightarrow> Inr (record_verdict
                              (case driver of
                                 Some d \<Rightarrow> if ok v then v
                                   else v\<lparr>v_facts := merge_facts (v_facts v) (rf_facts d)\<rparr>
                               | None \<Rightarrow> v) m st))
                    else
                      let c0 = gate_cause cat (engine st) ''finalize'' [];
                          (c, f) = (if x_broken m \<noteq> []
                            then (cause_value MESH_QUALITY,
                                  no_facts\<lparr>fatal_defects := x_broken m,
                                    meshers_started := runs_started (x_runs m)\<rparr>)
                            else no_mesh_cause st m c0 no_facts)
                      in Inr (record_verdict
                           \<lparr>ok = False, v_gate = ''finalize'', v_cause = c,
                            v_facts = (case driver of Some d \<Rightarrow> merge_facts f (rf_facts d) | None \<Rightarrow> f),
                            v_caveats = [], v_output = x_output m\<rparr> m st))"

section \<open>What the executor guarantees\<close>

definition gates_pass :: "gate_run list \<Rightarrow> bool" where
  "gates_pass gs \<longleftrightarrow>
     (\<forall>g\<in>set gs. g_answer g \<noteq> Crashed \<and> (g_blocking g \<longrightarrow> g_answer g = Passed))"

lemma run_gates_pass: "run_gates gs = GatesPass \<longleftrightarrow> gates_pass gs"
  by (induction gs) (auto simp: gates_pass_def split: gate_answer.splits if_splits)

lemma run_gates_crash:
  "run_gates gs = GateCrash k \<Longrightarrow> \<exists>g\<in>set gs. g_key g = k \<and> g_answer g = Crashed"
  by (induction gs) (auto split: gate_answer.splits if_splits)

definition extent_passes :: "measurement \<Rightarrow> bool" where
  "extent_passes m \<longleftrightarrow>
     (case x_extent m of
        NoFarField \<Rightarrow> True
      | LegacyExtent fine \<Rightarrow> fine
      | TypedExtent s cs \<Rightarrow> s \<in> {ExtentNA, ExtentPass} \<or> (s = ExtentMiss \<and> \<not> x_strict m))"

lemma judge_extent_ok: "ok v \<Longrightarrow> ok (judge_extent m v) \<longleftrightarrow> extent_passes m"
  by (cases "x_extent m")
     (auto simp: judge_extent_def extent_passes_def refuse_def intro: extent_status.exhaust)

definition mesh_passes :: "measurement \<Rightarrow> bool" where
  "mesh_passes m \<longleftrightarrow> gates_pass (x_gates m)
     \<and> (x_manifest_loads m \<longrightarrow> extent_passes m)
     \<and> (over_one_job m \<longrightarrow> x_connected m)
     \<and> (x_manifest_loads m \<and> \<not> over_one_job m \<longrightarrow> x_solve m \<in> {NoSolve, Solves})"

lemma ok_refuse [simp]: "\<not> ok (refuse g c f v)" "\<not> ok (not_solvable v)"
  by (simp_all add: refuse_def not_solvable_def)

lemma judge_mesh_ok: "(\<exists>v. judge_mesh cfg cat st m = Inr v \<and> ok v) \<longleftrightarrow> mesh_passes m"
proof (cases "run_gates (x_gates m)")
  case GatesPass
  then have g: "gates_pass (x_gates m)" by (simp add: run_gates_pass)
  define v0 where "v0 = \<lparr>ok = True, v_gate = [], v_cause = [], v_facts = no_facts,
    v_caveats = [], v_output = x_output m\<rparr>"
  define v1 where "v1 = (if x_manifest_loads m then judge_extent m v0 else v0)"
  define v2 where "v2 = (if over_one_job m \<and> ok v1 \<and> \<not> x_connected m then not_solvable v1 else v1)"
  have v1: "ok v1 \<longleftrightarrow> (x_manifest_loads m \<longrightarrow> extent_passes m)"
    using judge_extent_ok [of v0 m] by (simp add: v1_def v0_def)
  have v2: "ok v2 \<longleftrightarrow> ok v1 \<and> (over_one_job m \<longrightarrow> x_connected m)" by (auto simp: v2_def)
  have j: "judge_mesh cfg cat st m =
      (case (ok v2 \<and> x_manifest_loads m \<and> \<not> over_one_job m, x_solve m) of
          (True, SolveCrashed e) \<Rightarrow> Inl (classify_exception e ''solvability_gate'')
        | (True, DoesNotSolve) \<Rightarrow> Inr (not_solvable v2)
        | _ \<Rightarrow>
            if ok v2
            then Inr (v2\<lparr>v_caveats := v_caveats v2
                   @ map (\<lambda>(key, f). note_caveat cfg key f (x_plan m) (x_cell_count m))
                       (noted_gates (x_gates m))\<rparr>)
            else Inr v2)"
    by (simp only: judge_mesh_def GatesPass gates_result.case Let_def v2_def v1_def v0_def)
  show ?thesis
    unfolding j mesh_passes_def using g v1 v2
    by (cases "x_solve m"; cases "ok v2"; cases "x_manifest_loads m"; cases "over_one_job m") auto
next
  case (GateRefuses k n f w)
  with run_gates_pass [of "x_gates m"] show ?thesis
    by (simp add: judge_mesh_def mesh_passes_def)
next
  case (GateCrash k)
  with run_gates_pass [of "x_gates m"] show ?thesis
    by (simp add: judge_mesh_def mesh_passes_def)
qed

lemma executor_success_record [simp]: "executor_success (record_verdict v m st) = ok v"
  by (simp add: record_verdict_def)

text \<open>
  C11: a validated mesh passed every check. The executor calls an attempt's mesh validated if and only
  if the geometry was admitted, no guard clock stopped the attempt or its finalize, no pre-flight
  refusal stands (one is set aside only when a mesh is on disk), the finalize accepted the mesh, no
  gate crashed and every blocking gate passed, the far field is the one asked for or near it, a mesh
  over one job's limit is connected, and the trial solve of any other did not fail.
\<close>

theorem validated_mesh_passed_everything:
  "(\<exists>s'. node_executor cfg cat m refused st = Inr s' \<and> executor_success s') \<longleftrightarrow>
     geometry_unsuitable_reason st = [] \<and> openfoam_workspace st \<noteq> []
     \<and> guard_trip_stops st m = None \<and> (refused = None \<or> x_mesh_on_disk m)
     \<and> attempt_ending (x_finalize_trips m) = [] \<and> x_finalize_ok m \<and> mesh_passes m"
proof (cases "geometry_unsuitable_reason st = [] \<and> openfoam_workspace st \<noteq> []
    \<and> guard_trip_stops st m = None \<and> (refused = None \<or> x_mesh_on_disk m)
    \<and> attempt_ending (x_finalize_trips m) = [] \<and> x_finalize_ok m")
  case True
  then have r: "(if x_mesh_on_disk m then None else refused) = None" by auto
  obtain d where n: "node_executor cfg cat m refused st =
      (case judge_mesh cfg cat st m of
         Inl f \<Rightarrow> Inl f
       | Inr v \<Rightarrow> Inr (record_verdict (if ok v then v else v\<lparr>v_facts := d v\<rparr>) m st))"
  proof (cases "case refused of Some r \<Rightarrow> if x_mesh_on_disk m \<and> ladder_exhausted (rf_facts r)
      then Some r else None | None \<Rightarrow> None")
    case None
    with True r show ?thesis
      by (intro that [of v_facts]) (auto simp: node_executor_def Let_def split: sum.split)
  next
    case (Some d)
    with True r show ?thesis
      by (intro that [of "\<lambda>v. merge_facts (v_facts v) (rf_facts d)"])
         (auto simp: node_executor_def Let_def split: sum.split)
  qed
  have "(\<exists>s'. node_executor cfg cat m refused st = Inr s' \<and> executor_success s')
      \<longleftrightarrow> (\<exists>v. judge_mesh cfg cat st m = Inr v \<and> ok v)"
    unfolding n by (auto split: sum.splits)
  with True judge_mesh_ok [of cfg cat st m] show ?thesis by simp
next
  case False
  then have "\<not> executor_success s'" if "node_executor cfg cat m refused st = Inr s'" for s'
    using that
    by (auto simp: node_executor_def guard_failure_def record_verdict_def Let_def
        split: option.splits list.splits if_splits prod.splits)
  with False show ?thesis by blast
qed

end
