(* ===== verification/Admission.thy ===== *)
theory Admission
  imports Fallback
begin

text \<open>
  The way into a run: which engine it uses (\<open>pipeline/engine_select.py\<close>), what the geometry admission
  decides before any builder runs (\<open>pipeline/geometry_admission.py\<close>), and the seed of a dispute run
  (\<open>application/job_service.py\<close>). The engines' declarations and answers (\<open>spec.admit\<close>, the
  measured surface, the engines declared for a flow) are the inputs of the nodes.
\<close>

section \<open>The engine of the run\<close>

record select_input =
  sl_topology :: string
  sl_declared :: "string list"
  sl_producing :: "string list"
  sl_default :: string
  sl_measured :: "(string list \<times> nat option) option"
  sl_recommended :: string

definition or_list :: "'a list \<Rightarrow> 'a list \<Rightarrow> 'a list" where
  "or_list xs ys = (if xs = [] then ys else xs)"

definition forced_engine :: "select_input \<Rightarrow> string" where
  "forced_engine si =
     (let candidates = or_list (sl_declared si) (sl_producing si);
          forced = (if sl_default si \<in> set candidates then sl_default si
                    else case candidates of c # _ \<Rightarrow> c | [] \<Rightarrow> sl_default si)
      in if sl_measured si \<noteq> None \<and> sl_recommended si \<noteq> [] \<and> sl_recommended si \<in> set candidates
         then sl_recommended si else forced)"

text \<open>\<open>registry.get_spec\<close> raises on a name no spec has; \<open>Inl\<close> is that name. A run whose ladder has an
  order already is measured no second time, so nothing is recommended either.\<close>

definition node_engine_select :: "catalogue \<Rightarrow> select_input \<Rightarrow> pstate \<Rightarrow> string + pstate" where
  "node_engine_select cat si st =
     (let si' = (if l_order (ladder_record st) \<noteq> [] then si\<lparr>sl_measured := None\<rparr> else si) in
      if engine st \<noteq> []
      then let key = lower (strip (engine st)) in
           if key \<noteq> [] \<and> get_spec cat key = None then Inl (engine st)
           else Inr (seed_measured_order (sl_measured si) st)
      else if sl_topology si = ''internal''
      then Inr ((seed_measured_order (sl_measured si) st)\<lparr>engine := forced_engine si'\<rparr>)
      else Inr (st\<lparr>engine := sl_default si\<rparr>))"

section \<open>The admission of the geometry\<close>

definition FORM_REFUSED :: string where "FORM_REFUSED = ''geometry_form_unsupported''"

record rejection =
  rj_code :: string
  rj_message :: string

record admission_input =
  ad_declared :: "rejection list"
  ad_measures :: bool
  ad_source_exists :: bool
  ad_staged :: bool
  ad_analysed :: bool
  ad_rejections :: "rejection list"

definition form_refusal :: "admission_input \<Rightarrow> rejection option" where
  "form_refusal ai = find (\<lambda>r. rj_code r = FORM_REFUSED) (ad_declared ai)"

fun join2 :: "string list \<Rightarrow> string" where
  "join2 [] = []"
| "join2 [m] = m"
| "join2 (m # ms) = m @ ''  '' @ join2 ms"

definition refuse_geometry :: "settings \<Rightarrow> rejection list \<Rightarrow> pstate \<Rightarrow> pstate" where
  "refuse_geometry cfg rs st =
     st\<lparr>geometry_unsuitable_reason := join2 (map rj_message rs), executor_success := False,
        retry_count := MAX_BUILDER_RETRIES cfg + 1,
        executor_failure_facts := no_facts\<lparr>before_meshing := True,
          refused_by_design_fact := FORM_REFUSED \<in> rj_code ` set rs\<rparr>\<rparr>"

definition node_geometry_admission :: "settings \<Rightarrow> admission_input \<Rightarrow> pstate \<Rightarrow> pstate" where
  "node_geometry_admission cfg ai st =
     (case form_refusal ai of
        Some r \<Rightarrow> refuse_geometry cfg [r] st
      | None \<Rightarrow>
          if \<not> ad_measures ai \<or> \<not> ad_source_exists ai \<or> \<not> ad_staged ai \<or> \<not> ad_analysed ai then st
          else if ad_rejections ai = [] then st
          else refuse_geometry cfg (ad_rejections ai) st)"

section \<open>The seed of a dispute run\<close>

text \<open>
  What \<open>resolve_dispute_seed\<close> reads of the parent run: its final workspace when one is left, and the
  engine its manifest names when the manifest can be read. \<open>Inl\<close> is the part that was refused.
\<close>

record dispute_seed =
  ds_workspace :: string
  ds_engine :: string

definition resolve_dispute_seed ::
  "string \<Rightarrow> bool \<Rightarrow> string option \<Rightarrow> string option \<Rightarrow> string + dispute_seed"
where
  "resolve_dispute_seed mode flagged workspace mesh_mode =
     (if mode = ''accept'' \<and> flagged then Inl ''dispute_mode''
      else case workspace of
        None \<Rightarrow> Inl ''dispute_workspace''
      | Some ws \<Rightarrow>
          (case mesh_mode of
             None \<Rightarrow> Inl ''dispute_workspace''
           | Some e \<Rightarrow> Inr \<lparr>ds_workspace = ws, ds_engine = e\<rparr>))"

definition apply_seed :: "dispute_seed \<Rightarrow> pstate \<Rightarrow> pstate" where
  "apply_seed s st =
     st\<lparr>openfoam_workspace := ds_workspace s, engine := ds_engine s, executor_success := True\<rparr>"

definition seed_dispute_run ::
  "string \<Rightarrow> bool \<Rightarrow> string option \<Rightarrow> string option \<Rightarrow> pstate \<Rightarrow> string + pstate"
where
  "seed_dispute_run mode flagged workspace mesh_mode st =
     (case resolve_dispute_seed mode flagged workspace mesh_mode of
        Inl e \<Rightarrow> Inl e
      | Inr s \<Rightarrow> Inr (apply_seed s (st\<lparr>user_dispute := Some mode\<rparr>)))"

end
