(* ===== verification/Classifier.thy ===== *)
theory Classifier
  imports Resolution "HOL-Library.Char_ord" "HOL-Library.List_Lexorder"
begin

text \<open>
  The instruction the next attempt is given (\<open>pipeline/classifier.py\<close>, the sections of
  \<open>pipeline/enums.py\<close>). What the engine catalogue and the review rubric declare - the section of an
  engine's gate, the validation axis a review axis serves - is a \<open>vocabulary\<close>.
\<close>

datatype FailureSection = GEOMETRY | DOMAIN | MESH | GROUPS | LAYERS | MANIFEST | PATCHES | TOPOLOGY

fun section_value :: "FailureSection \<Rightarrow> string" where
  "section_value GEOMETRY = ''GEOMETRY''"
| "section_value DOMAIN = ''DOMAIN''"
| "section_value MESH = ''MESH''"
| "section_value GROUPS = ''GROUPS''"
| "section_value LAYERS = ''LAYERS''"
| "section_value MANIFEST = ''MANIFEST''"
| "section_value PATCHES = ''PATCHES''"
| "section_value TOPOLOGY = ''TOPOLOGY''"

definition SEAM_SECTIONS :: "string \<Rightarrow> FailureSection option" where
  "SEAM_SECTIONS gate =
     (if gate = ''finalize'' then Some MESH
      else if gate = ''domain_extent'' then Some DOMAIN
      else if gate = ''solvability'' then Some MESH
      else if gate = ''geometry'' then Some GEOMETRY
      else None)"

record vocabulary =
  vc_gate_section :: "string \<Rightarrow> string \<Rightarrow> FailureSection option"
  vc_axis :: "string \<Rightarrow> string \<Rightarrow> string option"

definition section_for_gate :: "vocabulary \<Rightarrow> string \<Rightarrow> string \<Rightarrow> FailureSection" where
  "section_for_gate vc e gate =
     (if gate = [] then MESH
      else case SEAM_SECTIONS gate of
        Some s \<Rightarrow> s
      | None \<Rightarrow> or_else (vc_gate_section vc e gate) MESH)"

definition VALIDATION_AXIS_TO_SECTION :: "string \<Rightarrow> FailureSection option" where
  "VALIDATION_AXIS_TO_SECTION axis =
     (if axis = ''integrity'' then Some GEOMETRY
      else if axis = ''quality'' then Some MESH
      else if axis = ''solvability'' then Some MESH
      else if axis = ''conformance'' then Some GROUPS
      else None)"

fun section_for_axes :: "vocabulary \<Rightarrow> string \<Rightarrow> string list \<Rightarrow> FailureSection" where
  "section_for_axes vc e [] = MESH"
| "section_for_axes vc e (n # ns) =
     (case vc_axis vc e n of
        Some axis \<Rightarrow> or_else (VALIDATION_AXIS_TO_SECTION axis) MESH
      | None \<Rightarrow> section_for_axes vc e ns)"

text \<open>The axes a retry is asked to change, in the order of their names.\<close>

definition failed_axes :: "finding list \<Rightarrow> string list" where
  "failed_axes findings =
     (let rows = filter (\<lambda>f. axis_key f \<noteq> []) findings;
          judged = list_ex (\<lambda>f. f_improve f \<noteq> None) rows
      in sort (map axis_key
           (filter (\<lambda>f. f_passed f = Some False \<and> (\<not> judged \<or> f_improve f = Some True)) rows)))"

definition reviewed_this_attempt :: "pstate \<Rightarrow> bool" where
  "reviewed_this_attempt st =
     (reviewer_verdict st = ''FAIL'' \<and> review_history st \<noteq> []
      \<and> h_attempt (last (review_history st)) = retry_count st
      \<and> h_verdict (last (review_history st)) = ''FAIL'')"

text \<open>\<open>feedback\<close> is the review's text.\<close>

definition node_classifier ::
  "vocabulary \<Rightarrow> string \<Rightarrow> pstate \<Rightarrow> pstate"
where
  "node_classifier vc feedback st =
     (if executor_success st \<and> requirement_caveats st \<noteq> [] \<and> \<not> reviewed_this_attempt st
      then
        let gate = (if resolution_caveat (requirement_caveats st) \<noteq> None then ''resolution_floor''
                    else ''domain_extent'')
        in st\<lparr>classifier_gate := gate,
              classifier_section := section_value (section_for_gate vc (engine st) gate),
              classifier_summary := executor_output st,
              error_source := (if gate = ''resolution_floor'' then ''resolution_short''
                               else ''requirements_near_miss''),
              builder_mode := ''retry''\<rparr>
      else if \<not> executor_success st
      then st\<lparr>classifier_gate := executor_failed_gate st,
              classifier_section :=
                section_value (section_for_gate vc (engine st) (executor_failed_gate st)),
              classifier_summary := executor_output st,
              error_source := ''executor_fail'', builder_mode := ''retry''\<rparr>
      else
        let axes = failed_axes (reviewer_axis_findings st);
            rebuild = reviewer_rebuild_required st
        in st\<lparr>classifier_gate := [],
              classifier_section := section_value
                (if rebuild then TOPOLOGY else section_for_axes vc (engine st) axes),
              classifier_summary := (if feedback \<noteq> [] then feedback else reviewer_verdict st),
              error_source := ''reviewer_fail'',
              builder_mode := (if rebuild then ''rebuild'' else ''retry'')\<rparr>)"

lemma node_classifier_frame [simp]:
  "engine (node_classifier vc fb st) = engine st"
  "engine_source (node_classifier vc fb st) = engine_source st"
  "user_dispute (node_classifier vc fb st) = user_dispute st"
  "retry_count (node_classifier vc fb st) = retry_count st"
  "infra_retry_count (node_classifier vc fb st) = infra_retry_count st"
  "guard_replay_count (node_classifier vc fb st) = guard_replay_count st"
  "review_rerun_count (node_classifier vc fb st) = review_rerun_count st"
  "builder_noop_count (node_classifier vc fb st) = builder_noop_count st"
  "builder_stop (node_classifier vc fb st) = builder_stop st"
  "api_failure (node_classifier vc fb st) = api_failure st"
  "openfoam_workspace (node_classifier vc fb st) = openfoam_workspace st"
  "geometry_unsuitable_reason (node_classifier vc fb st) = geometry_unsuitable_reason st"
  "executor_success (node_classifier vc fb st) = executor_success st"
  "executor_failed_gate (node_classifier vc fb st) = executor_failed_gate st"
  "executor_failure_cause (node_classifier vc fb st) = executor_failure_cause st"
  "executor_failure_facts (node_classifier vc fb st) = executor_failure_facts st"
  "requirement_caveats (node_classifier vc fb st) = requirement_caveats st"
  "reviewer_verdict (node_classifier vc fb st) = reviewer_verdict st"
  "reviewer_axis_findings (node_classifier vc fb st) = reviewer_axis_findings st"
  "review_history (node_classifier vc fb st) = review_history st"
  "ladder_record (node_classifier vc fb st) = ladder_record st"
  "rung_record (node_classifier vc fb st) = rung_record st"
  "sound_attempts (node_classifier vc fb st) = sound_attempts st"
  by (simp_all add: node_classifier_def Let_def)

text \<open>
  What a retry is told. A near-missed requirement is retried for its own measurement unless this
  very mesh was reviewed and failed; a failed check is retried for its own gate; anything else for the
  review's findings - and then no gate is named, so it can never be counted as a failure met twice.
  A rebuild is asked only by a review.
\<close>

theorem classifier_spec:
  "error_source (node_classifier vc fb st) =
     (if executor_success st \<and> requirement_caveats st \<noteq> [] \<and> \<not> reviewed_this_attempt st
      then if resolution_caveat (requirement_caveats st) = None then ''requirements_near_miss''
           else ''resolution_short''
      else if executor_success st then ''reviewer_fail'' else ''executor_fail'')
   \<and> (error_source (node_classifier vc fb st) = ''reviewer_fail''
        \<longleftrightarrow> executor_success st \<and> (requirement_caveats st = [] \<or> reviewed_this_attempt st))
   \<and> (error_source (node_classifier vc fb st) = ''reviewer_fail''
        \<longrightarrow> classifier_gate (node_classifier vc fb st) = [])
   \<and> (builder_mode (node_classifier vc fb st) \<noteq> ''retry''
        \<longrightarrow> reviewer_rebuild_required st \<and> builder_mode (node_classifier vc fb st) = ''rebuild'')"
  by (auto simp: node_classifier_def Let_def)

theorem classifier_spec_witness:
  "classifier_gate (node_classifier \<lparr>vc_gate_section = (\<lambda>e g. None), vc_axis = (\<lambda>e a. None)\<rparr> []
     (initial_state ''snappy'' ''system'' None\<lparr>executor_success := True\<rparr>)) = []"
proof -
  let ?vc = "\<lparr>vc_gate_section = (\<lambda>e g. None), vc_axis = (\<lambda>e a. None)\<rparr> :: vocabulary"
  let ?st = "initial_state ''snappy'' ''system'' None\<lparr>executor_success := True\<rparr>"
  have "executor_success ?st" "requirement_caveats ?st = []" by (simp_all add: initial_state_def)
  with classifier_spec [of ?vc "[]" ?st] show ?thesis by blast
qed

end
