(* ===== verification/Graph.thy ===== *)
theory Graph
  imports FallbackProps Review Executor Admission Classifier
begin

text \<open>
  The pipeline's graph (\<open>pipeline/graph.py\<close>): its nodes, the routes between them, and a run as the
  sequence of states it goes through. Each step of a run meets a \<open>gworld\<close>: what the outside answers
  while that node runs and its route is decided - whether the execution fence admits the node, what
  intake, engine selection and admission read, the builder's turn, the executor's measurement, the
  review, and which sound meshes can still be read. The inspection and repair of the geometry before
  admission write no field of the state modelled here. Waiting out an outage is the number of
  seconds a node sleeps.
\<close>

section \<open>The guard clock\<close>

definition guard_trip_of :: "pstate \<Rightarrow> string option" where
  "guard_trip_of st =
     (if executor_success st \<or> executor_failure_cause st \<noteq> cause_value ENGINE_TIMED_OUT then None
      else guard_fact (executor_failure_facts st))"

definition node_guard_replay :: "pstate \<Rightarrow> pstate" where
  "node_guard_replay st =
     st\<lparr>guard_replay_count := guard_replay_count st + 1, retry_count := retry_count st - 1,
        executor_success := False, executor_failed_gate := [], executor_failure_cause := [],
        executor_failure_facts := no_facts\<rparr>"

section \<open>A system failure\<close>

definition node_infra_retry :: "pstate \<Rightarrow> pstate" where
  "node_infra_retry st =
     st\<lparr>api_failure := [], infra_retry_count := infra_retry_count st + 1,
        retry_count := retry_count st - 1\<rparr>"

definition node_failure_handler :: "pstate \<Rightarrow> string" where
  "node_failure_handler st = user_message_for (classify_api_failure (api_failure st)) []"

section \<open>A review without a verdict\<close>

definition RERUNNABLE_MARKERS :: "string list" where
  "RERUNNABLE_MARKERS =
     [''reviewer_stalled'', ''reviewer_exhausted'', ''reviewer_render_unavailable'']"

definition failure_marker :: "string \<Rightarrow> string" where
  "failure_marker s =
     (let m = strip s in
      if starts_with ''<<API_FAILURE:'' m \<and> ends_with ''>>'' m
      then strip (take (length m - 2 - 14) (drop 14 m)) else m)"

definition review_can_rerun :: "settings \<Rightarrow> pstate \<Rightarrow> bool" where
  "review_can_rerun cfg st =
     (let marker = failure_marker (api_failure st) in
      marker \<noteq> [] \<and> executor_success st \<and> review_rerun_count st < REVIEWER_RERUN_MAX cfg
      \<and> (marker \<in> set RERUNNABLE_MARKERS \<or> is_retryable (classify_api_failure marker)))"

definition node_review_retry :: "pstate \<Rightarrow> pstate" where
  "node_review_retry st = st\<lparr>api_failure := [], review_rerun_count := review_rerun_count st + 1\<rparr>"

definition REVIEWER_RERUN_BACKOFF_S :: rat where "REVIEWER_RERUN_BACKOFF_S = 90"
definition REVIEW_RERUN_MIN_WINDOW_S :: rat where "REVIEW_RERUN_MIN_WINDOW_S = 300"

text \<open>\<open>left\<close> is what remains until the run's deadline, when it has one.\<close>

definition review_retry_wait :: "pstate \<Rightarrow> rat option \<Rightarrow> int" where
  "review_retry_wait st left =
     (let wait = (if is_retryable (classify_api_failure (api_failure st))
                  then REVIEWER_RERUN_BACKOFF_S else 0) in
      case left of
        None \<Rightarrow> \<lfloor>wait\<rfloor>
      | Some s \<Rightarrow> if 0 < wait then \<lfloor>max 0 (min wait (s - REVIEW_RERUN_MIN_WINDOW_S))\<rfloor> else \<lfloor>wait\<rfloor>)"

section \<open>Delivering an earlier sound mesh\<close>

text \<open>The node moves the run back onto the attempt whose mesh is delivered; a mesh that vanished since
  the route was taken changes nothing.\<close>

definition node_deliver_sound :: "catalogue \<Rightarrow> manifests \<Rightarrow> pstate \<Rightarrow> pstate" where
  "node_deliver_sound cat mf st =
     (case deliverable_sound mf st of
        None \<Rightarrow> st
      | Some best \<Rightarrow>
          let rec = (if executor_success st then ladder_record st
                     else with_attempt st (classify cat st))
          in st\<lparr>engine := (if s_engine best = [] then engine st else s_engine best),
                ladder_record := rec\<lparr>l_delivered_from := Some (s_attempt best)\<rparr>,
                openfoam_workspace := s_workspace best, executor_success := True,
                executor_failed_gate := [], executor_failure_cause := [],
                executor_failure_facts := no_facts, requirement_caveats := s_caveats best,
                api_failure := []\<rparr>)"

section \<open>The nodes and the routes\<close>

datatype node =
    Intake | EngineSelect | RepairInspect | RepairAttempt | GeometryAdmission | BuilderTurn
  | ExecutorRun | Classifying | EngineFallback | ReviewerRun | FailureHandler | InfraRetry
  | ReviewRetry | GuardReplay | DeliverSound | END

definition route_after_intake :: "pstate \<Rightarrow> node" where
  "route_after_intake st = (if api_failure st \<noteq> [] then FailureHandler else EngineSelect)"

definition route_after_engine_select :: "pstate \<Rightarrow> node" where
  "route_after_engine_select st =
     (if user_dispute st \<noteq> None \<and> reviewer_verdict st = [] then ReviewerRun else RepairInspect)"

definition route_after_geometry_admission :: "pstate \<Rightarrow> node" where
  "route_after_geometry_admission st =
     (if geometry_unsuitable_reason st \<noteq> [] then ExecutorRun else BuilderTurn)"

definition route_after_builder :: "settings \<Rightarrow> pstate \<Rightarrow> node" where
  "route_after_builder cfg st =
     (if builder_stop st \<noteq> [] then END
      else if api_failure st \<noteq> []
      then if is_retryable (classify_api_failure (api_failure st))
              \<and> infra_retry_count st < BUILDER_INFRA_RETRY_MAX cfg
           then InfraRetry else FailureHandler
      else ExecutorRun)"

definition sound_or_end :: "manifests \<Rightarrow> pstate \<Rightarrow> node" where
  "sound_or_end mf st =
     (if user_dispute st = None \<and> deliverable_sound mf st \<noteq> None then DeliverSound else END)"

definition route_after_executor ::
  "settings \<Rightarrow> catalogue \<Rightarrow> request \<Rightarrow> nat option \<Rightarrow> manifests \<Rightarrow> pstate \<Rightarrow> node"
where
  "route_after_executor cfg cat q staged mf st =
     (let rc = retry_count st; cs = requirement_caveats st in
      if executor_success st
      then
        let changeable = retry_can_change cs st in
        if cs \<noteq> [] \<and> changeable \<and> rc \<le> MAX_BUILDER_RETRIES cfg then Classifying
        else if cs \<noteq> [] \<and> changeable \<and> fst (rung_after_switch st (BUILDER_MAX_TOTAL_ATTEMPTS cfg))
        then Classifying
        else if cs \<noteq> [] \<and> better_earlier_sound mf st \<noteq> None then DeliverSound
        else ReviewerRun
      else if guard_trip_of st \<noteq> None
      then if fst (after_trip (guard_replay_count st) (Some GUARD_REPLAYS)) = REPLAY
           then GuardReplay else sound_or_end mf st
      else if \<not> retry_can_help (executor_failure_cause st) (executor_failure_facts st)
      then if rc \<le> MAX_BUILDER_RETRIES cfg \<and> another_engine_takes_over cfg cat q staged st
           then Classifying else sound_or_end mf st
      else if rc \<le> MAX_BUILDER_RETRIES cfg then Classifying
      else sound_or_end mf st)"

definition limits_end_the_review :: "settings \<Rightarrow> pstate \<Rightarrow> bool" where
  "limits_end_the_review cfg st =
     (VERDICT_BY_LIMITS cfg \<and> executor_success st \<and> executor_failed_gate st = []
      \<and> user_dispute st = None)"

definition route_after_reviewer :: "settings \<Rightarrow> pstate \<Rightarrow> node" where
  "route_after_reviewer cfg st =
     (let rc = retry_count st in
      if limits_end_the_review cfg st then END
      else if api_failure st \<noteq> []
      then if review_can_rerun cfg st then ReviewRetry else FailureHandler
      else if user_dispute st \<noteq> None \<and> rc = 0 \<and> user_dispute st \<noteq> Some ''accept'' then Classifying
      else if VERDICT_BY_LIMITS cfg then END
      else if reviewer_verdict st = ''PASS'' then END
      else if \<not> asks_for_rebuild (reviewer_axis_findings st) then END
      else if concern_retry_spent st then END
      else if rc \<le> MAX_BUILDER_RETRIES cfg then Classifying
      else if rc = MAX_BUILDER_RETRIES cfg + 1 \<and> executor_success st then Classifying
      else END)"

section \<open>A run\<close>

record gworld =
  gw_owned :: bool
  gw_intake :: "string option"
  gw_select :: select_input
  gw_admission :: admission_input
  gw_turn :: turn
  gw_measurement :: measurement
  gw_review :: review_input
  gw_feedback :: string
  gw_manifests :: manifests
  gw_order :: "(string list \<times> nat option) option"
  gw_staged :: "nat option"

record pipeline =
  pl_settings :: settings
  pl_catalogue :: catalogue
  pl_vocabulary :: vocabulary
  pl_request :: request

text \<open>
  A run is at a node with a state and the refusal record the last builder turn left in its workspace;
  it has ended with the message the failure handler gave (none on the other ends); or an exception
  left the graph: the fence refused the node, the engine's name is unknown, or a check crashed.
  \<open>gw_intake\<close> is the failure an interview ended with; \<open>None\<close> when the request is already there, as in
  every run the application starts.
\<close>

datatype crash = Superseded | UnknownEngine string | CheckCrashed SystemFailure

datatype gstate =
    At node pstate "refusal option"
  | Ended pstate string
  | Crashed crash

definition node_intake :: "string option \<Rightarrow> pstate \<Rightarrow> pstate" where
  "node_intake failure st =
     (case failure of None \<Rightarrow> st | Some marker \<Rightarrow> st\<lparr>api_failure := marker\<rparr>)"

definition go :: "node \<Rightarrow> pstate \<Rightarrow> refusal option \<Rightarrow> gstate" where
  "go n st r = (if n = END then Ended st [] else At n st r)"

fun run_node :: "pipeline \<Rightarrow> gworld \<Rightarrow> node \<Rightarrow> pstate \<Rightarrow> refusal option \<Rightarrow> gstate" where
  "run_node pl w Intake st r =
     (let s = node_intake (gw_intake w) st in go (route_after_intake s) s None)"
| "run_node pl w EngineSelect st r =
     (case node_engine_select (pl_catalogue pl) (gw_select w) st of
        Inl e \<Rightarrow> Crashed (UnknownEngine e)
      | Inr s \<Rightarrow> go (route_after_engine_select s) s None)"
| "run_node pl w RepairInspect st r = At RepairAttempt st None"
| "run_node pl w RepairAttempt st r = At GeometryAdmission st None"
| "run_node pl w GeometryAdmission st r =
     (let s = node_geometry_admission (pl_settings pl) (gw_admission w) st
      in go (route_after_geometry_admission s) s None)"
| "run_node pl w BuilderTurn st r =
     (let (s, left) = node_builder (pl_settings pl) (gw_turn w) st
      in go (route_after_builder (pl_settings pl) s) s left)"
| "run_node pl w ExecutorRun st r =
     (case node_executor (pl_settings pl) (pl_catalogue pl) (gw_measurement w) r st of
        Inl f \<Rightarrow> Crashed (CheckCrashed f)
      | Inr s \<Rightarrow> go (route_after_executor (pl_settings pl) (pl_catalogue pl) (pl_request pl)
                        (gw_staged w) (gw_manifests w) s) s None)"
| "run_node pl w Classifying st r =
     At EngineFallback (node_classifier (pl_vocabulary pl) (gw_feedback w) st) None"
| "run_node pl w EngineFallback st r =
     At BuilderTurn (node_engine_fallback (pl_settings pl) (pl_catalogue pl) (pl_request pl)
       (gw_order w) (gw_staged w) st) None"
| "run_node pl w ReviewerRun st r =
     (let s = node_reviewer (gw_review w) st in go (route_after_reviewer (pl_settings pl) s) s None)"
| "run_node pl w FailureHandler st r = Ended st (node_failure_handler st)"
| "run_node pl w InfraRetry st r = At BuilderTurn (node_infra_retry st) None"
| "run_node pl w ReviewRetry st r = At ReviewerRun (node_review_retry st) None"
| "run_node pl w GuardReplay st r = At BuilderTurn (node_guard_replay st) None"
| "run_node pl w DeliverSound st r =
     At ReviewerRun (node_deliver_sound (pl_catalogue pl) (gw_manifests w) st) None"
| "run_node pl w END st r = Ended st []"

text \<open>Every node runs inside the fence's wrapper.\<close>

definition fenced :: "pipeline \<Rightarrow> gworld \<Rightarrow> node \<Rightarrow> pstate \<Rightarrow> refusal option \<Rightarrow> gstate" where
  "fenced pl w n st r = (if gw_owned w then run_node pl w n st r else Crashed Superseded)"

fun graph_step :: "pipeline \<Rightarrow> gworld \<Rightarrow> gstate \<Rightarrow> gstate" where
  "graph_step pl w (At n st r) = fenced pl w n st r"
| "graph_step pl w g = g"

definition graph_run :: "pipeline \<Rightarrow> gworld list \<Rightarrow> gstate \<Rightarrow> gstate" where
  "graph_run pl ws g = fold (graph_step pl) ws g"

definition graph_start :: "pstate \<Rightarrow> gstate" where
  "graph_start st = At Intake st None"

fun running :: "gstate \<Rightarrow> bool" where
  "running (At n st r) = True"
| "running g = False"

text \<open>The same as a relation: one step of a run in some world.\<close>

inductive moves :: "pipeline \<Rightarrow> gstate \<Rightarrow> gstate \<Rightarrow> bool" for pl where
  step: "gw_owned w \<Longrightarrow> moves pl (At n st r) (run_node pl w n st r)"
| superseded: "moves pl (At n st r) (Crashed Superseded)"

inductive reaches :: "pipeline \<Rightarrow> gstate \<Rightarrow> gstate \<Rightarrow> bool" for pl where
  start: "reaches pl g g"
| move: "reaches pl g h \<Longrightarrow> moves pl h k \<Longrightarrow> reaches pl g k"

inductive_cases moves_At: "moves pl (At n st r) k"
inductive_simps moves_ended [simp]: "moves pl (Ended st m) k"
inductive_simps moves_crashed [simp]: "moves pl (Crashed c) k"

end
