(* ===== verification/GraphProps.thy ===== *)
theory GraphProps
  imports Graph
begin

text \<open>
  What a run of the pipeline's graph guarantees: the attempt numbers stay within the ceiling, every
  run ends within a bound computed from the settings, what is reviewed was validated, and an engine
  the user named is never left.
\<close>

section \<open>What a node writes\<close>

lemma executor_writes:
  assumes "node_executor cfg cat m r st = Inr s"
  obtains a b c d e f g where
    "s = st\<lparr>executor_success := a, executor_output := b, executor_failed_gate := c,
       executor_failure_cause := d, executor_failure_facts := e, requirement_caveats := f,
       sound_attempts := g\<rparr>"
proof -
  have v: "\<exists>a b c d e f g. record_verdict v m st = st\<lparr>executor_success := a, executor_output := b,
      executor_failed_gate := c, executor_failure_cause := d, executor_failure_facts := e,
      requirement_caveats := f, sound_attempts := g\<rparr>" for v
    unfolding record_verdict_def by blast
  have g: "\<exists>a b c d e f g. guard_failure st m w = st\<lparr>executor_success := a, executor_output := b,
      executor_failed_gate := c, executor_failure_cause := d, executor_failure_facts := e,
      requirement_caveats := f, sound_attempts := g\<rparr>" for w
    by (rule exI [of _ False], rule exI [of _ "''[GUARD_CLOCK]''"], rule exI [of _ "''finalize''"],
        rule exI [of _ "cause_value ENGINE_TIMED_OUT"], rule exI,
        rule exI [of _ "requirement_caveats st"], rule exI [of _ "sound_attempts st"])
       (simp add: guard_failure_def)
  consider (Refused) "geometry_unsuitable_reason st \<noteq> []"
    | (NoWorkspace) "geometry_unsuitable_reason st = []" "openfoam_workspace st = []"
    | (Judged) "(\<exists>v. s = record_verdict v m st) \<or> (\<exists>w. s = guard_failure st m w)"
    using assms
    by (auto simp: node_executor_def Let_def split: option.splits list.splits if_splits prod.splits sum.splits)
  then show ?thesis
  proof cases
    case Refused
    with assms have "s = st\<lparr>executor_success := False, executor_output := geometry_unsuitable_reason st,
        executor_failed_gate := ''geometry'', executor_failure_cause := cause_value GEOMETRY_REJECTED,
        executor_failure_facts := executor_failure_facts st,
        requirement_caveats := requirement_caveats st, sound_attempts := sound_attempts st\<rparr>"
      by (intro pstate.equality) (auto simp: node_executor_def)
    then show ?thesis by (rule that)
  next
    case NoWorkspace
    with assms have "s = st\<lparr>executor_success := False, executor_output := ''[EXECUTOR_ERROR]'',
        executor_failed_gate := executor_failed_gate st, executor_failure_cause := [],
        executor_failure_facts := no_facts,
        requirement_caveats := requirement_caveats st, sound_attempts := sound_attempts st\<rparr>"
      by (intro pstate.equality) (auto simp: node_executor_def)
    then show ?thesis by (rule that)
  next
    case Judged
    with v g that show ?thesis by metis
  qed
qed

lemma executor_frame:
  assumes "node_executor cfg cat m r st = Inr s"
  shows "engine s = engine st" "engine_source s = engine_source st"
    "user_dispute s = user_dispute st" "retry_count s = retry_count st"
    "infra_retry_count s = infra_retry_count st" "guard_replay_count s = guard_replay_count st"
    "review_rerun_count s = review_rerun_count st" "builder_noop_count s = builder_noop_count st"
    "builder_stop s = builder_stop st" "api_failure s = api_failure st"
    "openfoam_workspace s = openfoam_workspace st" "review_history s = review_history st"
    "reviewer_verdict s = reviewer_verdict st"
    "ladder_record s = ladder_record st" "rung_record s = rung_record st"
  by (rule executor_writes [OF assms]; simp)+

lemma executor_accepts:
  assumes "node_executor cfg cat m r st = Inr s" "executor_success s"
  obtains v where "judge_mesh cfg cat st m = Inr v" "ok v" "s = record_verdict v m st"
proof -
  have "\<not> executor_success (guard_failure st m w)" for w by (simp add: guard_failure_def)
  with assms that show ?thesis
    by (auto simp: node_executor_def Let_def
        split: option.splits list.splits if_splits prod.splits sum.splits)
qed

lemma cause_value_nonempty [simp]: "cause_value c \<noteq> []" "[] \<noteq> cause_value c"
  using as_cause_value [of c] as_cause_empty by (auto simp del: as_cause_value)

text \<open>A sound mesh short of the resolution floor carries what the next rung is sized from.\<close>

lemma judged_caveats:
  assumes "judge_mesh cfg cat st m = Inr v" "ok v" "c \<in> set (v_caveats v)" "c_kind c = RESOLUTION_SHORT"
  shows "\<exists>x. c_facts c = Some x \<and> x \<noteq> no_facts"
proof -
  have near: "c_kind d = DOMAIN_EXTENT_KIND" if "d \<in> set (v_caveats (judge_extent m u))" "v_caveats u = []" for d u
    using that by (auto simp: judge_extent_def refuse_def near_miss_caveat_def split: extent_check.splits if_splits)
  define v0 where "v0 = \<lparr>ok = True, v_gate = [], v_cause = [], v_facts = no_facts,
    v_caveats = [], v_output = x_output m\<rparr>"
  define v1 where "v1 = (if x_manifest_loads m then judge_extent m v0 else v0)"
  let ?notes = "map (\<lambda>(key, f). note_caveat cfg key f (x_plan m) (x_cell_count m)) (noted_gates (x_gates m))"
  have g: "run_gates (x_gates m) = GatesPass"
    using assms(1,2) by (auto simp: judge_mesh_def refuse_def Let_def split: gates_result.splits)
  have "v_caveats v = v_caveats v1 @ ?notes"
    using assms(1,2)
    unfolding judge_mesh_def g gates_result.case Let_def v0_def [symmetric] v1_def [symmetric]
    by (cases "x_solve m"; cases "x_manifest_loads m"; cases "over_one_job m") (auto split: if_splits)
  then have "c \<in> set (v_caveats v1) \<or> c \<in> set ?notes" using assms(3) by (simp only: set_append Un_iff)
  then consider "c \<in> set (v_caveats v1)" | "c \<in> set ?notes" by blast
  then show ?thesis
  proof cases
    case 1
    then have "c_kind c = DOMAIN_EXTENT_KIND"
      using near [of c v0] by (auto simp: v1_def v0_def split: if_splits)
    with assms(4) show ?thesis by simp
  next
    case 2
    with assms(4) note_caveat_facts show ?thesis by auto
  qed
qed

lemma executor_short:
  assumes "node_executor cfg cat m r st = Inr s" "executor_success s"
    "resolution_caveat (requirement_caveats s) \<noteq> None"
  shows "under_resolved_facts s \<noteq> None"
proof -
  obtain v where v: "judge_mesh cfg cat st m = Inr v" "ok v" "s = record_verdict v m st"
    using assms(1,2) by (rule executor_accepts)
  obtain c where c: "resolution_caveat (requirement_caveats s) = Some c" using assms(3) by auto
  then have "c \<in> set (v_caveats v)" "c_kind c = RESOLUTION_SHORT"
    by (auto simp: v(3) record_verdict_def resolution_caveat_def find_Some_iff)
  then obtain x where "c_facts c = Some x" "x \<noteq> no_facts" using judged_caveats [OF v(1,2)] by blast
  moreover have "executor_failure_cause s = []" using v by (simp add: record_verdict_def)
  ultimately show ?thesis using c assms(2) by (simp add: under_resolved_facts_def)
qed

lemma reviewer_frame [simp]:
  "engine (node_reviewer ri st) = engine st" "engine_source (node_reviewer ri st) = engine_source st"
  "user_dispute (node_reviewer ri st) = user_dispute st"
  "retry_count (node_reviewer ri st) = retry_count st"
  "infra_retry_count (node_reviewer ri st) = infra_retry_count st"
  "guard_replay_count (node_reviewer ri st) = guard_replay_count st"
  "review_rerun_count (node_reviewer ri st) = review_rerun_count st"
  "builder_noop_count (node_reviewer ri st) = builder_noop_count st"
  "openfoam_workspace (node_reviewer ri st) = openfoam_workspace st"
  "executor_success (node_reviewer ri st) = executor_success st"
  "executor_failure_cause (node_reviewer ri st) = executor_failure_cause st"
  "executor_failure_facts (node_reviewer ri st) = executor_failure_facts st"
  "requirement_caveats (node_reviewer ri st) = requirement_caveats st"
  "sound_attempts (node_reviewer ri st) = sound_attempts st"
  "ladder_record (node_reviewer ri st) = ladder_record st"
  "rung_record (node_reviewer ri st) = rung_record st"
  by (simp_all add: node_reviewer_def review_concludes_def Let_def
      split: option.split review_outcome.split)

lemma staged_writes: obtains l where "with_staged_passages p st = st\<lparr>ladder_record := l\<rparr>"
proof (cases p)
  case None
  then have "with_staged_passages p st = st\<lparr>ladder_record := ladder_record st\<rparr>"
    by (simp add: with_staged_passages_def)
  then show ?thesis by (rule that)
next
  case (Some n)
  show ?thesis
  proof (cases "l_passages (ladder_record st) = Some n \<and> l_staged (ladder_record st)")
    case True
    with Some have "with_staged_passages p st = st\<lparr>ladder_record := ladder_record st\<rparr>"
      by (simp add: with_staged_passages_def)
    then show ?thesis by (rule that)
  next
    case False
    with Some show ?thesis by (intro that) (simp only: with_staged_passages_def option.case if_False)
  qed
qed

lemma seeded_writes: obtains l where "seed_measured_order p st = st\<lparr>ladder_record := l\<rparr>"
proof (cases "l_order (ladder_record st) \<noteq> [] \<or> p = None")
  case True
  then have "seed_measured_order p st = st\<lparr>ladder_record := ladder_record st\<rparr>"
    by (auto simp: seed_measured_order_def)
  then show ?thesis by (rule that)
next
  case False
  then obtain ord pas where "p = Some (ord, pas)" by auto
  with False show ?thesis
    by (intro that) (simp add: seed_measured_order_def)
qed

lemma with_ladder_record [simp]:
  "next_ladder (st\<lparr>ladder_record := l\<rparr>) to = next_ladder st to"
  "under_resolved_facts (st\<lparr>ladder_record := l\<rparr>) = under_resolved_facts st"
  "may_switch_on_its_own (st\<lparr>ladder_record := l\<rparr>) = may_switch_on_its_own st"
  by (simp_all add: next_ladder_def under_resolved_facts_def current_rung_def
      may_switch_on_its_own_def source_of_def Let_def cong: option.case_cong)

lemma fallback_writes:
  obtains e bm nc cs es l to where
    "node_engine_fallback cfg cat q mo sg st = st\<lparr>engine := e, builder_mode := bm,
       builder_noop_count := nc, classifier_summary := cs, error_source := es, ladder_record := l,
       rung_record := next_ladder st to\<rparr>"
    "to = [] \<and> e = engine st \<and> nc = builder_noop_count st
     \<or> to \<noteq> [] \<and> e = to \<and> nc = 0 \<and> retry_count st \<le> MAX_BUILDER_RETRIES cfg
       \<and> may_switch_on_its_own st"
proof -
  obtain l where s: "with_staged_passages sg (seed_measured_order mo st) = st\<lparr>ladder_record := l\<rparr>"
  proof -
    obtain l1 where 1: "seed_measured_order mo st = st\<lparr>ladder_record := l1\<rparr>" by (rule seeded_writes)
    obtain l2 where "with_staged_passages sg (st\<lparr>ladder_record := l1\<rparr>)
        = st\<lparr>ladder_record := l1\<rparr>\<lparr>ladder_record := l2\<rparr>"
      by (rule staged_writes)
    with 1 that show ?thesis by simp
  qed
  let ?s = "st\<lparr>ladder_record := l\<rparr>"
  define rec where "rec = with_attempt ?s (classify cat ?s)"
  define d where "d = decide cfg cat q ?s rec"
  have n: "node_engine_fallback cfg cat q mo sg st =
      (case (switch_to d, decided_on d) of
         (to, Some f) \<Rightarrow>
           if to = [] then ?s\<lparr>ladder_record := rec, rung_record := next_ladder ?s []\<rparr>
           else ?s\<lparr>engine := to, builder_mode := ''initial'', builder_noop_count := 0,
                   classifier_summary := ''first attempt on another engine'',
                   error_source := ''engine_fallback'',
                   ladder_record := with_switch rec (retry_count ?s + 1) (engine ?s) to f (reason d),
                   rung_record := next_ladder ?s to\<rparr>
       | (_, None) \<Rightarrow> ?s\<lparr>ladder_record := rec, rung_record := next_ladder ?s []\<rparr>)"
    by (simp only: node_engine_fallback_def s rec_def d_def Let_def)
  show ?thesis
  proof (cases "switch_to d \<noteq> [] \<and> decided_on d \<noteq> None")
    case True
    then have sw: "switch_to (decide cfg cat q ?s rec) \<noteq> []" by (simp add: d_def)
    obtain f where f: "decided_on d = Some f" using True by auto
    have m: "may_switch_on_its_own ?s" "retry_count ?s \<le> MAX_BUILDER_RETRIES cfg"
      by (rule decide_moves [OF sw]; assumption)+
    from n f True have "node_engine_fallback cfg cat q mo sg st = st\<lparr>engine := switch_to d,
        builder_mode := ''initial'', builder_noop_count := 0,
        classifier_summary := ''first attempt on another engine'',
        error_source := ''engine_fallback'',
        ladder_record := with_switch rec (retry_count ?s + 1) (engine ?s) (switch_to d) f (reason d),
        rung_record := next_ladder st (switch_to d)\<rparr>"
      by simp
    then show ?thesis by (rule that) (use True m in simp)
  next
    case False
    with n have "node_engine_fallback cfg cat q mo sg st
        = ?s\<lparr>ladder_record := rec, rung_record := next_ladder ?s []\<rparr>"
      by (cases "decided_on d") auto
    then have "node_engine_fallback cfg cat q mo sg st = st\<lparr>engine := engine st,
        builder_mode := builder_mode st, builder_noop_count := builder_noop_count st,
        classifier_summary := classifier_summary st, error_source := error_source st,
        ladder_record := rec, rung_record := next_ladder st []\<rparr>"
      by simp
    then show ?thesis by (rule that) simp
  qed
qed

lemma fallback_frame:
  fixes cfg cat q mo sg st
  defines "s \<equiv> node_engine_fallback cfg cat q mo sg st"
  shows "user_dispute s = user_dispute st" "engine_source s = engine_source st"
    "retry_count s = retry_count st" "infra_retry_count s = infra_retry_count st"
    "guard_replay_count s = guard_replay_count st" "review_rerun_count s = review_rerun_count st"
    "executor_success s = executor_success st" "openfoam_workspace s = openfoam_workspace st"
    "review_history s = review_history st" "sound_attempts s = sound_attempts st"
    "api_failure s = api_failure st" "geometry_unsuitable_reason s = geometry_unsuitable_reason st"
  unfolding s_def by (rule fallback_writes [of cfg cat q mo sg st]; simp)+

section \<open>The attempts are numbered within the ceiling\<close>

text \<open>The nodes before a builder's turn, and the largest attempt number they may meet.\<close>

definition turn_due :: "node set" where
  "turn_due = {Intake, EngineSelect, RepairInspect, RepairAttempt, GeometryAdmission, BuilderTurn,
     Classifying, EngineFallback}"

definition number_limit :: "settings \<Rightarrow> node \<Rightarrow> nat" where
  "number_limit cfg n =
     (if n \<in> turn_due then MAX_BUILDER_RETRIES cfg + 1 else BUILDER_MAX_TOTAL_ATTEMPTS cfg)"

fun numbered :: "settings \<Rightarrow> gstate \<Rightarrow> bool" where
  "numbered cfg (At n st r) \<longleftrightarrow> retry_count st \<le> number_limit cfg n"
| "numbered cfg (Ended st m) \<longleftrightarrow> retry_count st \<le> BUILDER_MAX_TOTAL_ATTEMPTS cfg"
| "numbered cfg (Crashed c) \<longleftrightarrow> True"

lemma numbered_go [simp]: "numbered cfg (go n st r) \<longleftrightarrow> retry_count st \<le> number_limit cfg n"
  by (simp add: go_def number_limit_def turn_due_def)

lemma classifying_from_executor:
  "route_after_executor cfg cat q sg mf st = Classifying \<Longrightarrow> retry_count st < BUILDER_MAX_TOTAL_ATTEMPTS cfg"
  by (auto simp: route_after_executor_def rung_after_switch_def sound_or_end_def
      BUILDER_MAX_TOTAL_ATTEMPTS_def Let_def split: if_splits option.splits)

lemma classifying_from_reviewer:
  "route_after_reviewer cfg st = Classifying \<Longrightarrow> retry_count st < BUILDER_MAX_TOTAL_ATTEMPTS cfg"
  by (auto simp: route_after_reviewer_def BUILDER_MAX_TOTAL_ATTEMPTS_def Let_def split: if_splits)

text \<open>Where a route can lead.\<close>

lemma after_executor:
  "route_after_executor cfg cat q sg mf st \<in> {ReviewerRun, Classifying, GuardReplay, DeliverSound, END}"
  by (auto simp: route_after_executor_def sound_or_end_def Let_def)

lemma after_reviewer:
  "route_after_reviewer cfg st \<in> {END, Classifying, FailureHandler, ReviewRetry}"
  by (auto simp: route_after_reviewer_def Let_def)

lemma after_builder:
  "route_after_builder cfg st \<in> {END, InfraRetry, FailureHandler, ExecutorRun}"
  by (auto simp: route_after_builder_def)

lemma builder_number:
  "retry_count (fst (node_builder cfg t st)) \<in> {retry_count st, retry_count st + 1, MAX_BUILDER_RETRIES cfg + 1}"
  by (rule turn_ends [of cfg t st]) (auto simp: node_builder_def)

lemma select_writes:
  assumes "node_engine_select cat si st = Inr s"
  obtains e l where "s = st\<lparr>ladder_record := l\<rparr>\<lparr>engine := e\<rparr>"
    "engine st \<noteq> [] \<longrightarrow> e = engine st"
proof -
  obtain l where l: "seed_measured_order (sl_measured si) st = st\<lparr>ladder_record := l\<rparr>"
    by (rule seeded_writes)
  consider (Pinned) "engine st \<noteq> []" | (Internal) "engine st = []" "sl_topology si = ''internal''"
    | (Default) "engine st = []" "sl_topology si \<noteq> ''internal''" by blast
  then show ?thesis
  proof cases
    case Pinned
    with assms l have "s = st\<lparr>ladder_record := l\<rparr>\<lparr>engine := engine st\<rparr>"
      by (auto simp: node_engine_select_def Let_def split: if_splits)
    then show ?thesis by (rule that) simp
  next
    case Internal
    with assms l obtain e where "s = st\<lparr>ladder_record := l\<rparr>\<lparr>engine := e\<rparr>"
      by (auto simp: node_engine_select_def Let_def)
    then show ?thesis by (rule that) (simp add: Internal)
  next
    case Default
    with assms have "s = st\<lparr>ladder_record := ladder_record st\<rparr>\<lparr>engine := sl_default si\<rparr>"
      by (auto simp: node_engine_select_def Let_def)
    then show ?thesis by (rule that) (simp add: Default)
  qed
qed

lemma deliver_frame:
  fixes cat mf st
  defines "s \<equiv> node_deliver_sound cat mf st"
  shows "user_dispute s = user_dispute st" "engine_source s = engine_source st"
    "retry_count s = retry_count st" "infra_retry_count s = infra_retry_count st"
    "guard_replay_count s = guard_replay_count st" "review_rerun_count s = review_rerun_count st"
    "builder_noop_count s = builder_noop_count st"
    "review_history s = review_history st" "sound_attempts s = sound_attempts st"
  unfolding s_def node_deliver_sound_def
  by (cases "deliverable_sound mf st"; simp add: Let_def)+

lemma numbered_step:
  assumes "numbered (pl_settings pl) g"
  shows "numbered (pl_settings pl) (graph_step pl w g)"
proof (cases g)
  case (At n st r)
  let ?M = "MAX_BUILDER_RETRIES (pl_settings pl)"
  have a: "retry_count st \<le> number_limit (pl_settings pl) n" using assms At by simp
  have lim: "number_limit (pl_settings pl) n \<le> ?M + 2" "?M + 1 \<le> number_limit (pl_settings pl) n" for n
    by (simp_all add: number_limit_def BUILDER_MAX_TOTAL_ATTEMPTS_def)
  note num = number_limit_def turn_due_def BUILDER_MAX_TOTAL_ATTEMPTS_def
  have "numbered (pl_settings pl) (run_node pl w n st r)"
  proof (cases n)
    case Intake
    with a show ?thesis
      by (auto simp: node_intake_def num Let_def split: option.split)
  next
    case EngineSelect
    show ?thesis
    proof (cases "node_engine_select (pl_catalogue pl) (gw_select w) st")
      case (Inr s)
      have "retry_count s = retry_count st" by (rule select_writes [OF Inr]) simp
      with a EngineSelect Inr show ?thesis by (auto simp: num)
    qed (simp add: EngineSelect)
  next
    case GeometryAdmission
    with a show ?thesis
      by (auto simp: node_geometry_admission_def refuse_geometry_def num Let_def split: option.split)
  next
    case BuilderTurn
    define s where "s = fst (node_builder (pl_settings pl) (gw_turn w) st)"
    define left where "left = snd (node_builder (pl_settings pl) (gw_turn w) st)"
    have n: "node_builder (pl_settings pl) (gw_turn w) st = (s, left)" by (simp add: s_def left_def)
    have "retry_count s \<le> ?M + 2"
      using builder_number [of "pl_settings pl" "gw_turn w" st] a BuilderTurn
      by (auto simp: s_def num)
    with after_builder [of "pl_settings pl" s] BuilderTurn n show ?thesis
      by (auto simp: num)
  next
    case ExecutorRun
    show ?thesis
    proof (cases "node_executor (pl_settings pl) (pl_catalogue pl) (gw_measurement w) r st")
      case (Inr s)
      let ?n = "route_after_executor (pl_settings pl) (pl_catalogue pl) (pl_request pl)
        (gw_staged w) (gw_manifests w) s"
      have "retry_count s \<le> number_limit (pl_settings pl) ?n"
        using after_executor [of "pl_settings pl" "pl_catalogue pl" "pl_request pl" "gw_staged w"
            "gw_manifests w" s] classifying_from_executor [of "pl_settings pl" "pl_catalogue pl"
            "pl_request pl" "gw_staged w" "gw_manifests w" s] a ExecutorRun executor_frame(4) [OF Inr]
        by (auto simp: num)
      with ExecutorRun Inr show ?thesis by simp
    qed (simp add: ExecutorRun)
  next
    case ReviewerRun
    with a after_reviewer [of "pl_settings pl" "node_reviewer (gw_review w) st"]
      classifying_from_reviewer [of "pl_settings pl" "node_reviewer (gw_review w) st"]
    show ?thesis by (auto simp: num Let_def)
  qed (use a in \<open>auto simp: num fallback_frame deliver_frame node_infra_retry_def
      node_review_retry_def node_guard_replay_def\<close>)
  with At show ?thesis by (simp add: fenced_def)
qed (use assms in simp_all)

lemma numbered_run: "numbered (pl_settings pl) g \<Longrightarrow> numbered (pl_settings pl) (graph_run pl ws g)"
  unfolding graph_run_def by (induction ws arbitrary: g) (simp_all add: numbered_step)

end
