(* ===== verification/Measures.thy ===== *)
theory Measures
  imports FailureCause
begin

text \<open>
  What is measured of a built mesh and the bars it is held to: values as the manifest's JSON holds
  them, the criteria every engine declares (\<open>engines/<engine>/criteria.py\<close>,
  \<open>engines/openfoam_criteria.py\<close>), their evaluation and the gate over them
  (\<open>engines/review_types.py\<close>, \<open>engines/quality_criteria.py\<close>), and the resolution floor's verdict
  (\<open>engines/passage_flow.py\<close>).

  A float is an exact rational, an infinity or not-a-number; the code only compares them, and an
  integer converted to a float is within the range a double holds exactly. A measured text or a
  nested object is never compared with a bar, so a value is none, a bool, a number, or a list of
  texts. Labels, rationales and citations are left out.
\<close>

section \<open>Measured values\<close>

datatype number = Fin rat | PInf | NInf | NaN

fun num_le :: "number \<Rightarrow> number \<Rightarrow> bool" where
  "num_le NaN y = False"
| "num_le x NaN = False"
| "num_le NInf y = True"
| "num_le x PInf = True"
| "num_le (Fin a) (Fin b) = (a \<le> b)"
| "num_le x y = False"

definition num_lt :: "number \<Rightarrow> number \<Rightarrow> bool" where
  "num_lt x y = (num_le x y \<and> \<not> num_le y x)"

definition num_eq :: "number \<Rightarrow> number \<Rightarrow> bool" where
  "num_eq x y = (x = y \<and> x \<noteq> NaN)"

lemma num_lt_Fin [simp]: "num_lt (Fin a) (Fin b) = (a < b)"
  by (auto simp: num_lt_def)

lemma num_eq_Fin [simp]: "num_eq (Fin a) (Fin b) = (a = b)"
  by (simp add: num_eq_def)

datatype mvalue = MNone | MBool bool | MInt int | MFloat number | MTexts "string list"

text \<open>\<open>float(v)\<close>, for the values it accepts.\<close>

fun as_number :: "mvalue \<Rightarrow> number option" where
  "as_number (MBool b) = Some (Fin (if b then 1 else 0))"
| "as_number (MInt i) = Some (Fin (of_int i))"
| "as_number (MFloat x) = Some x"
| "as_number v = None"

definition py_eq :: "mvalue \<Rightarrow> mvalue \<Rightarrow> bool" where
  "py_eq v w =
     (case (as_number v, as_number w) of
        (Some x, Some y) \<Rightarrow> num_eq x y
      | (None, None) \<Rightarrow> v = w
      | _ \<Rightarrow> False)"

fun py_true :: "mvalue \<Rightarrow> bool" where
  "py_true MNone = False"
| "py_true (MBool b) = b"
| "py_true (MInt i) = (i \<noteq> 0)"
| "py_true (MFloat x) = (x \<noteq> Fin 0)"
| "py_true (MTexts xs) = (xs \<noteq> [])"

fun finite_value :: "mvalue \<Rightarrow> bool" where
  "finite_value (MFloat PInf) = False"
| "finite_value (MFloat NInf) = False"
| "finite_value (MFloat NaN) = False"
| "finite_value v = True"

text \<open>The readings of a number the modules use: \<open>finite_num\<close> drops bools and non-finite floats
  (\<open>review_delivery._num\<close>), \<open>plain_num\<close> only bools (\<open>verdict_limits._num\<close>, \<open>fea_review._num\<close>),
  \<open>float_num\<close> only non-finite floats (\<open>passage_flow._num\<close>).\<close>

fun finite_num :: "mvalue \<Rightarrow> rat option" where
  "finite_num (MInt i) = Some (of_int i)"
| "finite_num (MFloat (Fin r)) = Some r"
| "finite_num v = None"

fun plain_num :: "mvalue \<Rightarrow> number option" where
  "plain_num (MInt i) = Some (Fin (of_int i))"
| "plain_num (MFloat x) = Some x"
| "plain_num v = None"

definition float_num :: "mvalue \<Rightarrow> rat option" where
  "float_num v = (case as_number v of Some (Fin r) \<Rightarrow> Some r | _ \<Rightarrow> None)"

definition num_at :: "(string \<rightharpoonup> mvalue) \<Rightarrow> string \<Rightarrow> mvalue" where
  "num_at q k = (case q k of Some v \<Rightarrow> v | None \<Rightarrow> MNone)"

section \<open>Criteria\<close>

record Criterion =
  cr_key :: string
  cr_op :: string
  cr_threshold :: mvalue
  cr_gating :: bool

datatype judged = Met | Missed | NotMeasured | Raises

definition judged_of :: "bool \<Rightarrow> judged" where
  "judged_of b = (if b then Met else Missed)"

definition compare_with :: "(number \<Rightarrow> number \<Rightarrow> bool) \<Rightarrow> mvalue \<Rightarrow> mvalue \<Rightarrow> judged" where
  "compare_with R v w =
     (case (as_number v, as_number w) of
        (Some x, Some y) \<Rightarrow> judged_of (R x y)
      | _ \<Rightarrow> Raises)"

definition evaluate_criterion :: "Criterion \<Rightarrow> (string \<rightharpoonup> mvalue) \<Rightarrow> judged" where
  "evaluate_criterion c q =
     (let v = num_at q (cr_key c) in
      if v = MNone \<or> \<not> finite_value v then NotMeasured
      else if cr_op c = ''empty'' then judged_of (\<not> py_true v)
      else if cr_op c = ''=='' then judged_of (py_eq v (cr_threshold c))
      else if cr_op c = ''<='' then compare_with num_le v (cr_threshold c)
      else if cr_op c = ''>'' then compare_with (\<lambda>x y. num_lt y x) v (cr_threshold c)
      else Raises)"

abbreviation criterion :: "string \<Rightarrow> string \<Rightarrow> mvalue \<Rightarrow> bool \<Rightarrow> Criterion" where
  "criterion k op t g \<equiv> \<lparr>cr_key = k, cr_op = op, cr_threshold = t, cr_gating = g\<rparr>"

definition FATAL_TOPOLOGY :: Criterion where
  "FATAL_TOPOLOGY = criterion ''fatal'' ''empty'' MNone True"

definition MAX_NON_ORTHO :: Criterion where
  "MAX_NON_ORTHO = criterion ''max_non_ortho'' ''<='' (MFloat (Fin 65)) False"

definition snappy_criteria :: "Criterion list" where
  "snappy_criteria =
     [criterion ''timed_out'' ''=='' (MBool False) True,
      criterion ''rc'' ''=='' (MInt 0) True,
      criterion ''wall_faces'' ''>'' (MInt 0) True,
      FATAL_TOPOLOGY,
      criterion ''skew_fraction'' ''<='' (MFloat (Fin (5 / 10000))) False,
      MAX_NON_ORTHO,
      criterion ''layer_coverage_pct'' ''>'' (MFloat (Fin 0)) False]"

definition cfmesh_criteria :: "Criterion list" where
  "cfmesh_criteria =
     [criterion ''timed_out'' ''=='' (MBool False) True,
      criterion ''rc'' ''=='' (MInt 0) True,
      FATAL_TOPOLOGY,
      MAX_NON_ORTHO,
      criterion ''layer_coverage_pct'' ''>'' (MFloat (Fin 0)) False]"

definition gmsh_criteria :: "Criterion list" where
  "gmsh_criteria =
     [criterion ''timed_out'' ''=='' (MBool False) True,
      criterion ''rc'' ''=='' (MInt 0) True,
      criterion ''fatal'' ''empty'' MNone True,
      criterion ''elements_under_floor'' ''=='' (MInt 0) True,
      criterion ''min_sicn'' ''>'' (MFloat (Fin (1 / 10))) False,
      criterion ''max_non_ortho'' ''<='' (MFloat (Fin 85)) True,
      criterion ''sicn_low_fraction'' ''<='' (MFloat (Fin (2 / 100))) False]"

definition snapgrid_criteria :: "Criterion list" where
  "snapgrid_criteria =
     [criterion ''timed_out'' ''=='' (MBool False) True,
      criterion ''rc'' ''=='' (MInt 0) True,
      criterion ''regions_missing'' ''empty'' MNone True,
      criterion ''interface_ok'' ''=='' (MBool True) True,
      FATAL_TOPOLOGY,
      criterion ''skew_fraction'' ''<='' (MFloat (Fin (5 / 10000))) True,
      MAX_NON_ORTHO,
      criterion ''thin_layers_short'' ''empty'' MNone False,
      criterion ''resolution_short'' ''empty'' MNone False]"

definition multiregion_criteria :: "Criterion list" where
  "multiregion_criteria =
     [criterion ''timed_out'' ''=='' (MBool False) True,
      criterion ''rc'' ''=='' (MInt 0) True,
      criterion ''regions_missing'' ''empty'' MNone True,
      criterion ''interface_ok'' ''=='' (MBool True) True,
      FATAL_TOPOLOGY,
      criterion ''skew_fraction'' ''<='' (MFloat (Fin (5 / 10000))) True,
      MAX_NON_ORTHO,
      criterion ''layer_coverage_pct'' ''>'' (MFloat (Fin 0)) False]"

definition QUALITY_FLOOR :: rat where "QUALITY_FLOOR = 1 / 100"
definition PASSAGE_MIN_CELLS_ACROSS :: int where "PASSAGE_MIN_CELLS_ACROSS = 12"

definition vmtk_criteria :: "Criterion list" where
  "vmtk_criteria =
     [criterion ''timed_out'' ''=='' (MBool False) True,
      criterion ''rc'' ''=='' (MInt 0) True,
      criterion ''fatal'' ''empty'' MNone True,
      criterion ''min_quality'' ''>'' (MFloat (Fin QUALITY_FLOOR)) True,
      criterion ''cells'' ''>'' (MInt 0) True,
      criterion ''passage_cells_across'' ''>'' (MInt (PASSAGE_MIN_CELLS_ACROSS - 1)) False,
      criterion ''layer_coverage'' ''>'' (MFloat (Fin 0)) False]"

text \<open>The lookup takes the name without its surrounding blanks, in lower case; an unknown or empty
  name reads the default engine's bars.\<close>

definition DEFAULT_ENGINE :: string where "DEFAULT_ENGINE = ''cfmesh''"

definition criteria_for :: "string \<Rightarrow> Criterion list" where
  "criteria_for e =
     (let key = lower (strip e) in
      if key = ''snappy'' then snappy_criteria
      else if key = ''gmsh'' then gmsh_criteria
      else if key = ''snapgrid'' then snapgrid_criteria
      else if key = ''snappy_multiregion'' then multiregion_criteria
      else if key = ''vmtk'' then vmtk_criteria
      else cfmesh_criteria)"

section \<open>The manifest\<close>

text \<open>
  \<open>mesh_manifest.json\<close>: the engine that wrote it, the flow, the patches with their roles and face
  counts, and the \<open>quality\<close> block - its plain entries as a map, its nested ones as records. A part
  of the passage evidence that is absent has no value in it.
\<close>

record passage_part =
  pp_p05 :: mvalue
  pp_points :: mvalue
  pp_share :: mvalue
  pp_cells :: mvalue

record passage_flow =
  pf_main_way :: bool
  pf_side :: passage_part
  pf_main :: passage_part
  pf_neck :: passage_part

record fea_block =
  fb_plan :: bool
  fb_through_wall :: mvalue
  fb_coarsened :: bool
  fb_short :: "string list"
  fb_inverted :: mvalue
  fb_set_aside :: mvalue
  fb_cusps :: "mvalue option"
  fb_places :: "string list"
  fb_micro :: mvalue
  fb_micro_places :: "string list"
  fb_bonded_checked :: "mvalue option"
  fb_open_bonded :: "string list"

record manifest =
  mf_mode :: string
  mf_topology :: string
  mf_params :: json_obj
  mf_patch_types :: "(string \<times> string) list"
  mf_face_counts :: "(string \<times> int) list"
  mf_quality :: "string \<rightharpoonup> mvalue"
  mf_passage_p05 :: mvalue
  mf_passage_flow :: "passage_flow option"
  mf_wake :: bool
  mf_faces_complete :: mvalue
  mf_fea :: "fea_block option"

definition is_ground :: "string \<Rightarrow> string \<Rightarrow> bool" where
  "is_ground name role = (lower (strip name) = ''ground'' \<and> lower (strip role) = ''wall'')"

definition wall_faces :: "manifest \<Rightarrow> mvalue" where
  "wall_faces m =
     (let n = sum_list (map (\<lambda>(p, r). case map_of (mf_face_counts m) p of Some k \<Rightarrow> k | None \<Rightarrow> 0)
                (filter (\<lambda>(p, r). r = ''wall'' \<and> \<not> (mf_topology m \<noteq> ''internal'' \<and> is_ground p r))
                  (mf_patch_types m)))
      in if n = 0 then MNone else MInt n)"

definition measurements_from_manifest :: "manifest \<Rightarrow> string \<rightharpoonup> mvalue" where
  "measurements_from_manifest m =
     (mf_quality m)(''bounds'' := None, ''wall_faces'' \<mapsto> wall_faces m)"

section \<open>The gate over the declared bars\<close>

definition BUILD_TIME_KEYS :: "string list" where
  "BUILD_TIME_KEYS = [''rc'', ''timed_out'']"

definition evaluate_all :: "string \<Rightarrow> (string \<rightharpoonup> mvalue) \<Rightarrow> (Criterion \<times> judged) list" where
  "evaluate_all e q = map (\<lambda>c. (c, evaluate_criterion c q)) (criteria_for e)"

datatype bars_answer = BarsMet | BarsRefuse FailureCause string | BarsRaise

fun judge_bars :: "(Criterion \<times> judged) list \<Rightarrow> bars_answer" where
  "judge_bars [] = BarsMet"
| "judge_bars ((c, j) # rows) =
     (if \<not> cr_gating c \<or> cr_key c \<in> set BUILD_TIME_KEYS then judge_bars rows
      else case j of
        Met \<Rightarrow> judge_bars rows
      | _ \<Rightarrow> BarsRefuse MESH_QUALITY (cr_key c))"

definition gate_declared_criteria :: "string \<Rightarrow> manifest option \<Rightarrow> bars_answer" where
  "gate_declared_criteria e m =
     (case m of
        None \<Rightarrow> BarsRefuse ENGINE_CRASHED []
      | Some mf \<Rightarrow>
          let rows = evaluate_all e (measurements_from_manifest mf) in
          if list_ex (\<lambda>(c, j). j = Raises) rows then BarsRaise else judge_bars rows)"

definition production_grade :: "string \<Rightarrow> (string \<rightharpoonup> mvalue) \<Rightarrow> string option" where
  "production_grade e q =
     map_option (\<lambda>(c, j). cr_key c) (find (\<lambda>(c, j). cr_gating c \<and> j = Missed) (evaluate_all e q))"

lemma judge_bars_met:
  "judge_bars rows = BarsMet \<longleftrightarrow>
     (\<forall>(c, j) \<in> set rows. cr_gating c \<longrightarrow> cr_key c \<notin> set BUILD_TIME_KEYS \<longrightarrow> j = Met)"
  by (induction rows rule: judge_bars.induct) (auto split: judged.splits)

text \<open>The gate lets a mesh through only when every gating bar that is still measurable was
  measured on it and met.\<close>

lemma gate_passes_iff:
  "gate_declared_criteria e (Some m) = BarsMet \<longleftrightarrow>
     (\<forall>c \<in> set (criteria_for e). evaluate_criterion c (measurements_from_manifest m) \<noteq> Raises)
   \<and> (\<forall>c \<in> set (criteria_for e). cr_gating c \<longrightarrow> cr_key c \<notin> set BUILD_TIME_KEYS \<longrightarrow>
        evaluate_criterion c (measurements_from_manifest m) = Met)"
  by (auto simp: gate_declared_criteria_def judge_bars_met evaluate_all_def list_ex_iff Let_def)

section \<open>The resolution floor\<close>

definition PASSAGE_FLOOR_CELLS :: rat where "PASSAGE_FLOOR_CELLS = 12"
definition SIDE_SHARE_MAX :: rat where "SIDE_SHARE_MAX = 1 / 4"
definition NECK_MIN_POINTS :: rat where "NECK_MIN_POINTS = 20"

datatype scope = ScopeUnmeasured | ScopeNarrowest | ScopeMain

record ResolutionVerdict =
  rv_ok :: bool
  rv_scope :: scope
  rv_cells :: "rat option"
  rv_floor :: rat
  rv_side :: mvalue

definition zero_if_none :: "rat option \<Rightarrow> rat" where
  "zero_if_none x = (case x of Some r \<Rightarrow> r | None \<Rightarrow> 0)"

definition judge_resolution :: "manifest \<Rightarrow> ResolutionVerdict" where
  "judge_resolution m =
     (let fl = PASSAGE_FLOOR_CELLS in
      case float_num (mf_passage_p05 m) of
        None \<Rightarrow> \<lparr>rv_ok = True, rv_scope = ScopeUnmeasured, rv_cells = None, rv_floor = fl, rv_side = MNone\<rparr>
      | Some p05 \<Rightarrow>
          let narrowest = \<lparr>rv_ok = fl \<le> p05, rv_scope = ScopeNarrowest, rv_cells = Some p05,
                           rv_floor = fl, rv_side = MNone\<rparr>
          in if fl \<le> p05 then narrowest
             else case mf_passage_flow m of
               None \<Rightarrow> narrowest
             | Some ev \<Rightarrow>
                 if \<not> pf_main_way ev then narrowest
                 else
                   let side_share = zero_if_none (float_num (pp_share (pf_side ev)));
                       neck_p05 = float_num (pp_p05 (pf_neck ev))
                   in case float_num (pp_p05 (pf_main ev)) of
                        None \<Rightarrow> narrowest
                      | Some main_p05 \<Rightarrow>
                          if side_share \<le> 0 \<or> SIDE_SHARE_MAX < side_share then narrowest
                          else
                            let figure = (case neck_p05 of
                                  Some np \<Rightarrow>
                                    if NECK_MIN_POINTS \<le> zero_if_none (float_num (pp_points (pf_neck ev)))
                                       \<and> np < main_p05 then np else main_p05
                                | None \<Rightarrow> main_p05)
                            in \<lparr>rv_ok = fl \<le> figure, rv_scope = ScopeMain, rv_cells = Some figure,
                                rv_floor = fl, rv_side = pp_cells (pf_side ev)\<rparr>)"

text \<open>The figure the verdict rests on decides it, and side passages are set aside only on at most a
  quarter of the wall, beside a main way that holds the floor.\<close>

lemma judge_resolution_figure:
  "rv_ok (judge_resolution m) \<longleftrightarrow>
     (case rv_cells (judge_resolution m) of None \<Rightarrow> True | Some x \<Rightarrow> PASSAGE_FLOOR_CELLS \<le> x)"
  by (auto simp: judge_resolution_def Let_def split: option.split)

lemma side_passages_excused:
  assumes "rv_ok (judge_resolution m)" "rv_scope (judge_resolution m) = ScopeMain"
  shows "\<exists>ev share p. mf_passage_flow m = Some ev \<and> pf_main_way ev
     \<and> float_num (pp_share (pf_side ev)) = Some share \<and> 0 < share \<and> share \<le> SIDE_SHARE_MAX
     \<and> float_num (pp_p05 (pf_main ev)) = Some p \<and> PASSAGE_FLOOR_CELLS \<le> p
     \<and> (NECK_MIN_POINTS \<le> zero_if_none (float_num (pp_points (pf_neck ev))) \<longrightarrow>
          (\<forall>n. float_num (pp_p05 (pf_neck ev)) = Some n \<longrightarrow> PASSAGE_FLOOR_CELLS \<le> n))"
  using assms
  by (auto simp: judge_resolution_def Let_def zero_if_none_def split: option.splits if_splits)

end
