(* ===== verification/DomainExtent.thy ===== *)
theory DomainExtent
  imports GraphProps Measures
begin

text \<open>
  The far field of an external flow: the box a builder grows around the body
  (\<open>engines/far_field.py\<close>) and the gate that judges a built box against the margins the user asked
  for (the typed evaluation of \<open>engines/domain_extent_gate.py\<close>), with the part of the executor that
  asks it.

  Lengths are exact rationals. A recorded box has both bounds of an axis or neither; a request is a
  number per direction. The margins a request's text states are read by regular expressions that are
  not modelled: what they read is the argument \<open>stated\<close>. The tolerance on a symmetry plane is compared
  with the body's diagonal by squares, and the sentences of a verdict are left out.
\<close>

section \<open>Axes, sides, boxes\<close>

datatype axis = AxX | AxY | AxZ
datatype side = SideMin | SideMax
datatype direction = Upstream | Downstream | Lateral | Vertical

type_synonym bounds = "axis \<Rightarrow> rat \<times> rat"

definition VERTICAL_AXIS :: axis where "VERTICAL_AXIS = AxZ"

fun rest_axes :: "axis \<Rightarrow> axis \<times> axis" where
  "rest_axes AxX = (AxY, AxZ)"
| "rest_axes AxY = (AxX, AxZ)"
| "rest_axes AxZ = (AxX, AxY)"

definition axis_of :: "char \<Rightarrow> axis option" where
  "axis_of c = (if c = CHR ''x'' then Some AxX else if c = CHR ''y'' then Some AxY
     else if c = CHR ''z'' then Some AxZ else None)"

definition flow_text :: "string option \<Rightarrow> string" where
  "flow_text f = lower (strip (case f of None \<Rightarrow> ''+x'' | Some s \<Rightarrow> if s = [] then ''+x'' else s))"

text \<open>The gate's reading of the flow axis, with the upstream and the downstream side; \<open>None\<close> raises.\<close>

definition flow_sides :: "string option \<Rightarrow> (axis \<times> side \<times> side) option" where
  "flow_sides f =
     (case flow_text f of
        [] \<Rightarrow> None
      | c # cs \<Rightarrow>
          let signed = (c \<in> {CHR ''+'', CHR ''-''});
              letter = (if signed then (case cs of [] \<Rightarrow> None | l # _ \<Rightarrow> Some l) else Some c)
          in case (case letter of None \<Rightarrow> None | Some l \<Rightarrow> axis_of l) of
               None \<Rightarrow> None
             | Some a \<Rightarrow> Some (if c = CHR ''-'' then (a, SideMax, SideMin) else (a, SideMin, SideMax)))"

text \<open>The builder's reading, which falls back to +x.\<close>

definition flow_axis_of :: "string option \<Rightarrow> axis \<times> bool" where
  "flow_axis_of f =
     (case flow_text f of
        [] \<Rightarrow> (AxX, True)
      | c # cs \<Rightarrow>
          let letter = (if c \<in> {CHR ''+'', CHR ''-''} then (case cs of [] \<Rightarrow> None | l # _ \<Rightarrow> Some l) else Some c)
          in case (case letter of None \<Rightarrow> None | Some l \<Rightarrow> axis_of l) of
               None \<Rightarrow> (AxX, True)
             | Some a \<Rightarrow> (a, c \<noteq> CHR ''-''))"

lemma flow_readings_agree:
  "flow_sides f = Some (a, up, down) \<Longrightarrow>
     flow_axis_of f = (a, up = SideMin) \<and> down = (if up = SideMin then SideMax else SideMin)"
  by (auto simp: flow_sides_def flow_axis_of_def Let_def split: list.splits option.splits if_splits)

section \<open>The builder's box\<close>

definition DEFAULT_MARGINS :: "direction \<Rightarrow> rat" where
  "DEFAULT_MARGINS d = (if d = Downstream then 20 else 10)"

text \<open>A text that states no vertical margin gives it the lateral one.\<close>

definition extents_in_text :: "(direction \<rightharpoonup> rat) \<Rightarrow> direction \<rightharpoonup> rat" where
  "extents_in_text stated =
     (if stated Lateral \<noteq> None \<and> stated Vertical = None then stated(Vertical := stated Lateral) else stated)"

definition margins_from ::
  "(direction \<rightharpoonup> rat) \<Rightarrow> (direction \<rightharpoonup> rat) \<Rightarrow> (direction \<rightharpoonup> rat) \<Rightarrow> direction \<Rightarrow> rat"
where
  "margins_from strategy requested stated d =
     (case strategy d of Some v \<Rightarrow> v
      | None \<Rightarrow> case requested d of Some v \<Rightarrow> v
      | None \<Rightarrow> case extents_in_text stated d of Some v \<Rightarrow> v
      | None \<Rightarrow> DEFAULT_MARGINS d)"

definition extent :: "bounds \<Rightarrow> axis \<Rightarrow> rat" where
  "extent b a = snd (b a) - fst (b a)"

definition ruler_of :: "bounds \<Rightarrow> string option \<Rightarrow> rat option \<Rightarrow> rat" where
  "ruler_of body flow ref =
     (let along = extent body (fst (flow_axis_of flow));
          longest = max (max (extent body AxX) (extent body AxY)) (extent body AxZ);
          measured = (if 0 < along then along else if longest = 0 then 1 else longest)
      in case ref of Some r \<Rightarrow> if 0 < r then r else measured | None \<Rightarrow> measured)"

definition far_field_box ::
  "bounds \<Rightarrow> (direction \<Rightarrow> rat) \<Rightarrow> string option \<Rightarrow> rat option \<Rightarrow> bounds"
where
  "far_field_box body m flow ref =
     (let (i, positive) = flow_axis_of flow;
          r = ruler_of body flow ref;
          (lo, hi) = (if positive then (m Upstream, m Downstream) else (m Downstream, m Upstream));
          (side_axis, vert_axis) = rest_axes i;
          grow = (\<lambda>a (below :: rat) (above :: rat). (fst (body a) - below * r, snd (body a) + above * r))
      in (\<lambda>a. if a = i then grow a lo hi
              else if a = side_axis then grow a (m Lateral) (m Lateral)
              else if a = vert_axis then grow a (m Vertical) (m Vertical) else body a))"


section \<open>The gate\<close>

datatype face_axis = AxisName string | AxisNumber int | NoAxis

record symmetry_face =
  sf_axis :: face_axis
  sf_side :: string
  sf_patch :: string

fun read_axis :: "face_axis \<Rightarrow> axis option" where
  "read_axis (AxisName s) = (case rev (lower (strip s)) of [] \<Rightarrow> None | c # _ \<Rightarrow> axis_of c)"
| "read_axis (AxisNumber n) =
     (if n = 0 then Some AxX else if n = 1 then Some AxY else if n = 2 then Some AxZ else None)"
| "read_axis NoAxis = None"

definition read_side :: "string \<Rightarrow> side option" where
  "read_side s = (let t = lower (strip s) in
     if t = ''min'' then Some SideMin else if t = ''max'' then Some SideMax else None)"

text \<open>The faces a symmetry plane was recorded on; a row without an axis and a side is ignored.\<close>

fun symmetry_seats :: "symmetry_face list \<Rightarrow> (axis \<times> side) list" where
  "symmetry_seats [] = []"
| "symmetry_seats (f # fs) =
     (case (read_axis (sf_axis f), read_side (sf_side f)) of
        (Some a, Some s) \<Rightarrow> (a, s) # symmetry_seats fs
      | _ \<Rightarrow> symmetry_seats fs)"

definition gap :: "bounds \<Rightarrow> bounds \<Rightarrow> axis \<Rightarrow> side \<Rightarrow> rat" where
  "gap box body a s =
     (if s = SideMin then fst (body a) - fst (box a) else snd (box a) - snd (body a))"

definition SEAT_TOL_FRACTION :: rat where "SEAT_TOL_FRACTION = 5 / 1000"
definition CLIP_TOL_FRACTION :: rat where "CLIP_TOL_FRACTION = 1 / 10000"

definition diagonal_squared :: "bounds \<Rightarrow> rat" where
  "diagonal_squared b = (extent b AxX)\<^sup>2 + (extent b AxY)\<^sup>2 + (extent b AxZ)\<^sup>2"

definition sits_on :: "bounds \<Rightarrow> bounds \<Rightarrow> axis \<times> side \<Rightarrow> bool" where
  "sits_on box body k =
     (let g = gap box body (fst k) (snd k); d2 = diagonal_squared body
      in (0 \<le> g \<or> g\<^sup>2 \<le> CLIP_TOL_FRACTION\<^sup>2 * d2) \<and> (g \<le> 0 \<or> g\<^sup>2 \<le> SEAT_TOL_FRACTION\<^sup>2 * d2))"

text \<open>The faces of the box that lie on the body by design.\<close>

definition seated :: "bounds \<Rightarrow> bounds \<Rightarrow> axis \<Rightarrow> bool \<Rightarrow> symmetry_face list \<Rightarrow> (axis \<times> side) list" where
  "seated box body i grounded faces =
     filter (\<lambda>k. fst k \<noteq> i \<and> sits_on box body k) (symmetry_seats faces)
     @ (if grounded \<and> i \<noteq> VERTICAL_AXIS then [(VERTICAL_AXIS, SideMin)] else [])"

text \<open>A direction's open faces, and its room in rulers with the face it was read on: the least, the
  max side first on a tie; \<open>None\<close> when no face of it is open.\<close>

fun direction_faces :: "axis \<Rightarrow> side \<Rightarrow> side \<Rightarrow> direction \<Rightarrow> (axis \<times> side) list" where
  "direction_faces i up down Upstream = [(i, up)]"
| "direction_faces i up down Downstream = [(i, down)]"
| "direction_faces i up down Lateral = [(fst (rest_axes i), SideMin), (fst (rest_axes i), SideMax)]"
| "direction_faces i up down Vertical = [(snd (rest_axes i), SideMin), (snd (rest_axes i), SideMax)]"

definition open_faces ::
  "(axis \<times> side) list \<Rightarrow> axis \<Rightarrow> side \<Rightarrow> side \<Rightarrow> direction \<Rightarrow> (axis \<times> side) list"
where
  "open_faces seats i up down d = filter (\<lambda>k. k \<notin> set seats) (direction_faces i up down d)"

definition room :: "bounds \<Rightarrow> bounds \<Rightarrow> rat \<Rightarrow> (axis \<times> side) list \<Rightarrow> (rat \<times> axis \<times> side) option" where
  "room box body r faces =
     (let g = (\<lambda>k. gap box body (fst k) (snd k) / r) in
      case faces of
        [] \<Rightarrow> None
      | [k] \<Rightarrow> Some (g k, k)
      | k # l # _ \<Rightarrow> Some (if g k < g l then (g k, k) else (g l, l)))"

record extent_miss =
  em_direction :: direction
  em_requested :: "rat option"
  em_measured :: "rat option"
  em_face :: "(axis \<times> side) option"

record ExtentVerdict =
  ev_status :: extent_status
  ev_caveats :: "extent_miss list"
  ev_misses :: "extent_miss list"

definition FLOOR_FRACTION :: rat where "FLOOR_FRACTION = 1 / 2"
definition TOLERANCE :: rat where "TOLERANCE = 15 / 100"

datatype judged_direction =
    DirectionOk | DirectionNear extent_miss | DirectionBlocked extent_miss | DirectionAcross extent_miss

definition judge_direction ::
  "direction \<Rightarrow> rat option \<Rightarrow> bool \<Rightarrow> axis \<times> side \<Rightarrow> (rat \<times> axis \<times> side) option \<Rightarrow> judged_direction"
where
  "judge_direction d requested across face rm =
     (if across
      then DirectionAcross \<lparr>em_direction = d, em_requested = requested,
             em_measured = map_option fst rm, em_face = Some face\<rparr>
      else case (requested, rm) of
        (Some rv, Some (mv, f)) \<Rightarrow>
          if mv \<le> 0 then DirectionBlocked \<lparr>em_direction = d, em_requested = Some rv,
                           em_measured = Some mv, em_face = Some f\<rparr>
          else if rv * (1 - TOLERANCE) \<le> mv then DirectionOk
          else let m = \<lparr>em_direction = d, em_requested = Some rv, em_measured = Some mv, em_face = None\<rparr>
               in if mv < rv * FLOOR_FRACTION then DirectionBlocked m else DirectionNear m
      | _ \<Rightarrow> DirectionOk)"

definition ALL_DIRECTIONS :: "direction list" where
  "ALL_DIRECTIONS = [Upstream, Downstream, Lateral, Vertical]"

definition judge_directions ::
  "(direction \<rightharpoonup> rat) \<Rightarrow> rat \<Rightarrow> bounds \<Rightarrow> bounds \<Rightarrow> bool \<Rightarrow> symmetry_face list
     \<Rightarrow> axis \<times> side \<times> side \<Rightarrow> judged_direction list"
where
  "judge_directions requested r box body grounded faces flow =
     (let (i, up, down) = flow; seats = seated box body i grounded faces;
          across = (\<lambda>d. (d = Upstream \<and> (i, up) \<in> set (symmetry_seats faces))
                       \<or> (d = Downstream \<and> (i, down) \<in> set (symmetry_seats faces)))
      in map (\<lambda>d. judge_direction d (requested d) (across d) (i, if d = Upstream then up else down)
               (room box body r (open_faces seats i up down d))) ALL_DIRECTIONS)"

fun blocks :: "judged_direction \<Rightarrow> bool" where
  "blocks (DirectionBlocked m) = True"
| "blocks (DirectionAcross m) = True"
| "blocks j = False"

fun near_miss_of :: "judged_direction \<Rightarrow> extent_miss list" where
  "near_miss_of (DirectionNear m) = [m]"
| "near_miss_of j = []"

fun across_of :: "judged_direction \<Rightarrow> extent_miss list" where
  "across_of (DirectionAcross m) = [m]"
| "across_of j = []"

fun short_of :: "judged_direction \<Rightarrow> extent_miss list" where
  "short_of (DirectionNear m) = [m]"
| "short_of (DirectionBlocked m) = [m]"
| "short_of j = []"

definition missed :: "judged_direction list \<Rightarrow> extent_miss list" where
  "missed js = concat (map across_of js) @ concat (map short_of js)"

definition no_verdict :: "extent_status \<Rightarrow> ExtentVerdict" where
  "no_verdict s = \<lparr>ev_status = s, ev_caveats = [], ev_misses = []\<rparr>"

text \<open>What a built mesh's manifest records of its domain.\<close>

record domain_record =
  dr_topology :: string
  dr_patch_types :: "(string \<times> string) list"
  dr_box :: "(axis \<Rightarrow> (rat \<times> rat) option) option"
  dr_body :: "(axis \<Rightarrow> (rat \<times> rat) option) option"
  dr_symmetry :: "symmetry_face list"
  dr_chord :: "rat option"

definition complete :: "(axis \<Rightarrow> (rat \<times> rat) option) \<Rightarrow> bounds option" where
  "complete b =
     (case (b AxX, b AxY, b AxZ) of
        (Some x, Some y, Some z) \<Rightarrow> Some (\<lambda>a. case a of AxX \<Rightarrow> x | AxY \<Rightarrow> y | AxZ \<Rightarrow> z)
      | _ \<Rightarrow> None)"

definition manifest_is_grounded :: "domain_record \<Rightarrow> bool" where
  "manifest_is_grounded m =
     (dr_topology m \<noteq> ''internal'' \<and> list_ex (\<lambda>(n, r). is_ground n r) (dr_patch_types m))"

definition manifest_symmetry_faces :: "domain_record \<Rightarrow> symmetry_face list" where
  "manifest_symmetry_faces m = (if dr_topology m = ''internal'' then [] else dr_symmetry m)"

definition far_field_exists :: "string \<Rightarrow> string \<Rightarrow> bool" where
  "far_field_exists job built = (''internal'' \<notin> {lower (strip job), lower (strip built)})"

definition evaluate_domain_extents ::
  "(direction \<rightharpoonup> rat) \<Rightarrow> rat option \<Rightarrow> domain_record \<Rightarrow> string option \<Rightarrow> bool \<Rightarrow> symmetry_face list
     \<Rightarrow> ExtentVerdict"
where
  "evaluate_domain_extents requested ref m flow grounded faces =
     (if list_all (\<lambda>d. requested d = None) ALL_DIRECTIONS \<or> ref = None \<or> ref = Some 0
         \<or> \<not> far_field_exists [] (dr_topology m)
      then no_verdict ExtentNA
      else
        case (Option.bind (dr_box m) complete, Option.bind (dr_body m) complete, ref, flow_sides flow) of
          (Some box, Some body, Some r, Some fs) \<Rightarrow>
            if r \<le> 0 then no_verdict ExtentUnmeasured
            else
              let js = judge_directions requested r box body grounded faces fs;
                  near = concat (map near_miss_of js)
              in if list_ex blocks js
                 then \<lparr>ev_status = ExtentBlock, ev_caveats = [], ev_misses = missed js\<rparr>
                 else if near \<noteq> []
                 then \<lparr>ev_status = ExtentMiss, ev_caveats = near, ev_misses = missed js\<rparr>
                 else no_verdict ExtentPass
        | _ \<Rightarrow> no_verdict ExtentUnmeasured)"

text \<open>The check of a built mesh reads the ground and the symmetry planes off its manifest.\<close>

definition evaluate_built ::
  "(direction \<rightharpoonup> rat) \<Rightarrow> rat option \<Rightarrow> domain_record \<Rightarrow> string option \<Rightarrow> ExtentVerdict"
where
  "evaluate_built requested ref m flow =
     evaluate_domain_extents requested ref m flow (manifest_is_grounded m) (manifest_symmetry_faces m)"

section \<open>The case-level gate of a request in words\<close>

text \<open>It reads the flow along x whatever was declared, and it refuses a margin that is too large as
  well as one that is too small. A manifest it cannot measure passes.\<close>

definition filled :: "(axis \<Rightarrow> (rat \<times> rat) option) \<Rightarrow> bounds" where
  "filled b a = (case b a of None \<Rightarrow> (0, 0) | Some p \<Rightarrow> p)"

definition applied_multipliers :: "domain_record \<Rightarrow> (direction \<rightharpoonup> rat) option" where
  "applied_multipliers m =
     (case (dr_box m, dr_body m, dr_chord m) of
        (Some pbox, Some pbody, Some c) \<Rightarrow>
          if c \<le> 0 \<or> pbox AxX = None \<or> pbody AxX = None \<or> pbox AxY = None \<or> pbody AxY = None then None
          else
            let box = filled pbox; body = filled pbody;
                sits = (\<lambda>s. (AxY, s) \<in> set (symmetry_seats (dr_symmetry m)) \<and> sits_on box body (AxY, s));
                lat = (if \<not> sits SideMin then Some (gap box body AxY SideMin / c)
                       else if sits SideMax then None else Some (gap box body AxY SideMax / c))
            in Some (\<lambda>d. case d of
                 Upstream \<Rightarrow> Some (gap box body AxX SideMin / c)
               | Downstream \<Rightarrow> Some (gap box body AxX SideMax / c)
               | Lateral \<Rightarrow> lat
               | Vertical \<Rightarrow> None)
      | _ \<Rightarrow> None)"

definition CASE_DIRECTIONS :: "direction list" where
  "CASE_DIRECTIONS = [Upstream, Downstream, Lateral]"

definition check_domain_extents :: "(direction \<rightharpoonup> rat) \<Rightarrow> domain_record \<Rightarrow> bool" where
  "check_domain_extents requested m =
     (list_all (\<lambda>d. requested d = None) CASE_DIRECTIONS
      \<or> (case applied_multipliers m of
            None \<Rightarrow> True
          | Some avs \<Rightarrow> \<not> list_ex (\<lambda>d. case (requested d, avs d) of
              (Some rv, Some av) \<Rightarrow> rv \<noteq> 0 \<and> TOLERANCE < \<bar>av - rv\<bar> / \<bar>rv\<bar> | _ \<Rightarrow> False) CASE_DIRECTIONS))"

definition extent_gate_for_request :: "(direction \<rightharpoonup> rat) \<Rightarrow> domain_record \<Rightarrow> bool" where
  "extent_gate_for_request stated m =
     (\<not> far_field_exists [] (dr_topology m) \<or> check_domain_extents stated m)"

section \<open>Who asks it\<close>

definition extent_caveat :: "extent_miss \<Rightarrow> caveat" where
  "extent_caveat m =
     \<lparr>c_kind = [], c_cells_across = None, c_cells = None, c_cell_limit = None, c_plan = None, c_facts = None\<rparr>"

text \<open>
  The executor asks it of a mesh with a far field: the typed evaluation when the approval states
  extents and a ruler, the case-level gate of the request's words otherwise.
\<close>

definition executor_extent ::
  "string \<Rightarrow> (direction \<rightharpoonup> rat) \<Rightarrow> rat option \<Rightarrow> (direction \<rightharpoonup> rat) \<Rightarrow> domain_record \<Rightarrow> string option \<Rightarrow> extent_check"
where
  "executor_extent job requested ref stated m flow =
     (if \<not> far_field_exists job (dr_topology m) then NoFarField
      else if list_ex (\<lambda>d. requested d \<noteq> None) ALL_DIRECTIONS \<and> ref \<noteq> None \<and> ref \<noteq> Some 0
      then let v = evaluate_built requested ref m flow
           in TypedExtent (ev_status v) (map extent_caveat (ev_caveats v))
      else LegacyExtent (extent_gate_for_request stated m))"

text \<open>The pre-flight judges the box a driver is about to mesh; \<open>Some\<close> is a refusal.\<close>

definition prepared :: "bounds \<Rightarrow> bounds \<Rightarrow> domain_record" where
  "prepared box body =
     \<lparr>dr_topology = [], dr_patch_types = [], dr_box = Some (\<lambda>a. Some (box a)),
      dr_body = Some (\<lambda>a. Some (body a)), dr_symmetry = [], dr_chord = None\<rparr>"

definition check_domain ::
  "(direction \<rightharpoonup> rat) \<Rightarrow> rat option \<Rightarrow> bool \<Rightarrow> string option \<Rightarrow> bounds \<Rightarrow> bounds \<Rightarrow> bool
     \<Rightarrow> symmetry_face list \<Rightarrow> extent_miss list option"
where
  "check_domain requested ref strict flow body box grounded faces =
     (if ref = None \<or> ref = Some 0 then None
      else let v = evaluate_domain_extents requested ref (prepared box body) flow grounded faces
           in if ev_status v = ExtentBlock \<or> (ev_status v = ExtentMiss \<and> strict)
              then Some (ev_misses v) else None)"

section \<open>When a direction passes\<close>

definition has_room :: "bounds \<Rightarrow> bounds \<Rightarrow> rat \<Rightarrow> rat \<Rightarrow> axis \<times> side \<Rightarrow> bool" where
  "has_room box body r rv k =
     (0 < gap box body (fst k) (snd k) \<and> rv * (1 - TOLERANCE) * r \<le> gap box body (fst k) (snd k))"

lemma room_None: "room box body r faces = None \<longleftrightarrow> faces = []"
  by (auto simp: room_def Let_def split: list.split)

lemma room_Nil [simp]: "room box body r [] = None"
  by (simp add: room_def Let_def)

lemma open_faces_at_most_two: "length (open_faces seats i up down d) \<le> 2"
  unfolding open_faces_def by (rule order_trans [OF length_filter_le]) (cases d; simp)

lemma room_least:
  assumes "room box body r faces = Some (g, k)" "length faces \<le> 2"
  shows "k \<in> set faces \<and> g = gap box body (fst k) (snd k) / r
     \<and> (\<forall>l \<in> set faces. g \<le> gap box body (fst l) (snd l) / r)"
  using assms by (auto simp: room_def Let_def split: list.splits if_splits)

lemma direction_ok_iff:
  assumes "0 < r"
  shows "judge_direction d requested across face (room box body r (open_faces seats i up down d)) = DirectionOk
     \<longleftrightarrow> \<not> across \<and> (\<forall>rv. requested = Some rv \<longrightarrow>
           (\<forall>k \<in> set (open_faces seats i up down d). has_room box body r rv k))"
proof (cases "room box body r (open_faces seats i up down d)")
  case None
  then show ?thesis by (auto simp: judge_direction_def room_None split: option.split)
next
  case (Some gk)
  obtain g k where gk: "gk = (g, k)" by (cases gk)
  let ?f = "\<lambda>k. gap box body (fst k) (snd k)"
  from room_least [OF Some [unfolded gk] open_faces_at_most_two]
  have k: "k \<in> set (open_faces seats i up down d)" "g = ?f k / r"
    and least: "\<forall>l \<in> set (open_faces seats i up down d). g \<le> ?f l / r" by auto
  have q: "0 < x / r \<longleftrightarrow> 0 < x" "y \<le> x / r \<longleftrightarrow> y * r \<le> x" for x y
    using assms by (simp_all add: zero_less_divide_iff pos_le_divide_eq)
  have pos: "0 < g \<longleftrightarrow> (\<forall>l \<in> set (open_faces seats i up down d). 0 < ?f l)"
    using k least q(1) by (metis order_less_le_trans)
  have far: "x \<le> g \<longleftrightarrow> (\<forall>l \<in> set (open_faces seats i up down d). x * r \<le> ?f l)" for x
    using k least q(2) by (metis order_trans)
  show ?thesis
    using Some gk pos far by (auto simp: judge_direction_def has_room_def Let_def split: option.split)
qed

lemma pass_iff_all_ok:
  "(\<not> list_ex blocks js \<and> concat (map near_miss_of js) = []) \<longleftrightarrow> (\<forall>j \<in> set js. j = DirectionOk)"
proof -
  have "(\<not> blocks j \<and> near_miss_of j = []) \<longleftrightarrow> j = DirectionOk" for j by (cases j) simp_all
  then show ?thesis by (auto simp: list_ex_iff)
qed

definition across_flow :: "symmetry_face list \<Rightarrow> axis \<times> side \<times> side \<Rightarrow> direction \<Rightarrow> bool" where
  "across_flow faces fs d =
     ((d = Upstream \<and> (fst fs, fst (snd fs)) \<in> set (symmetry_seats faces))
      \<or> (d = Downstream \<and> (fst fs, snd (snd fs)) \<in> set (symmetry_seats faces)))"

definition faces_of :: "bounds \<Rightarrow> bounds \<Rightarrow> bool \<Rightarrow> symmetry_face list \<Rightarrow> axis \<times> side \<times> side \<Rightarrow> direction \<Rightarrow> (axis \<times> side) list" where
  "faces_of box body grounded faces fs d =
     open_faces (seated box body (fst fs) grounded faces) (fst fs) (fst (snd fs)) (snd (snd fs)) d"

lemma set_directions [simp]: "set ALL_DIRECTIONS = UNIV"
  by (auto simp: ALL_DIRECTIONS_def intro: direction.exhaust)

lemma directions_pass_iff:
  assumes "0 < r"
  shows "(\<forall>j \<in> set (judge_directions requested r box body grounded faces fs). j = DirectionOk)
     \<longleftrightarrow> (\<forall>d. \<not> across_flow faces fs d \<and> (\<forall>rv. requested d = Some rv \<longrightarrow>
            (\<forall>k \<in> set (faces_of box body grounded faces fs d). has_room box body r rv k)))"
  by (cases fs)
     (simp add: judge_directions_def direction_ok_iff [OF assms] across_flow_def faces_of_def Let_def)

lemma evaluate_pass_iff:
  "ev_status (evaluate_domain_extents requested ref m flow grounded faces) = ExtentPass \<longleftrightarrow>
     (\<exists>d. requested d \<noteq> None) \<and> far_field_exists [] (dr_topology m)
     \<and> (\<exists>box body r fs. Option.bind (dr_box m) complete = Some box \<and> Option.bind (dr_body m) complete = Some body
          \<and> ref = Some r \<and> 0 < r \<and> flow_sides flow = Some fs
          \<and> (\<forall>d. \<not> across_flow faces fs d \<and> (\<forall>rv. requested d = Some rv \<longrightarrow>
               (\<forall>k \<in> set (faces_of box body grounded faces fs d). has_room box body r rv k))))"
proof -
  have all: "list_all (\<lambda>d. requested d = None) ALL_DIRECTIONS \<longleftrightarrow> \<not> (\<exists>d. requested d \<noteq> None)"
    by (simp add: list_all_iff)
  show ?thesis
  proof (cases "(\<exists>d. requested d \<noteq> None) \<and> ref \<noteq> None \<and> ref \<noteq> Some 0 \<and> far_field_exists [] (dr_topology m)")
    case False
    then show ?thesis using all by (auto simp: evaluate_domain_extents_def no_verdict_def)
  next
    case True
    then obtain r where r: "ref = Some r" "r \<noteq> 0" by auto
    show ?thesis
    proof (cases "\<exists>box body fs. Option.bind (dr_box m) complete = Some box \<and> Option.bind (dr_body m) complete = Some body
          \<and> flow_sides flow = Some fs \<and> 0 < r")
      case False
      then have "evaluate_domain_extents requested ref m flow grounded faces = no_verdict ExtentUnmeasured"
        using True r all unfolding evaluate_domain_extents_def
        by (auto simp del: Option.bind_eq_Some_conv split: option.split)
      with False r show ?thesis by (auto simp: no_verdict_def)
    next
      case ex: True
      then obtain box body fs where b: "Option.bind (dr_box m) complete = Some box"
        "Option.bind (dr_body m) complete = Some body" "flow_sides flow = Some fs" "0 < r" by blast
      let ?js = "judge_directions requested r box body grounded faces fs"
      have "ev_status (evaluate_domain_extents requested ref m flow grounded faces) = ExtentPass
          \<longleftrightarrow> \<not> list_ex blocks ?js \<and> concat (map near_miss_of ?js) = []"
        using True r b all
        by (simp add: evaluate_domain_extents_def no_verdict_def Let_def del: Option.bind_eq_Some_conv)
      also have "\<dots> \<longleftrightarrow> (\<forall>j \<in> set ?js. j = DirectionOk)" by (rule pass_iff_all_ok)
      also note directions_pass_iff [OF b(4)]
      finally show ?thesis using True r b by simp
    qed
  qed
qed


section \<open>The box the builder sizes is the box the gate accepts\<close>

lemma complete_total [simp]: "complete (\<lambda>a. Some (b a)) = Some b"
  by (auto simp: complete_def fun_eq_iff split: axis.split)

lemma rest_axes_differ [simp]:
  "fst (rest_axes i) \<noteq> i" "snd (rest_axes i) \<noteq> i" "fst (rest_axes i) \<noteq> snd (rest_axes i)"
  "snd (rest_axes i) \<noteq> fst (rest_axes i)"
  by (cases i; simp)+

text \<open>The margin a face was grown by.\<close>

definition face_direction :: "axis \<times> side \<times> side \<Rightarrow> axis \<times> side \<Rightarrow> direction" where
  "face_direction fs k =
     (if fst k = fst fs then if snd k = fst (snd fs) then Upstream else Downstream
      else if fst k = fst (rest_axes (fst fs)) then Lateral else Vertical)"

lemma grown_gap:
  assumes "flow_sides flow = Some fs" "0 < r"
  shows "gap (far_field_box body m flow (Some r)) body (fst k) (snd k) = m (face_direction fs k) * r"
proof -
  obtain i up down where fs: "fs = (i, up, down)" by (cases fs)
  have f: "flow_axis_of flow = (i, up = SideMin)"
    and down: "down = (if up = SideMin then SideMax else SideMin)"
    using flow_readings_agree [of flow i up down] assms(1) fs by auto
  have r: "ruler_of body flow (Some r) = r" using assms(2) by (simp add: ruler_of_def Let_def)
  obtain a s where k: "k = (a, s)" by (cases k)
  show ?thesis
    by (cases i; cases a; cases s; cases up;
        simp add: far_field_box_def f r gap_def face_direction_def fs k)
qed

lemma face_of_direction:
  assumes "flow_sides flow = Some fs" "k \<in> set (faces_of box body grounded faces fs d)"
  shows "face_direction fs k = d"
proof -
  obtain i up down where fs: "fs = (i, up, down)" by (cases fs)
  have "down \<noteq> up" using flow_readings_agree [of flow i up down] assms(1) fs by (cases up) auto
  moreover have "k \<in> set (direction_faces i up down d)"
    using assms(2) by (simp add: faces_of_def open_faces_def fs)
  ultimately show ?thesis by (cases d) (auto simp: face_direction_def fs)
qed

text \<open>
  C23: the box the builder sizes is the box the gate accepts. Whatever body, readable flow axis and
  positive reference length are given, a box grown around the body by margins no smaller than
  0.85 of every requested one - the margins of \<open>margins_from\<close> are such, unless the strategy overrides
  the request - is judged to pass by the extent gate, grounded body or not.
\<close>

theorem sized_box_accepted:
  assumes "flow_sides flow = Some fs" "0 < r" "requested d0 \<noteq> None"
    and "far_field_exists [] (dr_topology m)"
    and "\<forall>d rv. requested d = Some rv \<longrightarrow> 0 < rv \<and> (strategy d = None \<or> (\<exists>v. strategy d = Some v \<and> rv \<le> v))"
    and "dr_box m = Some (\<lambda>a. Some (far_field_box body (margins_from strategy requested stated) flow (Some r) a))"
    and "dr_body m = Some (\<lambda>a. Some (body a))"
  shows "ev_status (evaluate_domain_extents requested (Some r) m flow grounded []) = ExtentPass"
proof -
  let ?mg = "margins_from strategy requested stated"
  let ?box = "far_field_box body ?mg flow (Some r)"
  have "has_room ?box body r rv k"
    if rq: "requested d = Some rv" and k: "k \<in> set (faces_of ?box body grounded [] fs d)" for d rv k
  proof -
    from assms(5) rq have "0 < rv" "strategy d = None \<or> (\<exists>v. strategy d = Some v \<and> rv \<le> v)" by blast+
    then have rv: "0 < rv" "rv \<le> ?mg d" using rq by (auto simp: margins_from_def)
    then have "0 < ?mg d * r" using assms(2) by simp
    moreover have "rv * (1 - TOLERANCE) \<le> ?mg d" using rv by (simp add: TOLERANCE_def)
    then have "rv * (1 - TOLERANCE) * r \<le> ?mg d * r" using assms(2) by simp
    ultimately show ?thesis
      using grown_gap [OF assms(1,2), of body ?mg k] face_of_direction [OF assms(1) k]
      by (simp add: has_room_def)
  qed
  then show ?thesis
    using assms(1-4,6,7) by (auto simp: evaluate_pass_iff across_flow_def simp del: Option.bind_eq_Some_conv)
qed

definition demo_body :: bounds where
  "demo_body a = (if a = AxX then (0, 4) else if a = AxY then (- 1, 1) else (0, 1))"

definition demo_extents :: "direction \<rightharpoonup> rat" where
  "demo_extents = [Upstream \<mapsto> 5, Downstream \<mapsto> 12]"

definition demo_record :: "string option \<Rightarrow> domain_record" where
  "demo_record flow = \<lparr>dr_topology = ''external'', dr_patch_types = [(''ground'', ''wall'')],
     dr_box = Some (\<lambda>a. Some (far_field_box demo_body
       (margins_from (\<lambda>d. None) demo_extents (\<lambda>d. None)) flow (Some 4) a)),
     dr_body = Some (\<lambda>a. Some (demo_body a)), dr_symmetry = [], dr_chord = Some 4\<rparr>"

lemma demo_flow: "flow_sides (Some ''-y'') = Some (AxY, SideMax, SideMin)"
  by code_simp

lemma external_far_field [simp]:
  "far_field_exists [] ''external''" "far_field_exists ''external'' ''external''"
  by code_simp+

lemma demo_topology [simp]: "dr_topology (demo_record flow) = ''external''"
  by (simp add: demo_record_def)

theorem sized_box_accepted_witness:
  "ev_status (evaluate_domain_extents demo_extents (Some 4) (demo_record (Some ''-y'')) (Some ''-y'') True [])
     = ExtentPass"
proof (rule sized_box_accepted)
  show "flow_sides (Some ''-y'') = Some (AxY, SideMax, SideMin)" by (rule demo_flow)
  show "demo_extents Upstream \<noteq> None" by (simp add: demo_extents_def)
  show "\<forall>d rv. demo_extents d = Some rv \<longrightarrow> 0 < rv \<and> (Map.empty d = None \<or> (\<exists>v. Map.empty d = Some v \<and> rv \<le> v))"
    by (auto simp: demo_extents_def split: if_splits)
qed (simp_all add: demo_record_def)

section \<open>The pre-flight refuses what the gate would\<close>


definition clean_mesh :: measurement where
  "clean_mesh = \<lparr>x_trips = [], x_runs = None, x_mesh_on_disk = True,
     x_deterministic_build = False, x_finalize_ok = True, x_finalize_trips = [], x_broken = [],
     x_gates = [], x_manifest_loads = True, x_cell_count = None, x_mesh_mode = [],
     x_extent = NoFarField, x_strict = False, x_connected = True, x_solve = NoSolve, x_plan = None,
     x_output = []\<rparr>"


section \<open>A validated mesh has the room that was asked for\<close>



section \<open>A box sized from a text\<close>

text \<open>
  Along x the box sized from the margins a text states is the one its case-level gate expects.
\<close>

lemma text_box_accepted_along_x:
  assumes "flow_sides flow = Some (AxX, SideMin, SideMax)" "0 < r" "far_field_exists [] (dr_topology m)"
    and "dr_box m = Some (\<lambda>a. Some (far_field_box body (margins_from Map.empty Map.empty stated) flow (Some r) a))"
    and "dr_body m = Some (\<lambda>a. Some (body a))" "dr_chord m = Some r" "dr_symmetry m = []"
  shows "extent_gate_for_request stated m"
proof -
  have f: "flow_axis_of flow = (AxX, True)" using flow_readings_agree [OF assms(1)] by simp
  have r: "ruler_of body flow (Some r) = r" using assms(2) by (simp add: ruler_of_def Let_def)
  have stated: "margins_from Map.empty Map.empty stated d = rv" if "stated d = Some rv" "d \<noteq> Vertical" for d rv
    using that by (simp add: margins_from_def extents_in_text_def)
  define mg where "mg = margins_from Map.empty Map.empty stated"
  have "applied_multipliers m = Some (\<lambda>d. if d = Vertical then None else Some (mg d))"
    using assms(2,4-7)
    by (auto simp: applied_multipliers_def filled_def gap_def far_field_box_def f r mg_def fun_eq_iff split: direction.split)
  then show ?thesis
    using assms(3) stated
    by (auto simp: extent_gate_for_request_def check_domain_extents_def CASE_DIRECTIONS_def TOLERANCE_def
        mg_def split: option.split)
qed

text \<open>Off x it is not: the box grown along the declared flow is refused.\<close>

lemma text_box_refused_off_x:
  "let flow = Some ''-y''; stated = [Upstream \<mapsto> 5, Downstream \<mapsto> 12];
       box = far_field_box demo_body (margins_from Map.empty Map.empty stated) flow (Some 4)
   in \<not> extent_gate_for_request stated (demo_record flow\<lparr>dr_box := Some (\<lambda>a. Some (box a))\<rparr>)"
  by code_simp

end
