(* ===== verification/LeaseMirror.thy ===== *)
theory LeaseMirror
  imports LeaseProps
begin

text \<open>
  How the Redis mirror follows the claim: what a takeover, a heartbeat and a hand-back do to it,
  how long a mirror installed from a claim can live, and what a same-execution resume leaves in
  place. The proofs use the laws of \<open>fence_mirror\<close> through its interpretation \<open>redis_fence\<close>.
\<close>

text \<open>The mirror a worker installs after its claim commits (\<open>install_fence_value\<close>).\<close>

definition install_fence_value ::
  "'f world \<Rightarrow> uuid \<Rightarrow> 'f \<Rightarrow> int \<Rightarrow> datetime \<Rightarrow> redis_call \<Rightarrow> bool option \<times> 'f world" where
  "install_fence_value w i f ttl now rc =
     (case rcall rc (install now i f ttl (w_fence w)) (w_fence w) of
        (b, s) \<Rightarrow> (b, w\<lparr>w_fence := s\<rparr>))"

definition mirror :: "datetime \<Rightarrow> 'f world \<Rightarrow> uuid \<Rightarrow> 'f option" where
  "mirror now w i = current now (w_fence w) i"

text \<open>
  C27: a takeover never exposes a new owner beside a live mirror of the old one. If a claim by a
  different execution is granted, the mark of the outgoing holder is no longer in the mirror; and
  if the mirror could not be revoked, the claim raises and no job row has changed, so there is no
  new owner.
\<close>

theorem takeover_revokes_outgoing:
  assumes row: "map_of (w_jobs w) i = Some r" and old: "active_worker_token r = Some old"
  shows "case claim_execution fp w i tok b x now ls ts rc of
      (Inl FenceUnavailable, w') \<Rightarrow> w_jobs w' = w_jobs w
    | (Inr (res, _), w') \<Rightarrow> res = acquired_new_generation \<longrightarrow>
        mirror now w' i \<noteq> Some (fp i (execution_generation r) old)"
proof (cases "claim_guard r tok now")
  case (Some res)
  then have "res \<noteq> acquired_new_generation"
    by (auto simp: claim_guard_def split: if_splits)
  with Some row show ?thesis by (simp add: claim_execution_def)
next
  case None
  let ?f = "fp i (execution_generation r) old"
  show ?thesis
  proof (cases "claim_result r tok x now = acquired_new_generation")
    case False
    with None row old show ?thesis
      by (simp add: claim_execution_def revoke_outgoing_def Let_def)
  next
    case True
    have gone: "current now (snd (revoke now i ?f (w_fence w))) i \<noteq> Some ?f"
      by (simp add: redis_fence.cur_rev)
    show ?thesis
      using None row old True gone
      by (cases rc)
         (simp_all add: claim_execution_def revoke_outgoing_def Let_def rcall_def mirror_def)
  qed
qed

theorem takeover_revokes_outgoing_witness:
  "let w = (demo_claimed\<lparr>w_fence := (\<lambda>_. None)(3 \<mapsto> (demo_fp 3 1 5, 10 ^ 12))\<rparr>) in
   case claim_execution demo_fp w 3 6 ''celery'' None (seconds 901) 900 21600 RAnswered of
      (Inl FenceUnavailable, w') \<Rightarrow> w_jobs w' = w_jobs w
    | (Inr (res, _), w') \<Rightarrow> res = acquired_new_generation \<longrightarrow>
        mirror (seconds 901) w' 3 \<noteq> Some (demo_fp 3 1 5)"
proof -
  let ?w = "demo_claimed\<lparr>w_fence := (\<lambda>_. None)(3 \<mapsto> (demo_fp 3 1 5, 10 ^ 12))\<rparr>"
  let ?r = "claim_row (new_row 3 0) 1 5 ''celery'' None 0 900 21600"
  have h: "map_of (w_jobs ?w) 3 = Some ?r" "active_worker_token ?r = Some 5"
    "execution_generation ?r = 1"
    by (simp_all add: demo_claimed_eq)
  from takeover_revokes_outgoing [OF h(1,2), where fp = demo_fp and tok = 6 and b = "''celery''"
      and x = None and now = "seconds 901" and ls = 900 and ts = 21600 and rc = RAnswered]
  show ?thesis unfolding h(3) Let_def .
qed

text \<open>
  A heartbeat keeps the mirror without ever displacing another mark. After a successful beat
  with Redis answering, the job's key is held: by the caller's own mark if it was missing or already
  the caller's, and unchanged if it was somebody else's.
\<close>

theorem heartbeat_mirror:
  assumes "fst (heartbeat fp w own now ls ext RAnswered RAnswered)"
  shows "mirror now (snd (heartbeat fp w own now ls ext RAnswered RAnswered)) (own_job_id own) =
    (case mirror now w (own_job_id own) of
       None \<Rightarrow> Some (fp (own_job_id own) (own_generation own) (own_token own))
     | Some v \<Rightarrow> Some v)"
proof -
  have beat: "current now (mirror_beat now i f ttl RAnswered RAnswered s) i =
    (case current now s i of None \<Rightarrow> Some f | Some v \<Rightarrow> Some v)" for i f ttl and s :: "'a fence_store"
    using redis_fence.refresh_or_heal [of now i f ttl s]
    by (auto simp: mirror_beat_def rcall_def split: bool.splits if_splits)
  show ?thesis
    using assms
    by (auto simp: heartbeat_def Let_def mirror_def beat split: option.splits if_splits)
qed

theorem heartbeat_mirror_witness:
  "mirror 7 (snd (heartbeat demo_fp demo_claimed (demo_own 1 5) 7 900 None RAnswered RAnswered)) 3
     = Some (demo_fp 3 1 5)"
proof -
  have "fst (heartbeat demo_fp demo_claimed (demo_own 1 5) 7 900 None RAnswered RAnswered)"
    by (simp add: heartbeat_success demo_claimed_eq holds_def status_sets
          extended_deadline_def new_row_def seconds_def)
  from heartbeat_mirror [OF this] show ?thesis
    by (simp add: mirror_def current_def demo_claimed_eq)
qed

text \<open>
  The mirror installed from a claim outlives the lease it stands for. The ownership's time to
  live is the whole lease as of the claim, while the key is set after the claim commits; installed
  \<open>d\<close> later, the key is still the claimant's for \<open>d\<close> past the recorded lease expiry.
\<close>

theorem installed_mirror_outlives_lease:
  assumes claim: "claim_execution fp w i tok b x now ls ts rc = (Inr (res, Some own), w1)"
    and ls: "0 < ls" and d: "0 < d"
    and inst: "install_fence_value w1 i f (own_fence_ttl own) (now + d) RAnswered = (ok, w2)"
  shows "map_option lease_expires_at (map_of (w_jobs w2) i) = Some (Some (now + seconds ls))
    \<and> mirror (now + seconds ls + d - 1) w2 i = Some f"
proof -
  from claim_grantedD [OF claim] obtain r g where
    w1: "w_jobs w1 = put i (claim_row r g tok b x now ls ts) (w_jobs w)"
    and own: "own = granted_ownership i (claim_row r g tok b x now ls ts) tok b now" by blast
  have ttl: "own_fence_ttl own = ls"
    using ls by (simp add: own fence_ttl_seconds_def whole_seconds_def seconds_def)
  from inst have w2: "w_jobs w2 = w_jobs w1"
    "w_fence w2 = (w_fence w1)(i \<mapsto> (f, now + d + seconds ls))"
    using ls by (auto simp: install_fence_value_def rcall_def install_def ttl max_def)
  show ?thesis using d by (simp add: w1 w2 mirror_def current_def)
qed

theorem installed_mirror_outlives_lease_witness:
  "mirror (0 + seconds 900 + 2000000 - 1)
     (snd (install_fence_value demo_claimed 3 (demo_fp 3 1 5) 900 (0 + 2000000) RAnswered)) 3
       = Some (demo_fp 3 1 5)"
proof -
  have c: "claim_execution demo_fp demo_world 3 5 ''celery'' None 0 900 21600 RAnswered =
    (Inr (acquired_new_generation, Some (demo_own 1 5)), demo_claimed)"
    by (simp add: demo_claimed_def) (simp add: demo_defs demo_own_def lease_eval)
  have i: "install_fence_value demo_claimed 3 (demo_fp 3 1 5) (own_fence_ttl (demo_own 1 5)) (0 + 2000000) RAnswered
     = (Some True, snd (install_fence_value demo_claimed 3 (demo_fp 3 1 5) 900 (0 + 2000000) RAnswered))"
    by (simp add: install_fence_value_def rcall_def install_def)
  from installed_mirror_outlives_lease [OF c _ _ i] show ?thesis by simp
qed

text \<open>
  A same-execution resume under a rotated token leaves the predecessor's mark in place. The
  resumed claim keeps the generation but its fingerprint is a new one, and nothing is revoked: until
  the new mark is installed the mirror still authorises a token that is no longer the owner.
\<close>

theorem resume_keeps_stale_mirror:
  assumes row: "map_of (w_jobs w) i = Some r" and runs: "status r = JS_running"
    and old: "active_worker_token r = Some old" and new: "tok \<noteq> old"
    and lapsed: "\<not> lease_active r now" and same: "same_execution r (Some e)"
    and mark: "mirror now w i = Some (fp i (execution_generation r) old)"
  shows "\<exists>own w'. claim_execution fp w i tok b (Some e) now ls ts rc
        = (Inr (resumed_same_generation, Some own), w')
      \<and> own_generation own = execution_generation r
      \<and> mirror now w' i = Some (fp i (execution_generation r) old)
      \<and> \<not> is_current_owner w' (own\<lparr>own_token := old\<rparr>)"
proof -
  have guard: "claim_guard r tok now = None"
    using runs lapsed by (simp add: claim_guard_def status_sets)
  have res: "claim_result r tok (Some e) now = resumed_same_generation"
    "claim_generation r tok (Some e) now = execution_generation r"
    using same by (auto simp: claim_result_def claim_generation_def resumes_def same_execution_def)
  show ?thesis
    using row guard res old new mark
    by (simp add: claim_execution_def revoke_outgoing_def Let_def mirror_def is_current_owner_def
          holds_def status_sets)
qed

theorem resume_keeps_stale_mirror_witness:
  "\<exists>own w'. claim_execution demo_fp
        \<lparr>w_jobs = [(3, (claim_row (new_row 3 0) 1 5 ''celery'' (Some ''w1'') 0 900 21600))],
         w_fence = (\<lambda>_. None)(3 \<mapsto> (demo_fp 3 1 5, seconds 902))\<rparr>
        3 6 ''celery'' (Some ''w1'') (seconds 901) 900 21600 RAnswered
        = (Inr (resumed_same_generation, Some own), w')
      \<and> own_generation own = 1
      \<and> mirror (seconds 901) w' 3 = Some (demo_fp 3 1 5)
      \<and> \<not> is_current_owner w' (own\<lparr>own_token := 5\<rparr>)"
proof -
  let ?r = "claim_row (new_row 3 0) 1 5 ''celery'' (Some ''w1'') 0 900 21600"
  let ?w = "\<lparr>w_jobs = [(3, ?r)], w_fence = (\<lambda>_. None)(3 \<mapsto> (demo_fp 3 1 5, seconds 902))\<rparr>"
  have h: "map_of (w_jobs ?w) 3 = Some ?r" "status ?r = JS_running"
    "active_worker_token ?r = Some 5" "(6::uuid) \<noteq> 5"
    "\<not> lease_active ?r (seconds 901)" "same_execution ?r (Some ''w1'')"
    "mirror (seconds 901) ?w 3 = Some (demo_fp 3 (execution_generation ?r) 5)"
    by (simp_all add: lease_active_def same_execution_def mirror_def current_def seconds_def
          claim_row_def)
  from resume_keeps_stale_mirror [where fp = demo_fp and w = ?w and i = 3 and r = ?r and old = 5
      and tok = 6 and e = "''w1''" and now = "seconds 901" and b = "''celery''" and ls = 900
      and ts = 21600 and rc = RAnswered, OF h]
  show ?thesis by simp
qed

section \<open>Handing a job back\<close>

text \<open>
  A job handed back can be taken at once. After a successful hand-back the job is pending and
  unowned, the old execution is superseded, and whoever claims it next - at any time, under any
  token and any other execution - is granted a new generation without waiting for a lease to lapse,
  with the run's first start and its deadline unchanged.
\<close>

theorem hand_back_then_claim:
  assumes hb: "hand_back fp w own now rc = (True, w1)"
    and other: "\<forall>r. map_of (w_jobs w) (own_job_id own) = Some r \<longrightarrow> \<not> same_execution r x"
  shows "\<not> is_current_owner w1 own
    \<and> (\<exists>r own' w2. map_of (w_jobs w) (own_job_id own) = Some r
        \<and> claim_execution fp w1 (own_job_id own) tok b x later ls ts rc2
            = (Inr (acquired_new_generation, Some own'), w2)
        \<and> own_generation own' = own_generation own + 1
        \<and> (pipeline_deadline_at r \<noteq> None \<longrightarrow> own_deadline own' = pipeline_deadline_at r))"
proof -
  from hb obtain r where r: "map_of (w_jobs w) (own_job_id own) = Some r"
    and run: "status r = JS_running" and h: "holds r own"
    and w1: "w_jobs w1 = put (own_job_id own)
       (r\<lparr>status := JS_pending, active_worker_token := None, lease_expires_at := Some now,
          updated_at := now\<rparr>) (w_jobs w)"
    by (auto simp: hand_back_def Let_def cas_def split: option.splits if_splits)
  let ?r1 = "r\<lparr>status := JS_pending, active_worker_token := None, lease_expires_at := Some now,
          updated_at := now\<rparr>"
  have row1: "map_of (w_jobs w1) (own_job_id own) = Some ?r1" by (simp add: w1)
  have same: "\<not> same_execution ?r1 x"
    using other r by (auto simp: same_execution_def split: option.splits)
  have guard: "claim_guard ?r1 tok later = None"
    by (simp add: claim_guard_def status_sets lease_active_def)
  have res: "claim_result ?r1 tok x later = acquired_new_generation"
    "claim_generation ?r1 tok x later = execution_generation r + 1"
    using same by (simp_all add: claim_result_def claim_generation_def resumes_def lease_active_def)
  have out: "revoke_outgoing fp ?r1 (own_job_id own) tok x later rc2 (w_fence w1)
      = (Some True, w_fence w1)"
    by (simp add: revoke_outgoing_def)
  show ?thesis
    using row1 guard res out r h
    by (auto simp: claim_execution_def Let_def is_current_owner_def holds_def)
qed

theorem hand_back_then_claim_witness:
  "\<exists>r own' w2. map_of (w_jobs demo_claimed) 3 = Some r
     \<and> claim_execution demo_fp (snd (hand_back demo_fp demo_claimed (demo_own 1 5) 10 RAnswered))
          3 6 ''celery'' None 20 900 21600 RAnswered
         = (Inr (acquired_new_generation, Some own'), w2)
     \<and> own_generation own' = 2"
proof -
  have hb: "hand_back demo_fp demo_claimed (demo_own 1 5) 10 RAnswered
      = (True, snd (hand_back demo_fp demo_claimed (demo_own 1 5) 10 RAnswered))"
    by (simp add: hand_back_def Let_def cas_def demo_claimed_eq holds_def)
  from hand_back_then_claim [OF hb, of None 6 "''celery''" 20 900 21600 RAnswered]
  show ?thesis by (auto simp: same_execution_def)
qed

end
