(* ===== verification/Delivery.thy ===== *)
theory Delivery
  imports LeaseMirror Errors
begin

text \<open>
  Admission of a delivery (\<open>application/execution_fence.py\<close>) and the redelivery counter
  (\<open>adapters/delivery_guard/redis.py\<close>): how often a job may be redelivered, the claim a delivery
  makes and its five refusals, the wait for a busy database, and the ownership check that fails
  closed. What other workers do between two steps of a delivery is the argument \<open>before\<close> or
  \<open>between\<close>, a function on the world.
\<close>

section \<open>The redelivery counter\<close>

type_synonym counters = "uuid \<Rightarrow> (int \<times> datetime option) option"

definition DELIVERIES_TTL_SECONDS :: int where
  "DELIVERIES_TTL_SECONDS = 86400"

definition deliveries :: "datetime \<Rightarrow> counters \<Rightarrow> uuid \<Rightarrow> (int \<times> datetime option) option" where
  "deliveries now c j =
     (case c j of
        None \<Rightarrow> None
      | Some (n, None) \<Rightarrow> Some (n, None)
      | Some (n, Some e) \<Rightarrow> if now < e then Some (n, Some e) else None)"

definition record_attempt :: "datetime \<Rightarrow> uuid \<Rightarrow> counters \<Rightarrow> int \<times> counters" where
  "record_attempt now j c =
     (let (m, e) = or_else (deliveries now c j) (0, None);
          n = m + 1;
          e' = (if n = 1 then Some (now + seconds DELIVERIES_TTL_SECONDS) else e)
      in (n, c(j \<mapsto> (n, e'))))"

definition forgive_attempt :: "datetime \<Rightarrow> uuid \<Rightarrow> counters \<Rightarrow> int \<times> counters" where
  "forgive_attempt now j c =
     (case deliveries now c j of
        None \<Rightarrow> (0, c)
      | Some (n, e) \<Rightarrow> if 0 < n then (n - 1, c(j \<mapsto> (n - 1, e))) else (0, c))"

lemma forgiven_attempt_is_not_counted:
  "deliveries now c j = Some (n, Some e) \<Longrightarrow> 0 < n \<Longrightarrow>
     deliveries now (snd (forgive_attempt now j (snd (record_attempt now j c)))) j = Some (n, Some e)"
  by (auto simp: deliveries_def record_attempt_def forgive_attempt_def Let_def
      split: option.splits if_splits)

section \<open>The ownership check\<close>

text \<open>Each of the two attempts either reads the database (\<open>Some w\<close>) or raises (\<open>None\<close>).\<close>

definition check_owner :: "'f world option \<Rightarrow> 'f world option \<Rightarrow> ExecutionOwnership \<Rightarrow> bool" where
  "check_owner a0 a1 own =
     (case a0 of
        Some w \<Rightarrow> is_current_owner w own
      | None \<Rightarrow> (case a1 of Some w \<Rightarrow> is_current_owner w own | None \<Rightarrow> False))"

datatype fence_error = StaleWorkerFenced | StaleExecutionPublish

definition bound_owner_ok ::
  "ExecutionOwnership option \<Rightarrow> 'f world option \<Rightarrow> 'f world option \<Rightarrow> bool" where
  "bound_owner_ok bound a0 a1 = (case bound of None \<Rightarrow> True | Some own \<Rightarrow> check_owner a0 a1 own)"

definition assert_current_owner ::
  "ExecutionOwnership option \<Rightarrow> 'f world option \<Rightarrow> 'f world option \<Rightarrow> fence_error + unit" where
  "assert_current_owner bound a0 a1 =
     (if bound_owner_ok bound a0 a1 then Inr () else Inl StaleWorkerFenced)"

definition lock_ownership_for_commit ::
  "'f world \<Rightarrow> ExecutionOwnership option \<Rightarrow> fence_error + unit" where
  "lock_ownership_for_commit w bound =
     (case bound of
        None \<Rightarrow> Inr ()
      | Some own \<Rightarrow>
          (case lock_current_owner w own of
             None \<Rightarrow> Inl StaleWorkerFenced
           | Some r \<Rightarrow> if status r \<in> TERMINAL_STATES then Inl StaleWorkerFenced else Inr ()))"

text \<open>\<open>db_ok\<close>: whether the session, the heartbeat and its commit went through.\<close>

definition reverify_and_heal_fence ::
  "'f fingerprint \<Rightarrow> 'f world \<Rightarrow> ExecutionOwnership \<Rightarrow> datetime \<Rightarrow> int \<Rightarrow> bool
     \<Rightarrow> redis_call \<Rightarrow> redis_call \<Rightarrow> (fence_error + unit) \<times> 'f world"
where
  "reverify_and_heal_fence fp w own now lease_s db_ok rc1 rc2 =
     (if \<not> db_ok then (Inl StaleExecutionPublish, w)
      else case heartbeat fp w own now lease_s None rc1 rc2 of
             (True, w') \<Rightarrow> (Inr (), w')
           | (False, _) \<Rightarrow> (Inl StaleExecutionPublish, w))"

definition remaining_pipeline_time :: "ExecutionOwnership option \<Rightarrow> datetime \<Rightarrow> int option" where
  "remaining_pipeline_time bound now =
     (case bound of None \<Rightarrow> None | Some own \<Rightarrow> map_option (\<lambda>d. d - now) (own_deadline own))"

lemma lock_agrees_with_check:
  "lock_ownership_for_commit w (Some own) = Inr () \<longleftrightarrow> is_current_owner w own"
  by (auto simp: lock_ownership_for_commit_def lock_current_owner_def is_current_owner_def
      split: option.splits)

text \<open>
  Ambiguous ownership fails closed. The check a worker makes before a side effect passes only if
  one of its two attempts read the database and found the worker's generation and token on a job
  that has not ended; two failed attempts never pass. And the same condition, read under the row
  lock, is what lets a commit through, so a worker whose claim is gone can do neither.
\<close>

theorem ownership_fails_closed:
  "assert_current_owner (Some own) None None = Inl StaleWorkerFenced
   \<and> (assert_current_owner (Some own) a0 a1 = Inr () \<longrightarrow>
        (\<exists>w r. w \<in> set_option a0 \<union> set_option a1 \<and> map_of (w_jobs w) (own_job_id own) = Some r
             \<and> status r \<notin> TERMINAL_STATES \<and> holds r own))
   \<and> (lock_ownership_for_commit w0 (Some own) = Inr ()
        \<longleftrightarrow> assert_current_owner (Some own) (Some w0) a1 = Inr ())"
  by (auto simp: assert_current_owner_def bound_owner_ok_def check_owner_def
      lock_agrees_with_check is_current_owner_def split: option.splits if_splits)

theorem ownership_fails_closed_witness:
  "\<exists>r. map_of (w_jobs demo_claimed) 3 = Some r \<and> status r \<notin> TERMINAL_STATES
      \<and> holds r (demo_own 1 5)"
proof -
  have ok: "assert_current_owner (Some (demo_own 1 5)) None (Some demo_claimed) = Inr ()"
    by (simp add: assert_current_owner_def bound_owner_ok_def check_owner_def is_current_owner_def
        demo_claimed_eq holds_def status_sets)
  show ?thesis
    using ownership_fails_closed [of "demo_own 1 5" None "Some demo_claimed" demo_claimed] ok
    by auto
qed

section \<open>Claiming a delivery\<close>

text \<open>The refusal is data: a status and the detail's second entry.\<close>

datatype delivery =
    DeliveryRefused string "string \<times> string"
  | DeliveryClaim ExecutionOwnership uuid "datetime option"

definition claim_delivery ::
  "'f fingerprint \<Rightarrow> ('f world \<Rightarrow> 'f world) \<Rightarrow> ('f world \<Rightarrow> 'f world) \<Rightarrow> 'f world \<Rightarrow> uuid \<Rightarrow> uuid
     \<Rightarrow> string \<Rightarrow> string \<Rightarrow> datetime \<Rightarrow> int \<Rightarrow> int \<Rightarrow> redis_call \<Rightarrow> datetime \<Rightarrow> redis_call
     \<Rightarrow> (lease_error + delivery) \<times> 'f world"
where
  "claim_delivery fp before between w j tok backend exec_id now ls ts rc now2 ic =
     (let existing = get_internal (w_jobs w) j in
      if (case existing of None \<Rightarrow> False | Some r \<Rightarrow> status r \<in> TERMINAL_STATES)
      then (Inr (DeliveryRefused (JobStatus_value (status (the existing)))
                  (''skipped'', ''already_terminal'')), w)
      else
        (case claim_execution fp (before w) j tok backend (Some exec_id) now ls ts rc of
           (Inl e, w2) \<Rightarrow> (Inl e, w2)
         | (Inr (res, own), w2) \<Rightarrow>
             if res \<in> {claim_not_found, invalid_job_state}
             then (Inr (DeliveryRefused ''skipped'' (''reason'', ''not_startable'')), w2)
             else if res = already_terminal
             then (Inr (DeliveryRefused ''skipped'' (''skipped'', ''already_terminal'')), w2)
             else if res = active_lease_conflict
             then (Inr (DeliveryRefused ''skipped'' (''reason'', ''active_lease_conflict'')), w2)
             else
               (case own of
                  None \<Rightarrow> (Inr (DeliveryRefused ''skipped'' (''reason'', ''no_ownership'')), w2)
                | Some ow \<Rightarrow>
                    let ttl = (if own_fence_ttl ow = 0 then 1 else own_fence_ttl ow) in
                    (case install_fence_value (between w2) j
                            (fp j (own_generation ow) (own_token ow)) ttl now2 ic of
                       (Some True, w4) \<Rightarrow>
                         (Inr (DeliveryClaim ow tok (map_option created_at existing)), w4)
                     | (_, w4) \<Rightarrow>
                         (Inr (DeliveryRefused ''skipped'' (''reason'', ''fence_unavailable'')), w4)))))"

lemma install_reply:
  "install_fence_value w i f ttl now rc = (b, w') \<Longrightarrow>
     w_jobs w' = w_jobs w \<and> (b = Some True \<longleftrightarrow> rc = RAnswered)
     \<and> (rc = RAnswered \<longrightarrow> mirror now w' i = Some f)"
  by (cases rc) (auto simp: install_fence_value_def rcall_def install_def mirror_def)

lemma claim_refused_jobs:
  assumes "claim_execution fp w i tok b x now ls ts rc = (Inr (res, None), w')"
  shows "w_jobs w' = w_jobs w"
  using assms by (auto simp: claim_execution_def Let_def split: option.splits prod.splits)

lemma claim_kind:
  assumes "claim_execution fp w i tok b x now ls ts rc = (Inr (res, own), w')"
  shows "(own = None) = (res \<in> {claim_not_found, invalid_job_state, already_terminal,
                                  active_lease_conflict})"
  using assms
  by (auto simp: claim_execution_def claim_guard_def claim_result_def Let_def
      split: option.splits prod.splits if_splits)

lemma claim_delivery_cases:
  "case claim_delivery fp before between w j tok b x now ls ts rc now2 ic of
     (Inr (DeliveryClaim own t c), w') \<Rightarrow>
       t = tok \<and> mirror now2 w' j = Some (fp j (own_generation own) (own_token own))
       \<and> (\<exists>res w2. claim_execution fp (before w) j tok b (Some x) now ls ts rc = (Inr (res, Some own), w2)
            \<and> is_current_owner w2 own \<and> w_jobs w' = w_jobs (between w2))
   | (Inr (DeliveryRefused st d), w') \<Rightarrow>
       (if d = (''reason'', ''fence_unavailable'')
        then \<exists>res own w2. claim_execution fp (before w) j tok b (Some x) now ls ts rc
                  = (Inr (res, Some own), w2) \<and> ic \<noteq> RAnswered \<and> w_jobs w' = w_jobs (between w2)
        else w_jobs w' \<in> {w_jobs w, w_jobs (before w)})
   | (Inl FenceUnavailable, w') \<Rightarrow> w_jobs w' = w_jobs (before w)"
proof (cases "\<exists>r. map_of (w_jobs w) j = Some r \<and> status r \<in> TERMINAL_STATES")
  case True
  then show ?thesis by (auto simp: claim_delivery_def Let_def get_internal_def)
next
  case False
  then have live: "\<not> (case get_internal (w_jobs w) j of None \<Rightarrow> False | Some r \<Rightarrow> status r \<in> TERMINAL_STATES)"
    by (auto simp: get_internal_def split: option.splits)
  obtain e w2 where c: "claim_execution fp (before w) j tok b (Some x) now ls ts rc = (e, w2)"
    by (cases "claim_execution fp (before w) j tok b (Some x) now ls ts rc")
  show ?thesis
  proof (cases e)
    case (Inl err)
    with c have "w_jobs w2 = w_jobs (before w)"
      by (auto simp: claim_execution_def Let_def split: option.splits prod.splits)
    with live c Inl show ?thesis by (cases err) (simp add: claim_delivery_def Let_def)
  next
    case (Inr p)
    obtain res own where p: "p = (res, own)" by (cases p)
    show ?thesis
    proof (cases own)
      case None
      with c Inr p have "w_jobs w2 = w_jobs (before w)"
        "res \<in> {claim_not_found, invalid_job_state, already_terminal, active_lease_conflict}"
        using claim_refused_jobs [of fp "before w"] claim_kind [of fp "before w"] by fastforce+
      with live c Inr p None show ?thesis
        by (auto simp: claim_delivery_def Let_def)
    next
      case (Some ow)
      with c Inr p have granted: "claim_execution fp (before w) j tok b (Some x) now ls ts rc
          = (Inr (res, Some ow), w2)" by simp
      then have kind: "res \<notin> {claim_not_found, invalid_job_state, already_terminal, active_lease_conflict}"
        using claim_kind by blast
      from claim_grantedD [OF granted] have owner: "is_current_owner w2 ow"
        by (auto simp: is_current_owner_def holds_def status_sets)
      let ?ttl = "if own_fence_ttl ow = 0 then 1 else own_fence_ttl ow"
      obtain bb w4 where inst: "install_fence_value (between w2) j
          (fp j (own_generation ow) (own_token ow)) ?ttl now2 ic = (bb, w4)"
        by (cases "install_fence_value (between w2) j
          (fp j (own_generation ow) (own_token ow)) ?ttl now2 ic")
      note reply = install_reply [OF inst]
      have d: "claim_delivery fp before between w j tok b x now ls ts rc now2 ic =
        (if bb = Some True then (Inr (DeliveryClaim ow tok (map_option created_at (get_internal (w_jobs w) j))), w4)
         else (Inr (DeliveryRefused ''skipped'' (''reason'', ''fence_unavailable'')), w4))"
        using live granted kind inst by (auto simp: claim_delivery_def Let_def split: option.splits bool.splits)
      show ?thesis using d granted owner reply by (cases "bb = Some True") auto
    qed
  qed
qed

text \<open>
  What a delivery leaves behind. A granted delivery runs under a claim that was committed to the
  row first and whose mark is in the mirror before any authority is handed out. A delivery refused
  because the mirror could not be written has committed its claim all the same; every other refusal,
  and an exception, leaves the job rows as the workers around it left them.
\<close>

theorem claim_delivery_effect:
  "case claim_delivery fp before between w j tok b x now ls ts rc now2 ic of
     (Inr (DeliveryClaim own t c), w') \<Rightarrow>
       t = tok \<and> mirror now2 w' j = Some (fp j (own_generation own) (own_token own))
       \<and> (\<exists>res w2. claim_execution fp (before w) j tok b (Some x) now ls ts rc = (Inr (res, Some own), w2)
            \<and> is_current_owner w2 own \<and> w_jobs w' = w_jobs (between w2))
   | (Inr (DeliveryRefused st d), w') \<Rightarrow>
       (if d = (''reason'', ''fence_unavailable'')
        then \<exists>res own w2. claim_execution fp (before w) j tok b (Some x) now ls ts rc
                  = (Inr (res, Some own), w2) \<and> ic \<noteq> RAnswered \<and> w_jobs w' = w_jobs (between w2)
        else w_jobs w' \<in> {w_jobs w, w_jobs (before w)})
   | (Inl FenceUnavailable, w') \<Rightarrow> w_jobs w' = w_jobs (before w)"
  by (rule claim_delivery_cases)

text \<open>
  A delivery that could not install its mark strands the job for one lease. It refuses to run,
  but its claim is committed: until that lease lapses the job reads as owned, and every other
  delivery is refused with an active-lease conflict.
\<close>

theorem fence_unavailable_strands_lease:
  assumes "claim_delivery fp before id w j tok b x now ls ts rc now2 ic
      = (Inr (DeliveryRefused st (''reason'', ''fence_unavailable'')), w')"
    and "tok2 \<noteq> tok" and "later < now + seconds ls"
  shows "fst (claim_execution fp w' j tok2 b2 x2 later ls2 ts2 rc2) = Inr (active_lease_conflict, None)"
proof -
  from claim_delivery_cases [where fp = fp and before = before and between = id and w = w and j = j
      and tok = tok and b = b and x = x and now = now and ls = ls and ts = ts and rc = rc
      and ?now2.0 = now2 and ic = ic] assms(1)
  obtain res own w2 where c: "claim_execution fp (before w) j tok b (Some x) now ls ts rc
      = (Inr (res, Some own), w2)" and same: "w_jobs w' = w_jobs w2" by auto
  from claim_grantedD [OF c] obtain r g where
    "w_jobs w2 = put j (claim_row r g tok b (Some x) now ls ts) (w_jobs (before w))" by blast
  with same have "map_of (w_jobs w') j = Some (claim_row r g tok b (Some x) now ls ts)" by simp
  with assms(2,3) show ?thesis
    by (simp add: claim_execution_def claim_guard_def lease_active_def status_sets)
qed

theorem fence_unavailable_strands_lease_witness:
  "fst (claim_execution demo_fp
      (snd (claim_delivery demo_fp id id demo_world 3 5 ''celery'' ''w1'' 0 900 21600 RAnswered 1 RFailed))
      3 6 ''celery'' (Some ''w2'') 7 900 21600 RAnswered) = Inr (active_lease_conflict, None)"
proof -
  let ?d = "claim_delivery demo_fp id id demo_world 3 5 ''celery'' ''w1'' 0 900 21600 RAnswered 1 RFailed"
  have "fst ?d = Inr (DeliveryRefused ''skipped'' (''reason'', ''fence_unavailable''))"
    by (simp add: claim_delivery_def get_internal_def demo_defs lease_eval install_fence_value_def)
  then have "?d = (Inr (DeliveryRefused ''skipped'' (''reason'', ''fence_unavailable'')), snd ?d)"
    by (metis prod.collapse)
  from fence_unavailable_strands_lease [OF this, where ?tok2.0 = 6 and later = 7 and ?b2.0 = "''celery''"
      and ?x2.0 = "Some ''w2''" and ?ls2.0 = 900 and ?ts2.0 = 21600 and ?rc2.0 = RAnswered]
  show ?thesis by (simp add: seconds_def)
qed

section \<open>A job that keeps coming back\<close>

text \<open>
  \<open>read\<close> is the unlocked read of the row (\<open>None\<close> if it raised, \<open>Some\<close> what it found), \<open>db_ok\<close>
  whether the failing transaction went through; a rolled-back transaction changes nothing. The
  rendered account of the lost worker is the argument \<open>lost\<close>. The last component lists the
  dead-letter records written.
\<close>

definition live_owned :: "SimulationJob \<Rightarrow> datetime \<Rightarrow> bool" where
  "live_owned r now \<longleftrightarrow>
     active_worker_token r \<noteq> None \<and> (case lease_expires_at r of None \<Rightarrow> False | Some e \<Rightarrow> now < e)"

definition dead_letter_row :: "(SimulationJob \<Rightarrow> json_obj) \<Rightarrow> SimulationJob \<Rightarrow> SimulationJob" where
  "dead_letter_row lost r =
     r\<lparr>failed_reason := Some (or_else (FailedReason_of (failed_reason_for WORKER_LOST)) FR_unhandled),
       final_result := Some (lost r)\<rparr>"

definition dead_letter_job ::
  "(SimulationJob \<Rightarrow> json_obj) \<Rightarrow> jobs \<Rightarrow> uuid \<Rightarrow> bool \<Rightarrow> datetime \<Rightarrow> jobs" where
  "dead_letter_job lost t j db_ok now =
     (if \<not> db_ok then t
      else case transition t j JS_failed None now of
             Some (applied, t') \<Rightarrow> snd (cas t' j (\<lambda>_. True) (dead_letter_row lost))
           | Some (_, t') \<Rightarrow> t'
           | None \<Rightarrow> t)"

definition guard_redelivery ::
  "(SimulationJob \<Rightarrow> json_obj) \<Rightarrow> jobs \<Rightarrow> uuid \<Rightarrow> int \<Rightarrow> int \<Rightarrow> SimulationJob option option \<Rightarrow> bool
     \<Rightarrow> datetime \<Rightarrow> delivery option \<times> jobs \<times> FailureClass list"
where
  "guard_redelivery lost t j n cap read db_ok now =
     (if n \<le> cap then (None, t, [])
      else if (case or_else read None of
                 None \<Rightarrow> False
               | Some r \<Rightarrow> status r \<in> TERMINAL_STATES \<or> live_owned r now)
      then (Some (DeliveryRefused ''skipped'' (''reason'', ''stale_copy_over_cap'')), t, [])
      else (Some (DeliveryRefused ''failed'' (''reason'', ''redelivery_cap'')),
            dead_letter_job lost t j db_ok now, [WORKER_LOST]))"

lemma dead_letter_job_row:
  "map_of (dead_letter_job lost t j db_ok now) k =
     (case map_of t k of
        None \<Rightarrow> None
      | Some r \<Rightarrow>
          if db_ok \<and> k = j \<and> status r \<in> legal_sources JS_failed
          then Some (dead_letter_row lost (timestamps_for JS_failed now r)) else Some r)"
  by (auto simp: dead_letter_job_def transition_default cas_row split: option.splits)

text \<open>
  The redelivery cap fails a job only when nothing is running it. A delivery within the cap is
  admitted and changes nothing. Over the cap, a job whose row was read as ended or owned by a live
  lease is dropped without a change or a dead letter; otherwise one dead letter is written, and the
  row is failed with the worker-lost reason and its account exactly if it may legally fail - so a
  terminal row is never overwritten, even when the read failed - and no other job is touched.
\<close>

theorem redelivery_cap_spec:
  "(n \<le> cap \<longrightarrow> guard_redelivery lost t j n cap read db_ok now = (None, t, []))
   \<and> (cap < n \<and> read = Some (Some r) \<and> (status r \<in> TERMINAL_STATES \<or> live_owned r now) \<longrightarrow>
        guard_redelivery lost t j n cap read db_ok now
          = (Some (DeliveryRefused ''skipped'' (''reason'', ''stale_copy_over_cap'')), t, []))
   \<and> (\<forall>k r0. map_of t k = Some r0 \<longrightarrow>
        (let r1 = map_of (fst (snd (guard_redelivery lost t j n cap read db_ok now))) k in
           r1 = Some r0 \<or>
           (k = j \<and> cap < n \<and> status r0 \<notin> TERMINAL_STATES
            \<and> map_option status r1 = Some JS_failed
            \<and> map_option failed_reason r1 = Some (Some FR_unhandled)
            \<and> snd (snd (guard_redelivery lost t j n cap read db_ok now)) = [WORKER_LOST])))"
proof -
  have reason: "FailedReason_of (failed_reason_for WORKER_LOST) = Some FR_unhandled"
    by (simp add: FailedReason_of_def failed_reason_for_def)
  have legal: "status r0 \<in> legal_sources JS_failed \<Longrightarrow> status r0 \<notin> TERMINAL_STATES" for r0
    by (auto simp: legal_sources_def status_sets)
  show ?thesis
    using legal
    by (auto simp: guard_redelivery_def dead_letter_job_row dead_letter_row_def reason Let_def)
qed

theorem redelivery_cap_spec_witness:
  "guard_redelivery (\<lambda>_. []) (w_jobs demo_claimed) 3 6 5
      (Some (map_of (w_jobs demo_claimed) 3)) True 7
    = (Some (DeliveryRefused ''skipped'' (''reason'', ''stale_copy_over_cap'')), w_jobs demo_claimed, [])"
  using redelivery_cap_spec [of 6 5 "\<lambda>_. []" "w_jobs demo_claimed" 3
      "Some (map_of (w_jobs demo_claimed) 3)" True 7
      "claim_row (new_row 3 0) 1 5 ''celery'' None 0 900 21600"]
  by (simp add: demo_claimed_eq live_owned_def seconds_def)

section \<open>Waiting out a busy database\<close>

text \<open>
  \<open>claim_delivery_patiently\<close> as a loop over tries: try \<open>k\<close> ends \<open>dur k\<close> microseconds after it
  began, with a result, a database that answered "not now", or any other error. The waits double
  from five seconds to a minute. A sleep is exactly its step; a longer one is part of the next
  try's duration.
\<close>

datatype 'a try_end = Ended 'a | Busy | OtherFailure

definition CLAIM_WAIT_FIRST :: int where "CLAIM_WAIT_FIRST = seconds 5"
definition CLAIM_WAIT_MAX_STEP :: int where "CLAIM_WAIT_MAX_STEP = seconds 60"

fun wait_step :: "nat \<Rightarrow> int" where
  "wait_step 0 = CLAIM_WAIT_FIRST"
| "wait_step (Suc k) = min (wait_step k * 2) CLAIM_WAIT_MAX_STEP"

lemma wait_step_bounds: "seconds 5 \<le> wait_step k \<and> wait_step k \<le> seconds 60"
  by (induction k) (auto simp: CLAIM_WAIT_FIRST_def CLAIM_WAIT_MAX_STEP_def seconds_def)

lemma wait_step_pos [simp]: "0 < wait_step k"
  using wait_step_bounds [of k] by (simp add: seconds_def)

function patient_loop ::
  "int \<Rightarrow> (nat \<Rightarrow> nat) \<Rightarrow> (nat \<Rightarrow> 'a try_end) \<Rightarrow> nat \<Rightarrow> int \<Rightarrow> 'a try_end \<times> nat \<times> int" where
  "patient_loop budget dur out k elapsed =
     (let elapsed' = elapsed + int (dur k) in
      if out k \<noteq> Busy \<or> budget < elapsed' + wait_step k then (out k, k, elapsed')
      else patient_loop budget dur out (Suc k) (elapsed' + wait_step k))"
  by pat_completeness auto
termination
proof (relation "measure (\<lambda>(budget, dur, out, k, elapsed). nat (budget - elapsed + 1))", goal_cases)
  case (2 budget dur out k elapsed e')
  have "0 < wait_step k" "0 \<le> int (dur k)" by simp_all
  with 2 have "elapsed \<le> budget" "elapsed < e' + wait_step k" by linarith+
  then show ?case by simp
qed simp

declare patient_loop.simps [simp del]

definition claim_delivery_patiently ::
  "int \<Rightarrow> (nat \<Rightarrow> nat) \<Rightarrow> (nat \<Rightarrow> 'a try_end) \<Rightarrow> 'a try_end \<times> nat \<times> int" where
  "claim_delivery_patiently budget dur out = patient_loop budget dur out 0 0"

text \<open>Time gone when try \<open>k\<close> begins, if it is reached.\<close>

definition waited :: "(nat \<Rightarrow> nat) \<Rightarrow> nat \<Rightarrow> int" where
  "waited dur k = (\<Sum>i<k. int (dur i) + wait_step i)"

lemma patient_loop_stops:
  assumes "patient_loop budget dur out k (waited dur k) = (e, m, t)"
    and "k = 0 \<or> waited dur k \<le> budget"
  shows "k \<le> m \<and> e = out m \<and> t = waited dur m + int (dur m) \<and> (\<forall>i. k \<le> i \<and> i < m \<longrightarrow> out i = Busy)
     \<and> (m = 0 \<or> waited dur m \<le> budget) \<and> (e \<noteq> Busy \<or> budget < waited dur (Suc m))"
  using assms
proof (induction budget dur out k "waited dur k" rule: patient_loop.induct)
  case (1 budget dur out k)
  show ?case
  proof (cases "out k \<noteq> Busy \<or> budget < waited dur (Suc k)")
    case True
    with 1(2,3) show ?thesis
      by (auto simp: patient_loop.simps [of _ _ _ k] waited_def Let_def split: if_splits)
  next
    case False
    have next_wait: "waited dur k + int (dur k) + wait_step k = waited dur (Suc k)"
      by (simp add: waited_def)
    with False 1(2) have rec: "patient_loop budget dur out (Suc k) (waited dur (Suc k)) = (e, m, t)"
      by (auto simp: patient_loop.simps [of _ _ _ k] Let_def)
    from 1(1) [OF refl _ next_wait rec] False next_wait
    have "Suc k \<le> m \<and> e = out m \<and> t = waited dur m + int (dur m)
        \<and> (\<forall>i. Suc k \<le> i \<and> i < m \<longrightarrow> out i = Busy)
        \<and> (m = 0 \<or> waited dur m \<le> budget) \<and> (e \<noteq> Busy \<or> budget < waited dur (Suc m))"
      by auto
    with False show ?thesis using le_neq_implies_less by (metis Suc_leI Suc_leD)
  qed
qed

text \<open>
  The patient claim returns, with the first try that is not "busy" or with the busy error once
  the next wait would exceed the budget - never earlier and never later. Every try but the first
  begins within the budget, so what is spent beyond it is at most the last try itself, and at most
  one try per five seconds of budget is made after the first.
\<close>

theorem patient_claim_spec:
  "\<exists>m. claim_delivery_patiently budget dur out = (out m, m, waited dur m + int (dur m))
     \<and> (\<forall>i. i < m \<longrightarrow> out i = Busy)
     \<and> (out m = Busy \<longrightarrow> budget < waited dur (Suc m))
     \<and> (m = 0 \<or> waited dur m \<le> budget \<and> seconds (5 * int m) \<le> budget)"
proof -
  obtain e m t where r: "patient_loop budget dur out 0 (waited dur 0) = (e, m, t)"
    by (cases "patient_loop budget dur out 0 (waited dur 0)")
  note stop = patient_loop_stops [OF r]
  have "seconds (5 * int m) = (\<Sum>i<m. seconds 5)"
    by (simp add: seconds_def)
  also have "\<dots> \<le> waited dur m"
    unfolding waited_def using wait_step_bounds by (intro sum_mono) (auto intro: add_increasing)
  finally show ?thesis
    using stop r by (auto simp: claim_delivery_patiently_def waited_def)
qed

theorem patient_claim_spec_witness:
  "fst (snd (claim_delivery_patiently (seconds 12) (\<lambda>_. 3)
      (\<lambda>k. if k < 5 then Busy else Ended ()))) \<le> 2"
proof -
  let ?r = "claim_delivery_patiently (seconds 12) (\<lambda>_. 3) (\<lambda>k. if k < 5 then Busy else Ended ())"
  from patient_claim_spec [of "seconds 12" "\<lambda>_. 3" "\<lambda>k. if k < 5 then Busy else Ended ()"]
  show ?thesis by (auto simp: seconds_def)
qed

end
