(* ===== verification/Events.thy ===== *)
theory Events
  imports Delivery
begin

text \<open>
  The event stream of a job (\<open>adapters/event_stream/redis.py\<close>) and the publisher that checks
  ownership before each event (\<open>application/execution_publisher.py\<close>).

  The Lua script is one atomic step over four Redis keys of the job (the sequence counter, the
  log, the set of operation keys, the fence) and the channel; keys carry their expiry and a key
  past it reads as absent. JSON texts are strings; the values inside an event are the rendered
  JSON texts.
\<close>

section \<open>Texts\<close>

definition digit :: "nat \<Rightarrow> char" where
  "digit n = char_of (48 + n)"

fun decimal :: "nat \<Rightarrow> string" where
  "decimal n = (if n < 10 then [digit n] else decimal (n div 10) @ [digit (n mod 10)])"

declare decimal.simps [simp del]

text \<open>The script's splice of the sequence number before the payload's closing brace.\<close>

definition splice_seq :: "string \<Rightarrow> nat \<Rightarrow> string" where
  "splice_seq payload n =
     (let body = butlast payload in
      if body = ''{'' then ''{\"seq\":'' @ decimal n @ ''}''
      else body @ '',\"seq\":'' @ decimal n @ ''}'')"

fun json_members :: "json_obj \<Rightarrow> string" where
  "json_members [] = []"
| "json_members [(k, v)] = ''\"'' @ k @ ''\": '' @ v"
| "json_members ((k, v) # kvs) = ''\"'' @ k @ ''\": '' @ v @ '', '' @ json_members kvs"

definition dumps :: "json_obj \<Rightarrow> string" where
  "dumps m = ''{'' @ json_members m @ ''}''"

record UiEvent =
  ev_type :: string
  ev_stage :: string
  ev_data :: json_obj

definition quoted :: "string \<Rightarrow> string" where
  "quoted s = ''\"'' @ s @ ''\"''"

text \<open>\<open>ts\<close> is the clock read by this call of \<open>wire\<close>; the data may override the three heads.\<close>

definition wire :: "UiEvent \<Rightarrow> string \<Rightarrow> json_obj" where
  "wire ev ts = fold (\<lambda>(k, v) m. AList.update k v m) (ev_data ev)
     [(''type'', quoted (ev_type ev)), (''stage'', quoted (ev_stage ev)), (''ts'', quoted ts)]"

definition durable_wire :: "UiEvent \<Rightarrow> string \<Rightarrow> json_obj" where
  "durable_wire ev ts =
     (let w = wire ev ts in
      if map_of w ''type'' = Some (quoted ''screenshot'') then filter (\<lambda>(k, v). k \<noteq> ''image'') w else w)"

section \<open>The atomic write\<close>

record stream =
  st_seq :: "(nat \<times> datetime) option"
  st_log :: "(string list \<times> datetime) option"
  st_ops :: "(string list \<times> datetime) option"
  st_channel :: "string list"

definition empty_stream :: stream where
  "empty_stream = \<lparr>st_seq = None, st_log = None, st_ops = None, st_channel = []\<rparr>"

definition alive :: "datetime \<Rightarrow> ('a \<times> datetime) option \<Rightarrow> 'a option" where
  "alive now x = (case x of None \<Rightarrow> None | Some (v, e) \<Rightarrow> if now < e then Some v else None)"

definition emit_script ::
  "datetime \<Rightarrow> int \<Rightarrow> 'f fence_store \<Rightarrow> uuid \<Rightarrow> 'f option \<Rightarrow> string \<Rightarrow> bool \<Rightarrow> string \<Rightarrow> stream
     \<Rightarrow> int \<times> stream"
where
  "emit_script now ttl fence j expected payload same op st =
     (if expected \<noteq> None \<and> current now fence j \<noteq> expected then (-2, st)
      else
        let ops = or_else (alive now (st_ops st)) [] in
        if op \<noteq> [] \<and> op \<in> set ops then (-1, st)
        else
          let st1 = (if op = [] then st
                     else st\<lparr>st_ops := Some (op # ops, now + seconds ttl)\<rparr>);
              n = or_else (alive now (st_seq st)) 0 + 1;
              out = splice_seq payload n;
              lg = or_else (alive now (st_log st)) [] @ [out];
              st2 = st1\<lparr>st_seq := Some (n, now + seconds ttl), st_log := Some (lg, now + seconds ttl)\<rparr>
          in (int n, if same then st2\<lparr>st_channel := st_channel st2 @ [out]\<rparr> else st2))"

section \<open>The publisher\<close>

text \<open>
  \<open>ts1\<close> and \<open>ts2\<close> are the clock readings of the two \<open>wire()\<close> calls (the live event, then the
  durable one); \<open>rc1\<close> and \<open>rc2\<close> are how the script call and the separate publish end.
\<close>

datatype pub_result = Published | StalePublish | PublishFailed

definition emit_once ::
  "datetime \<Rightarrow> int \<Rightarrow> 'f fence_store \<Rightarrow> uuid \<Rightarrow> 'f option \<Rightarrow> UiEvent \<Rightarrow> string \<Rightarrow> string \<Rightarrow> string
     \<Rightarrow> redis_call \<Rightarrow> redis_call \<Rightarrow> stream \<Rightarrow> pub_result \<times> stream"
where
  "emit_once now ttl fence j expected ev op ts1 ts2 rc1 rc2 st =
     (let live = wire ev ts1; keep = durable_wire ev ts2; same = (keep = live);
          reply = emit_script now ttl fence j expected (dumps keep) same op st
      in case rc1 of
           RFailed \<Rightarrow> (PublishFailed, st)
         | RFailedApplied \<Rightarrow> (PublishFailed, snd reply)
         | RAnswered \<Rightarrow>
             if fst reply = -2 then (StalePublish, snd reply)
             else if fst reply = -1 then (Published, snd reply)
             else if same then (Published, snd reply)
             else
               let msg = dumps (AList.update ''seq'' (decimal (nat (fst reply))) live);
                   sent = (snd reply)\<lparr>st_channel := st_channel (snd reply) @ [msg]\<rparr>
               in (case rc2 of
                     RAnswered \<Rightarrow> (Published, sent)
                   | RFailed \<Rightarrow> (PublishFailed, snd reply)
                   | RFailedApplied \<Rightarrow> (PublishFailed, sent)))"

text \<open>
  \<open>emit\<close> and \<open>_emit_guarded\<close> let a stale publication through and swallow every other failure;
  \<open>publish_terminal\<close> lets the caller see both (its result is \<open>emit_once\<close>'s).
\<close>

definition best_effort :: "pub_result \<times> 's \<Rightarrow> (fence_error + unit) \<times> 's" where
  "best_effort r =
     (case r of (StalePublish, s) \<Rightarrow> (Inl StaleExecutionPublish, s) | (_, s) \<Rightarrow> (Inr (), s))"

definition op_key :: "string \<Rightarrow> UiEvent \<Rightarrow> string \<Rightarrow> nat \<Rightarrow> string" where
  "op_key agent ev op_id gen =
     agent @ '':'' @ ev_type ev @ '':'' @ op_id @ '':g'' @ decimal gen"

definition emit_keyed ::
  "datetime \<Rightarrow> int \<Rightarrow> 'f fence_store \<Rightarrow> uuid \<Rightarrow> 'f option \<Rightarrow> string \<Rightarrow> nat \<Rightarrow> UiEvent \<Rightarrow> string
     \<Rightarrow> string \<Rightarrow> string \<Rightarrow> redis_call \<Rightarrow> redis_call \<Rightarrow> stream \<Rightarrow> (fence_error + unit) \<times> stream"
where
  "emit_keyed now ttl fence j expected agent gen ev op_id ts1 ts2 rc1 rc2 st =
     best_effort (emit_once now ttl fence j expected ev
       (if op_id = [] then [] else op_key agent ev op_id gen) ts1 ts2 rc1 rc2 st)"

definition publish_terminal ::
  "datetime \<Rightarrow> int \<Rightarrow> 'f fence_store \<Rightarrow> uuid \<Rightarrow> UiEvent \<Rightarrow> string \<Rightarrow> string \<Rightarrow> string
     \<Rightarrow> redis_call \<Rightarrow> redis_call \<Rightarrow> stream \<Rightarrow> pub_result \<times> stream"
where
  "publish_terminal now ttl fence j ev event_id ts1 ts2 rc1 rc2 st =
     emit_once now ttl fence j None ev event_id ts1 ts2 rc1 rc2 st"

lemmas emit_defs = emit_script_def emit_once_def best_effort_def Let_def

section \<open>The log\<close>

text \<open>
  The stream's invariant: counter and log live and lapse together, the counter is the log's
  length, and the entry at position \<open>k\<close> carries sequence number \<open>k + 1\<close>.
\<close>

definition numbered :: "string list \<Rightarrow> bool" where
  "numbered l \<longleftrightarrow> (\<exists>ps. length ps = length l \<and> (\<forall>k < length l. l ! k = splice_seq (ps ! k) (k + 1)))"

definition stream_ok :: "stream \<Rightarrow> bool" where
  "stream_ok st =
     (case (st_seq st, st_log st) of
        (None, None) \<Rightarrow> True
      | (Some (n, e), Some (l, e')) \<Rightarrow> e = e' \<and> n = length l \<and> numbered l
      | _ \<Rightarrow> False)"

lemma numbered_append: "numbered l \<Longrightarrow> numbered (l @ [splice_seq p (length l + 1)])"
  unfolding numbered_def
  by (elim exE, rule_tac x = "ps @ [p]" in exI) (auto simp: nth_append less_Suc_eq)

lemma numbered_Nil [simp]: "numbered []"
  by (simp add: numbered_def)

lemma alive_pair:
  assumes "stream_ok st"
  shows "or_else (alive now (st_seq st)) 0 = length (or_else (alive now (st_log st)) [])
    \<and> numbered (or_else (alive now (st_log st)) [])"
  using assms by (auto simp: stream_ok_def alive_def split: option.splits)

lemma emit_script_cases:
  "snd (emit_script now ttl fence j ex payload same op st) = st \<or>
   (\<exists>ops ch. snd (emit_script now ttl fence j ex payload same op st) =
      \<lparr>st_seq = Some (or_else (alive now (st_seq st)) 0 + 1, now + seconds ttl),
       st_log = Some (or_else (alive now (st_log st)) [] @
          [splice_seq payload (or_else (alive now (st_seq st)) 0 + 1)], now + seconds ttl),
       st_ops = ops, st_channel = ch\<rparr>)"
  by (cases st) (simp add: emit_script_def Let_def)

lemma emit_script_ok:
  assumes "stream_ok st"
  shows "stream_ok (snd (emit_script now ttl fence j ex payload same op st))"
proof -
  have num: "numbered (or_else (alive now (st_log st)) [] @
      [splice_seq payload (or_else (alive now (st_seq st)) 0 + 1)])"
    using numbered_append alive_pair [OF assms] by metis
  from emit_script_cases [of now ttl fence j ex payload same op st] show ?thesis
  proof (elim disjE exE)
    fix ops ch
    assume eq: "snd (emit_script now ttl fence j ex payload same op st) =
      \<lparr>st_seq = Some (or_else (alive now (st_seq st)) 0 + 1, now + seconds ttl),
       st_log = Some (or_else (alive now (st_log st)) [] @
          [splice_seq payload (or_else (alive now (st_seq st)) 0 + 1)], now + seconds ttl),
       st_ops = ops, st_channel = ch\<rparr>"
    show ?thesis
      using num alive_pair [OF assms, of now] unfolding eq by (simp add: stream_ok_def)
  qed (use assms in simp)
qed

lemma stream_ok_channel [simp]: "stream_ok (st\<lparr>st_channel := c\<rparr>) = stream_ok st"
  by (simp add: stream_ok_def)

lemma emit_once_ok:
  assumes "stream_ok st"
  shows "stream_ok (snd (emit_once now ttl fence j ex ev op ts1 ts2 rc1 rc2 st))"
  using emit_script_ok [OF assms]
  by (auto simp: emit_once_def Let_def assms split: redis_call.split)

text \<open>One emission to a stream, with everything it depends on.\<close>

record 'f emission =
  em_now :: datetime
  em_fence :: "'f fence_store"
  em_expected :: "'f option"
  em_event :: UiEvent
  em_op :: string
  em_ts1 :: string
  em_ts2 :: string
  em_rc1 :: redis_call
  em_rc2 :: redis_call

definition emit1 :: "int \<Rightarrow> uuid \<Rightarrow> 'f emission \<Rightarrow> stream \<Rightarrow> stream" where
  "emit1 ttl j e st = snd (emit_once (em_now e) ttl (em_fence e) j (em_expected e) (em_event e)
     (em_op e) (em_ts1 e) (em_ts2 e) (em_rc1 e) (em_rc2 e) st)"

definition backlog :: "datetime \<Rightarrow> stream \<Rightarrow> string list" where
  "backlog now st = or_else (alive now (st_log st)) []"

text \<open>
  The replayable log is numbered without gaps. Whatever emissions workers, the terminal writer
  and maintenance make, in whatever order and with whatever failures - lost replies included - the
  backlog a viewer reads is the first n entries with sequence numbers 1 to n in order, and the next
  emission that is accepted gets n + 1.
\<close>

theorem log_numbered:
  "let st = fold (emit1 ttl j) es empty_stream;
       n = fst (emit_script now ttl fence j ex payload same op st)
   in numbered (backlog now st)
      \<and> (n = -2 \<or> n = -1 \<or> n = int (length (backlog now st)) + 1)"
proof -
  have "stream_ok s \<Longrightarrow> stream_ok (fold (emit1 ttl j) es s)" for s
    by (induction es arbitrary: s) (simp_all add: emit1_def emit_once_ok)
  then have ok: "stream_ok (fold (emit1 ttl j) es empty_stream)"
    by (simp add: stream_ok_def empty_stream_def)
  from alive_pair [OF ok, of now] show ?thesis
    by (auto simp: backlog_def emit_script_def Let_def)
qed

section \<open>Operation keys\<close>

text \<open>An operation key is claimed until at least \<open>t\<close>.\<close>

definition claimed_until :: "stream \<Rightarrow> string \<Rightarrow> datetime \<Rightarrow> bool" where
  "claimed_until st op t \<longleftrightarrow> (case st_ops st of None \<Rightarrow> False | Some (ops, e) \<Rightarrow> op \<in> set ops \<and> t \<le> e)"

lemma claimed_until_channel [simp]:
  "claimed_until (st\<lparr>st_channel := c\<rparr>) op t = claimed_until st op t"
  by (simp add: claimed_until_def)

lemma script_keeps_claim:
  assumes "claimed_until st op (t + seconds ttl)" "t \<le> now" "now < t + seconds ttl"
  shows "claimed_until (snd (emit_script now ttl fence j ex payload same op2 st)) op (t + seconds ttl)"
  using assms
  by (auto simp: claimed_until_def emit_script_def Let_def alive_def split: option.splits)

lemma emit1_keeps_claim:
  assumes "claimed_until st op (t + seconds ttl)" "t \<le> em_now e" "em_now e < t + seconds ttl"
  shows "claimed_until (emit1 ttl j e st) op (t + seconds ttl)"
  using script_keeps_claim [OF assms] assms(1)
  by (auto simp: emit1_def emit_once_def Let_def split: redis_call.split)

lemma script_claims:
  assumes "0 < fst (emit_script now ttl fence j ex payload same op st)" "op \<noteq> []"
  shows "claimed_until (snd (emit_script now ttl fence j ex payload same op st)) op (now + seconds ttl)"
  using assms by (auto simp: emit_script_def Let_def claimed_until_def split: if_splits)

lemma claimed_suppresses:
  assumes "claimed_until st op t" "now < t" "op \<noteq> []"
  shows "snd (emit_script now ttl fence j ex payload same op st) = st
    \<and> fst (emit_script now ttl fence j ex payload same op st) \<in> {-2, -1}"
  using assms by (auto simp: claimed_until_def emit_script_def Let_def alive_def split: option.splits)

lemma claimed_suppresses_once:
  assumes "claimed_until st op t" "now < t" "op \<noteq> []"
  shows "snd (emit_once now ttl fence j ex ev op ts1 ts2 rc1 rc2 st) = st"
  using claimed_suppresses [OF assms, of ttl fence j ex "dumps (durable_wire ev ts2)"
      "durable_wire ev ts2 = wire ev ts1"]
  by (auto simp: emit_once_def Let_def split: redis_call.split)

text \<open>
  A replayed event is not published twice. Once the script has accepted an event under an
  operation key, then after any further emissions within the key's time to live - by anyone, under
  any keys, with lost replies - emitting under the same key again appends nothing to the log,
  consumes no sequence number and publishes nothing.
\<close>

theorem replay_suppressed:
  assumes "0 < fst (emit_script t ttl fence j ex payload same op st)" and "op \<noteq> []"
    and "\<forall>e \<in> set es. t \<le> em_now e \<and> em_now e < t + seconds ttl"
    and "t \<le> now" and "now < t + seconds ttl"
  shows "let st' = fold (emit1 ttl j) es (snd (emit_script t ttl fence j ex payload same op st)) in
    snd (emit_once now ttl fence2 j ex2 ev op ts1 ts2 rc1 rc2 st') = st'"
proof -
  have "claimed_until s op (t + seconds ttl) \<Longrightarrow>
      \<forall>e \<in> set es. t \<le> em_now e \<and> em_now e < t + seconds ttl \<Longrightarrow>
      claimed_until (fold (emit1 ttl j) es s) op (t + seconds ttl)" for s
    by (induction es arbitrary: s) (auto intro: emit1_keeps_claim)
  with script_claims [OF assms(1,2)] assms(3) have
    "claimed_until (fold (emit1 ttl j) es (snd (emit_script t ttl fence j ex payload same op st)))
       op (t + seconds ttl)" by blast
  from claimed_suppresses_once [OF this assms(5,2)] show ?thesis by (simp add: Let_def)
qed

definition demo_event :: UiEvent where
  "demo_event = \<lparr>ev_type = ''note'', ev_stage = ''builder'', ev_data = [(''text'', ''1'')]\<rparr>"

lemma demo_accepted:
  "0 < fst (emit_script now ttl (\<lambda>_. None) j (None :: nat option) p same op empty_stream)"
  by (simp add: emit_script_def empty_stream_def alive_def Let_def)

theorem replay_suppressed_witness:
  "let st1 = snd (emit_script 0 10 (\<lambda>_. None) 3 (None :: nat option) ''{}'' False ''k'' empty_stream) in
   snd (emit_once 7 10 (\<lambda>_. None) 3 (None :: nat option) demo_event ''k'' ''a'' ''b'' RAnswered RAnswered st1) = st1"
  using replay_suppressed [OF demo_accepted, of "''k''" "[]" 0 10 7 3 "''{}''" False "\<lambda>_. None" None demo_event
      "''a''" "''b''" RAnswered RAnswered]
  by (simp add: seconds_def)

text \<open>
  The live copy is not part of the atomic write. The event is rendered twice and each rendering
  reads the clock, so when the two readings differ the script is told not to publish: every accepted
  event is then sent in a second call, and if that call is lost the event is in the log, its key is
  used up, the failure is swallowed, and no subscriber is told.
\<close>

theorem live_copy_not_atomic:
  assumes "ts1 \<noteq> ts2" and "''ts'' \<notin> fst ` set (ev_data ev)"
    and "emit_script now ttl fence j ex (dumps (durable_wire ev ts2)) False op st = (n, st')" and "0 < n"
  shows "best_effort (emit_once now ttl fence j ex ev op ts1 ts2 RAnswered RFailed st) = (Inr (), st')
    \<and> st_channel st' = st_channel st"
proof -
  have keep: "map_of (fold (\<lambda>(k, v) m. AList.update k v m) xs m) ''ts'' = map_of m ''ts''"
    if "''ts'' \<notin> fst ` set xs" for xs m
    using that by (induction xs arbitrary: m) (auto simp: update_conv')
  have filt: "map_of (filter (\<lambda>(k, v). k \<noteq> ''image'') m) ''ts'' = map_of m ''ts''" for m :: json_obj
    by (induction m) auto
  have "map_of (durable_wire ev ts2) ''ts'' = Some (quoted ts2)"
    "map_of (wire ev ts1) ''ts'' = Some (quoted ts1)"
    by (simp_all add: durable_wire_def Let_def filt wire_def keep assms(2))
  then have diff: "durable_wire ev ts2 \<noteq> wire ev ts1"
    using assms(1) by (metis append_same_eq option.inject quoted_def append_eq_append_conv)
  have "st_channel st' = st_channel st"
    using assms(3) by (auto simp: emit_script_def Let_def split: if_splits)
  with diff assms(3,4) show ?thesis by (simp add: emit_once_def best_effort_def)
qed

theorem live_copy_not_atomic_witness:
  "let w = emit_script 0 10 (\<lambda>_. None) 3 (None :: nat option) (dumps (durable_wire demo_event ''b'')) False [] empty_stream
   in best_effort (emit_once 0 10 (\<lambda>_. None) 3 (None :: nat option) demo_event [] ''a'' ''b'' RAnswered RFailed empty_stream)
        = (Inr (), snd w) \<and> st_channel (snd w) = []"
proof -
  let ?w = "emit_script 0 10 (\<lambda>_. None) 3 (None :: nat option) (dumps (durable_wire demo_event ''b'')) False [] empty_stream"
  have "?w = (fst ?w, snd ?w)" by simp
  from live_copy_not_atomic [OF _ _ this demo_accepted, of "''a''"]
  show ?thesis by (simp add: demo_event_def empty_stream_def)
qed

section \<open>Publishing only while the owner\<close>

text \<open>
  One gated publication: the ownership check against the database, then the fenced emission. What
  others do between any two database or Redis steps is \<open>env\<close>, indexed by the step. \<open>raises\<close>
  says which of the two attempts of an ownership check fail, \<open>db_ok\<close> whether the recovery's
  transaction goes through.
\<close>

record 'f pub_env =
  pe_env :: "nat \<Rightarrow> 'f world \<Rightarrow> 'f world"
  pe_raises :: "nat \<Rightarrow> bool"
  pe_db_ok :: bool
  pe_now :: "nat \<Rightarrow> datetime"
  pe_rc :: "nat \<Rightarrow> redis_call"
  pe_ts :: "nat \<Rightarrow> string"

definition authorized ::
  "'f pub_env \<Rightarrow> nat \<Rightarrow> ExecutionOwnership option \<Rightarrow> uuid \<Rightarrow> 'f world
     \<Rightarrow> (fence_error + ExecutionOwnership)" where
  "authorized pe k bound j w =
     (case bound of
        None \<Rightarrow> Inl StaleExecutionPublish
      | Some own \<Rightarrow>
          if own_job_id own \<noteq> j then Inl StaleExecutionPublish
          else if \<not> check_owner (if pe_raises pe k then None else Some w)
                    (if pe_raises pe (Suc k) then None else Some w) own
          then Inl StaleExecutionPublish
          else Inr own)"

definition gated ::
  "'f fingerprint \<Rightarrow> 'f pub_env \<Rightarrow> int \<Rightarrow> nat \<Rightarrow> ExecutionOwnership option \<Rightarrow> uuid \<Rightarrow> string \<Rightarrow> UiEvent
     \<Rightarrow> string \<Rightarrow> 'f world \<times> stream \<Rightarrow> (fence_error + unit) \<times> 'f world \<times> stream"
where
  "gated fp pe ttl k bound j agent ev op_id s =
     (case s of (w, st) \<Rightarrow>
        case authorized pe k bound j w of
          Inl e \<Rightarrow> (Inl e, pe_env pe k w, st)
        | Inr own \<Rightarrow>
            let w1 = pe_env pe k w in
            case emit_keyed (pe_now pe k) ttl (w_fence w1) j
                   (Some (fp (own_job_id own) (own_generation own) (own_token own)))
                   agent (nat (own_generation own)) ev op_id (pe_ts pe k) (pe_ts pe (Suc k))
                   (pe_rc pe k) (pe_rc pe (Suc k)) st of
              (r, st') \<Rightarrow> (r, w1, st'))"

definition healing ::
  "'f fingerprint \<Rightarrow> 'f pub_env \<Rightarrow> int \<Rightarrow> int \<Rightarrow> ExecutionOwnership option \<Rightarrow> uuid \<Rightarrow> string \<Rightarrow> UiEvent
     \<Rightarrow> string \<Rightarrow> 'f world \<times> stream \<Rightarrow> (fence_error + unit) \<times> 'f world \<times> stream"
where
  "healing fp pe ttl lease_s bound j agent ev op_id s =
     (case gated fp pe ttl 0 bound j agent ev op_id s of
        (Inr u, s') \<Rightarrow> (Inr u, s')
      | (Inl e, w1, st) \<Rightarrow>
          (case bound of
             None \<Rightarrow> (Inl e, w1, st)
           | Some own \<Rightarrow>
               if own_job_id own \<noteq> j then (Inl e, w1, st)
               else
                 let w2 = pe_env pe 2 w1 in
                 case reverify_and_heal_fence fp w2 own (pe_now pe 2) lease_s (pe_db_ok pe)
                        (pe_rc pe 2) (pe_rc pe 3) of
                   (Inl e', w3) \<Rightarrow> (Inl e', w3, st)
                 | (Inr _, w3) \<Rightarrow> gated fp pe ttl 4 bound j agent ev op_id (pe_env pe 3 w3, st)))"

lemma reverify_refuses:
  "\<not> is_current_owner w own \<Longrightarrow>
     fst (reverify_and_heal_fence fp w own now ls ok rc1 rc2) = Inl StaleExecutionPublish"
  by (auto simp: reverify_and_heal_fence_def heartbeat_def is_current_owner_def Let_def
      split: option.splits)

lemma stale_write_refused:
  "current now fence j \<noteq> Some f \<Longrightarrow> rc1 = RAnswered \<Longrightarrow>
     emit_keyed now ttl fence j (Some f) agent gen ev op_id ts1 ts2 rc1 rc2 st
       = (Inl StaleExecutionPublish, st)"
  by (simp add: emit_keyed_def emit_once_def emit_script_def best_effort_def Let_def)

lemma fenced_write_keeps_log:
  "current now fence j \<noteq> Some f \<Longrightarrow>
     snd (emit_keyed now ttl fence j (Some f) agent gen ev op_id ts1 ts2 rc1 rc2 st) = st"
  by (simp add: emit_keyed_def emit_once_def emit_script_def best_effort_def Let_def
      split: redis_call.split)

text \<open>
  A superseded worker publishes nothing. Whichever way a publication by a worker races with the
  takeover of its job - the claim already gone when its ownership is checked, or gone, with its
  mark revoked, between the check and the write - nothing is appended to the log or the channel,
  and the recovery that follows cannot bring the claim back, as long as no later claim draws the
  same token.
\<close>

theorem stale_worker_publishes_nothing:
  assumes gone: "\<not> is_current_owner w own
      \<or> (\<not> is_current_owner (pe_env pe 0 w) own
         \<and> mirror (pe_now pe 0) (pe_env pe 0 w) j \<noteq> Some (fp j (own_generation own) (own_token own)))"
    and later: "\<forall>k. \<exists>ops. (\<forall>op \<in> set ops. claim_token op \<noteq> Some (own_token own))
      \<and> pe_env pe k = lease_run fp ops"
  shows "snd (snd (healing fp pe ttl ls (Some own) j agent ev op_id (w, st))) = st"
proof -
  have stays: "\<not> is_current_owner (pe_env pe k w') own" if "\<not> is_current_owner w' own" for k w'
    using later [rule_format, of k] superseded_run [OF that] by auto
  have first: "snd (snd (gated fp pe ttl 0 (Some own) j agent ev op_id (w, st))) = st
      \<and> fst (snd (gated fp pe ttl 0 (Some own) j agent ev op_id (w, st))) = pe_env pe 0 w"
  proof (cases "authorized pe 0 (Some own) j w")
    case (Inl e)
    then show ?thesis by (simp add: gated_def)
  next
    case (Inr own')
    then have "is_current_owner w own" "own' = own" "own_job_id own = j"
      by (auto simp: authorized_def check_owner_def split: if_splits)
    with Inr gone fenced_write_keeps_log [of "pe_now pe 0" "w_fence (pe_env pe 0 w)" j
        "fp j (own_generation own) (own_token own)"]
    show ?thesis
      by (auto simp: gated_def Let_def mirror_def split: prod.splits) (metis snd_conv)
  qed
  have gone0: "\<not> is_current_owner (pe_env pe 0 w) own"
    using gone stays [of w 0] by blast
  have refuse: "fst (reverify_and_heal_fence fp (pe_env pe 2 (pe_env pe 0 w)) own now ls ok rc1 rc2)
      = Inl StaleExecutionPublish" for now ok rc1 rc2
    by (rule reverify_refuses [OF stays [OF gone0]])
  obtain r where g: "gated fp pe ttl 0 (Some own) j agent ev op_id (w, st) = (r, pe_env pe 0 w, st)"
    using first by (metis prod.collapse)
  show ?thesis
    using refuse [of "pe_now pe 2" "pe_db_ok pe" "pe_rc pe 2" "pe_rc pe 3"]
    by (cases r) (auto simp: healing_def g Let_def split: prod.split sum.split)
qed

theorem stale_worker_publishes_nothing_witness:
  "snd (snd (healing demo_fp
      \<lparr>pe_env = \<lambda>_. lease_run demo_fp [], pe_raises = \<lambda>_. False, pe_db_ok = True,
       pe_now = \<lambda>_. 9, pe_rc = \<lambda>_. RAnswered, pe_ts = \<lambda>_. ''a''\<rparr>
      60 900 (Some (demo_own 1 4)) 3 ''builder'' demo_event ''x'' (demo_claimed, empty_stream)))
    = empty_stream"
proof (rule stale_worker_publishes_nothing, goal_cases)
  case 1
  show ?case by (simp add: demo_claimed_eq is_current_owner_def holds_def)
next
  case 2
  show ?case by (auto intro!: exI [of _ "[]"])
qed

end
