(* ===== verification/Pages.thy ===== *)
theory Pages
  imports Prelude "HOL-Library.Product_Lexorder"
begin

text \<open>
  Keyset pagination, newest first, as the job list and the ledger history are read:
  \<open>ORDER BY (created_at, id) DESC LIMIT n\<close>, with \<open>(created_at, id) < before\<close> on every page but
  the first. The key of a row is the pair of its creation time and its identifier.
\<close>

definition newest_first :: "('r \<Rightarrow> datetime \<times> uuid) \<Rightarrow> 'r list \<Rightarrow> 'r list" where
  "newest_first key rows = rev (sort_key key rows)"

definition page :: "('r \<Rightarrow> datetime \<times> uuid) \<Rightarrow> nat \<Rightarrow> (datetime \<times> uuid) option \<Rightarrow> 'r list \<Rightarrow> 'r list"
where
  "page key limit before rows =
     take limit (newest_first key
       (case before of None \<Rightarrow> rows | Some b \<Rightarrow> filter (\<lambda>r. key r < b) rows))"

text \<open>Reading page after page: the cursor is the key of the last row shown.\<close>

fun read_pages ::
  "('r \<Rightarrow> datetime \<times> uuid) \<Rightarrow> nat \<Rightarrow> nat \<Rightarrow> (datetime \<times> uuid) option \<Rightarrow> 'r list \<Rightarrow> 'r list" where
  "read_pages key limit 0 before rows = []"
| "read_pages key limit (Suc n) before rows =
     (let p = page key limit before rows in
      if p = [] then [] else p @ read_pages key limit n (Some (key (last p))) rows)"

lemma filter_newest_first:
  "newest_first key (filter P rows) = filter P (newest_first key rows)"
  by (simp add: newest_first_def rev_filter [symmetric] filter_sort)

lemma newest_first_descending:
  assumes "distinct (map key rows)"
  shows "sorted_wrt (\<lambda>a b. key b < key a) (newest_first key rows)"
proof -
  have "distinct (map key (sort_key key rows))"
    using assms by (simp add: distinct_map)
  then have "sorted_wrt (<) (map key (sort_key key rows))"
    by (simp add: strict_sorted_iff)
  then show ?thesis
    by (simp add: newest_first_def sorted_wrt_rev sorted_wrt_map)
qed

text \<open>In a strictly descending list, what lies below the key of entry \<open>k\<close> is what follows it.\<close>

lemma below_entry:
  assumes "sorted_wrt (\<lambda>a b. key b < key a) xs" "k < length xs"
  shows "filter (\<lambda>r. key r < (key (xs ! k) :: 'k :: linorder)) xs = drop (Suc k) xs"
  using assms
proof (induction xs arbitrary: k)
  case (Cons x xs)
  show ?case
  proof (cases k)
    case 0
    with Cons.prems have "\<forall>r \<in> set xs. key r < key x" by simp
    with 0 show ?thesis by (simp add: filter_id_conv)
  next
    case (Suc m)
    with Cons.prems have "key (xs ! m) < key x" by simp
    then have "\<not> key x < key (xs ! m)" by simp
    with Suc Cons.prems Cons.IH [of m] show ?thesis by simp
  qed
qed simp

text \<open>The last row of a page, and what is left after it.\<close>

lemma page_split:
  assumes "0 < n" "xs \<noteq> []"
  shows "\<exists>l. 0 < l \<and> l \<le> length xs \<and> last (take n xs) = xs ! (l - 1) \<and> drop n xs = drop l xs"
proof (cases "n \<le> length xs")
  case True
  with assms show ?thesis
    by (intro exI [of _ n]) (auto simp: last_conv_nth)
next
  case False
  with assms show ?thesis
    by (intro exI [of _ "length xs"]) (auto simp: last_conv_nth)
qed

lemma read_pages_from:
  assumes desc: "sorted_wrt (\<lambda>a b. key b < key a) (newest_first key rows)" and lim: "0 < limit"
  shows "k < length (newest_first key rows) \<Longrightarrow>
     read_pages key limit n (Some (key (newest_first key rows ! k))) rows
       = take (n * limit) (drop (Suc k) (newest_first key rows))"
proof (induction n arbitrary: k)
  case (Suc n)
  let ?xs = "newest_first key rows"
  let ?r = "drop (Suc k) ?xs"
  have p: "page key limit (Some (key (?xs ! k))) rows = take limit ?r"
    using desc Suc.prems by (simp add: page_def filter_newest_first below_entry)
  show ?case
  proof (cases "?r = []")
    case True
    then show ?thesis by (simp add: p)
  next
    case False
    from page_split [OF lim False] obtain l where
      l: "0 < l" "l \<le> length ?r" "last (take limit ?r) = ?r ! (l - 1)" "drop limit ?r = drop l ?r"
      by blast
    from l(1,2) have "?r ! (l - 1) = ?xs ! (k + l)" by (simp add: nth_drop)
    with l(3) have last: "last (take limit ?r) = ?xs ! (k + l)" by (rule trans)
    have "read_pages key limit n (Some (key (?xs ! (k + l)))) rows
        = take (n * limit) (drop (Suc (k + l)) ?xs)"
      using Suc.IH [of "k + l"] l by simp
    also have "drop (Suc (k + l)) ?xs = drop limit ?r"
      using l(4) by (simp add: add.commute)
    finally show ?thesis
      using False lim by (simp add: p Let_def last take_add)
  qed
qed simp

lemma read_pages_complete:
  assumes dist: "distinct (map key rows)" and lim: "0 < limit" and n: "length rows \<le> n * limit"
  shows "read_pages key limit n None rows = newest_first key rows"
proof -
  let ?xs = "newest_first key rows"
  have len: "length ?xs = length rows" by (simp add: newest_first_def)
  have desc: "sorted_wrt (\<lambda>a b. key b < key a) ?xs"
    by (rule newest_first_descending [OF dist])
  show ?thesis
  proof (cases "?xs = []")
    case True
    then show ?thesis by (cases n) (simp_all add: page_def)
  next
    case False
    with n len obtain m where m: "n = Suc m" by (cases n) auto
    from page_split [OF lim False] obtain l where
      l: "0 < l" "l \<le> length ?xs" "last (take limit ?xs) = ?xs ! (l - 1)" "drop limit ?xs = drop l ?xs"
      by blast
    have "read_pages key limit m (Some (key (?xs ! (l - 1)))) rows = take (m * limit) (drop limit ?xs)"
      using read_pages_from [OF desc lim, of "l - 1" m] l by simp
    also have "\<dots> = drop limit ?xs"
      using n m len by simp
    finally show ?thesis
      using False lim by (simp add: m page_def Let_def l(3))
  qed
qed

end
