(* ===== verification/Ledger.thy ===== *)
theory Ledger
  imports Pages "HOL-Library.Multiset"
begin

text \<open>
  The credit ledger: append-only entries and their sum
  (\<open>persistence/repositories/credit_ledger_repository.py\<close>), and the operations that write one
  (\<open>application/credit_service.py\<close>). The ledger is the list of its rows in insertion order; the
  primary key of a new row and its creation time are arguments.
\<close>

datatype CreditEntryType = grant_entry | debit_entry | refund_entry

record CreditLedgerEntry =
  entry_id :: uuid
  entry_org :: uuid
  entry_type :: CreditEntryType
  entry_amount :: int
  entry_reason :: string
  entry_created_at :: datetime
  metered_at :: "datetime option"
  overage :: int

type_synonym ledger = "CreditLedgerEntry list"

section \<open>The repository\<close>

definition entry_by_id :: "ledger \<Rightarrow> uuid \<Rightarrow> CreditLedgerEntry option" where
  "entry_by_id l i = find (\<lambda>e. entry_id e = i) l"

definition new_entry ::
  "uuid \<Rightarrow> datetime \<Rightarrow> uuid \<Rightarrow> CreditEntryType \<Rightarrow> int \<Rightarrow> string \<Rightarrow> int \<Rightarrow> CreditLedgerEntry" where
  "new_entry i now org ty amount reason over =
     \<lparr>entry_id = i, entry_org = org, entry_type = ty, entry_amount = amount,
      entry_reason = take 128 reason, entry_created_at = now, metered_at = None, overage = over\<rparr>"

definition append_entry :: "ledger \<Rightarrow> CreditLedgerEntry \<Rightarrow> ledger" where
  "append_entry l e = l @ [e]"

definition balance :: "ledger \<Rightarrow> uuid \<Rightarrow> int" where
  "balance l org = sum_list (map entry_amount (filter (\<lambda>e. entry_org e = org) l))"

definition entry_key :: "CreditLedgerEntry \<Rightarrow> datetime \<times> uuid" where
  "entry_key e = (entry_created_at e, entry_id e)"

definition list_for_org ::
  "ledger \<Rightarrow> uuid \<Rightarrow> nat \<Rightarrow> (datetime \<times> uuid) option \<Rightarrow> CreditLedgerEntry list" where
  "list_for_org l org limit before = page entry_key limit before (filter (\<lambda>e. entry_org e = org) l)"

definition unmetered_total :: "ledger \<Rightarrow> nat \<times> int" where
  "unmetered_total l =
     (let es = filter (\<lambda>e. metered_at e = None \<and> 0 < overage e) l
      in (length es, sum_list (map overage es)))"

text \<open>What the service relies on: posting an entry moves one tenant's balance by its amount.\<close>

locale credit_book =
  fixes bal :: "'l \<Rightarrow> uuid \<Rightarrow> int"
    and post :: "'l \<Rightarrow> CreditLedgerEntry \<Rightarrow> 'l"
  assumes bal_post: "bal (post l e) org = bal l org + (if entry_org e = org then entry_amount e else 0)"
begin

text \<open>Posting entries is commutative for every balance, and only the named tenants' move.\<close>

lemma bal_posts:
  "bal (foldl post l es) org
     = bal l org + sum_list (map entry_amount (filter (\<lambda>e. entry_org e = org) es))"
  by (induction es arbitrary: l) (simp_all add: bal_post)

lemma other_tenant_untouched:
  "\<forall>e \<in> set es. entry_org e \<noteq> org \<Longrightarrow> bal (foldl post l es) org = bal l org"
  by (simp add: bal_posts)

text \<open>
  A charge posted as a debit of \<open>a\<close> with \<open>v\<close> returned as billed overage costs the balance the
  rest.
\<close>

lemma charge_cost:
  assumes "entry_org d = org" "entry_amount d = - a" "entry_org r = org" "entry_amount r = v"
  shows "bal (post (post l d) r) org = bal l org - (a - v)"
  using assms by (simp add: bal_post)

end

interpretation book: credit_book balance append_entry
  by unfold_locales (simp add: balance_def append_entry_def)

section \<open>The service\<close>

datatype credit_error = ValueError string

definition grant ::
  "ledger \<Rightarrow> uuid \<Rightarrow> datetime \<Rightarrow> uuid \<Rightarrow> int \<Rightarrow> string \<Rightarrow> uuid option \<Rightarrow> credit_error + ledger" where
  "grant l fresh now org amount reason eid =
     (if amount < 0 then Inl (ValueError ''a grant cannot be negative'')
      else if amount = 0 then Inr l
      else
        case (case eid of None \<Rightarrow> None | Some i \<Rightarrow> entry_by_id l i) of
          Some e \<Rightarrow>
            if entry_org e \<noteq> org \<or> entry_type e \<noteq> grant_entry \<or> entry_amount e \<noteq> amount
               \<or> entry_reason e \<noteq> reason
            then Inl (ValueError ''credit grant operation id was already used'')
            else Inr l
        | None \<Rightarrow>
            Inr (append_entry l (new_entry (or_else eid fresh) now org grant_entry amount reason 0)))"

definition debit ::
  "ledger \<Rightarrow> uuid \<Rightarrow> datetime \<Rightarrow> uuid \<Rightarrow> int \<Rightarrow> string \<Rightarrow> int \<Rightarrow> credit_error + ledger" where
  "debit l fresh now org amount reason over =
     (if amount < 0
      then Inl (ValueError ''a debit takes a positive amount; it is stored negated'')
      else if amount = 0 then Inr l
      else if \<not> (0 \<le> over \<and> over \<le> amount)
      then Inl (ValueError ''a debit's overage lies between 0 and the debit itself'')
      else Inr (append_entry l (new_entry fresh now org debit_entry (- amount) reason over)))"

definition refund ::
  "ledger \<Rightarrow> uuid \<Rightarrow> datetime \<Rightarrow> uuid \<Rightarrow> int \<Rightarrow> string \<Rightarrow> credit_error + ledger" where
  "refund l fresh now org amount reason =
     (if amount < 0 then Inl (ValueError ''a refund cannot be negative'')
      else if amount = 0 then Inr l
      else Inr (append_entry l (new_entry fresh now org refund_entry amount reason 0)))"

lemma new_entry_sel [simp]:
  "entry_id (new_entry i now org ty a s v) = i"
  "entry_org (new_entry i now org ty a s v) = org"
  "entry_type (new_entry i now org ty a s v) = ty"
  "entry_amount (new_entry i now org ty a s v) = a"
  "overage (new_entry i now org ty a s v) = v"
  "metered_at (new_entry i now org ty a s v) = None"
  by (simp_all add: new_entry_def)

text \<open>
  The database's constraints on a row, with the sign convention the service keeps: a grant and a
  refund are positive, a debit negative, and only a debit carries overage, never more than itself.
\<close>

definition entry_ok :: "CreditLedgerEntry \<Rightarrow> bool" where
  "entry_ok e \<longleftrightarrow>
     (case entry_type e of
        debit_entry \<Rightarrow> entry_amount e < 0 \<and> 0 \<le> overage e \<and> overage e \<le> - entry_amount e
      | _ \<Rightarrow> 0 < entry_amount e \<and> overage e = 0)"

lemma entry_by_id_None: "entry_by_id l i = None \<longleftrightarrow> i \<notin> entry_id ` set l"
  by (auto simp: entry_by_id_def find_None_iff)

lemma entry_by_id_append:
  "entry_by_id (append_entry l e) i =
     (case entry_by_id l i of None \<Rightarrow> if entry_id e = i then Some e else None | Some x \<Rightarrow> Some x)"
  by (induction l) (auto simp: entry_by_id_def append_entry_def)

text \<open>One call of the service; what it is worth to its tenant's balance.\<close>

datatype ledger_op =
    Grant uuid datetime uuid int string "uuid option"
  | Debit uuid datetime uuid int string int
  | Refund uuid datetime uuid int string

fun ledger_step :: "ledger_op \<Rightarrow> ledger \<Rightarrow> credit_error + ledger" where
  "ledger_step (Grant fresh now org amount reason eid) l = grant l fresh now org amount reason eid"
| "ledger_step (Debit fresh now org amount reason over) l = debit l fresh now org amount reason over"
| "ledger_step (Refund fresh now org amount reason) l = refund l fresh now org amount reason"

fun op_org :: "ledger_op \<Rightarrow> uuid" where
  "op_org (Grant fresh now org amount reason eid) = org"
| "op_org (Debit fresh now org amount reason over) = org"
| "op_org (Refund fresh now org amount reason) = org"

fun op_effect :: "ledger_op \<Rightarrow> ledger \<Rightarrow> int" where
  "op_effect (Grant fresh now org amount reason eid) l =
     (case eid of None \<Rightarrow> amount | Some i \<Rightarrow> if entry_by_id l i = None then amount else 0)"
| "op_effect (Debit fresh now org amount reason over) l = - amount"
| "op_effect (Refund fresh now org amount reason) l = amount"

text \<open>
  The ledger only grows, with entries that respect the sign convention. An operation that does
  not raise keeps every earlier entry in place and adds at most one, well signed - a debit carries
  at most its own amount as overage. It moves its tenant's balance by exactly what it names - a
  grant replayed under a used operation id by nothing - and no other tenant's balance at all.
\<close>

theorem ledger_append_only:
  "case ledger_step op l of
     Inl _ \<Rightarrow> True
   | Inr l' \<Rightarrow> (\<exists>es. l' = l @ es \<and> length es \<le> 1 \<and> list_all entry_ok es)
       \<and> (\<forall>o2. balance l' o2 = balance l o2 + (if o2 = op_org op then op_effect op l else 0))"
proof (cases op)
  case (Grant fresh now org amount reason eid)
  then show ?thesis
    by (auto simp: grant_def book.bal_post entry_ok_def append_entry_def [of l] split: option.splits)
       (auto simp: book.bal_post [unfolded append_entry_def])
next
  case (Debit fresh now org amount reason over)
  then show ?thesis
    by (auto simp: debit_def entry_ok_def append_entry_def book.bal_post [unfolded append_entry_def])
next
  case (Refund fresh now org amount reason)
  then show ?thesis
    by (auto simp: refund_def entry_ok_def append_entry_def book.bal_post [unfolded append_entry_def])
qed

section \<open>Reading the history\<close>

text \<open>The console reads page after page, each before the last row of the previous one.\<close>

fun history_pages ::
  "ledger \<Rightarrow> uuid \<Rightarrow> nat \<Rightarrow> nat \<Rightarrow> (datetime \<times> uuid) option \<Rightarrow> CreditLedgerEntry list" where
  "history_pages l org limit 0 before = []"
| "history_pages l org limit (Suc n) before =
     (let p = list_for_org l org limit before in
      if p = [] then [] else p @ history_pages l org limit n (Some (entry_key (last p))))"

lemma history_is_read_pages:
  "history_pages l org limit n before
     = read_pages entry_key limit n before (filter (\<lambda>e. entry_org e = org) l)"
  by (induction n arbitrary: before) (simp_all add: list_for_org_def Let_def)

text \<open>
  The pages of a tenant's history are complete. Following the cursor from page to page shows
  every movement of the tenant exactly once, newest first, and nothing of another tenant - also
  when entries share a timestamp.
\<close>

theorem history_complete:
  assumes "distinct (map entry_id l)" and "0 < limit" and "length l \<le> n * limit"
  shows "history_pages l org limit n None
           = newest_first entry_key (filter (\<lambda>e. entry_org e = org) l)
     \<and> mset (history_pages l org limit n None) = mset (filter (\<lambda>e. entry_org e = org) l)
     \<and> sorted_wrt (\<lambda>a b. entry_key b < entry_key a) (history_pages l org limit n None)"
proof -
  let ?rows = "filter (\<lambda>e. entry_org e = org) l"
  have "distinct (map entry_id ?rows)"
    using assms(1) by (simp add: distinct_map_filter)
  then have dist: "distinct (map entry_key ?rows)"
    unfolding distinct_map by (auto simp: inj_on_def entry_key_def)
  have "length ?rows \<le> n * limit"
    using assms(3) length_filter_le [of "\<lambda>e. entry_org e = org" l] by linarith
  from read_pages_complete [OF dist assms(2) this]
  have all: "history_pages l org limit n None = newest_first entry_key ?rows"
    by (simp add: history_is_read_pages)
  show ?thesis
    using newest_first_descending [OF dist] unfolding all by (simp add: newest_first_def)
qed

theorem history_complete_witness:
  "history_pages
     [new_entry 5 10 7 grant_entry 100 ''signup grant'' 0, new_entry 6 20 7 debit_entry (-12) ''mesh job'' 0]
     7 1 3 None
   = newest_first entry_key
     [new_entry 5 10 7 grant_entry 100 ''signup grant'' 0, new_entry 6 20 7 debit_entry (-12) ''mesh job'' 0]"
  using history_complete [of "[new_entry 5 10 7 grant_entry 100 ''signup grant'' 0,
      new_entry 6 20 7 debit_entry (-12) ''mesh job'' 0]" 1 3 7]
  by simp

end
