(* ===== verification/Plans.thy ===== *)
theory Plans
  imports Jobs Ledger
begin

text \<open>
  Organisations and what they pay for: the \<open>organizations\<close> row and its repository
  (\<open>persistence/repositories/organization_repository.py\<close>), the plan catalogue
  (\<open>settings/plans.py\<close>), the price table (\<open>settings/billing.py\<close>), and the gate a new job
  passes (\<open>application/spend_gate.py\<close>). The settings an operator configures are the record
  \<open>settings\<close>, an argument of what reads them.
\<close>

record settings =
  JOB_BASE_CREDITS :: int
  CREDITS_PER_MESH_MINUTE :: int
  CREDIT_GATE_ENABLED :: bool
  SIGNUP_GRANT_CREDITS :: int
  SIGNUP_GRANT_WITHHELD_DOMAINS :: string
  MAX_JOBS_PER_OWNER :: int
  MAX_CONCURRENT_JOBS :: int
  RATE_LIMIT_PER_MINUTE :: int
  STRIPE_PRICE_STARTER :: string
  STRIPE_PRICE_STARTER_OVERAGE :: string
  STRIPE_PRICE_TEAM :: string
  STRIPE_PRICE_TEAM_OVERAGE :: string

record Organization =
  org_name :: string
  org_slug :: string
  stripe_customer_id :: "string option"
  stripe_subscription_id :: "string option"
  org_plan :: string
  subscription_status :: string
  current_period_end :: "datetime option"

type_synonym orgs = "Organization table"

section \<open>The plan catalogue\<close>

record PlanLimits =
  max_jobs_per_owner :: int
  max_concurrent_jobs :: int
  rate_limit_per_minute :: int
  included_credits :: int

record PlanOverride =
  o_max_jobs_per_owner :: "int option"
  o_max_concurrent_jobs :: "int option"
  o_rate_limit_per_minute :: "int option"
  o_included_credits :: "int option"

definition PLANS :: "(string \<times> PlanOverride) list" where
  "PLANS =
    [(''starter'', \<lparr>o_max_jobs_per_owner = Some 50, o_max_concurrent_jobs = Some 3,
        o_rate_limit_per_minute = None, o_included_credits = Some 1000\<rparr>),
     (''team'', \<lparr>o_max_jobs_per_owner = Some 500, o_max_concurrent_jobs = Some 10,
        o_rate_limit_per_minute = Some 600, o_included_credits = Some 10000\<rparr>),
     (''enterprise'', \<lparr>o_max_jobs_per_owner = Some 10000, o_max_concurrent_jobs = Some 50,
        o_rate_limit_per_minute = Some 3000, o_included_credits = Some 100000\<rparr>)]"

definition default_limits :: "settings \<Rightarrow> PlanLimits" where
  "default_limits st =
     \<lparr>max_jobs_per_owner = MAX_JOBS_PER_OWNER st, max_concurrent_jobs = MAX_CONCURRENT_JOBS st,
      rate_limit_per_minute = RATE_LIMIT_PER_MINUTE st, included_credits = 0\<rparr>"

text \<open>\<open>None\<close> is a plan that is not a string.\<close>

definition limits_for :: "settings \<Rightarrow> string option \<Rightarrow> PlanLimits" where
  "limits_for st plan =
     (let base = default_limits st in
      case plan of
        None \<Rightarrow> base
      | Some p \<Rightarrow>
          (case map_of PLANS (lower (strip p)) of
             None \<Rightarrow> base
           | Some ov \<Rightarrow>
               \<lparr>max_jobs_per_owner = or_else (o_max_jobs_per_owner ov) (max_jobs_per_owner base),
                max_concurrent_jobs = or_else (o_max_concurrent_jobs ov) (max_concurrent_jobs base),
                rate_limit_per_minute =
                  or_else (o_rate_limit_per_minute ov) (rate_limit_per_minute base),
                included_credits = or_else (o_included_credits ov) (included_credits base)\<rparr>))"

definition price_for :: "settings \<Rightarrow> string \<Rightarrow> string \<times> string" where
  "price_for st plan =
     or_else (map_of
       [(''starter'', (STRIPE_PRICE_STARTER st, STRIPE_PRICE_STARTER_OVERAGE st)),
        (''team'', (STRIPE_PRICE_TEAM st, STRIPE_PRICE_TEAM_OVERAGE st))] (lower (strip plan)))
       ([], [])"

lemma enterprise_has_no_price: "price_for st ''enterprise'' = ([], [])"
proof -
  have "lower (strip ''enterprise'') = ''enterprise''" by code_simp
  then show ?thesis by (simp add: price_for_def)
qed

section \<open>The organisation row\<close>

definition create_organization :: "orgs \<Rightarrow> uuid \<Rightarrow> string \<Rightarrow> string \<Rightarrow> orgs" where
  "create_organization t i nm slug =
     put i \<lparr>org_name = take 256 nm, org_slug = take 64 slug, stripe_customer_id = None,
            stripe_subscription_id = None, org_plan = [], subscription_status = [],
            current_period_end = None\<rparr> t"

text \<open>The customer column is unique; \<open>find\<close> is the one row the index holds.\<close>

definition get_by_stripe_customer :: "orgs \<Rightarrow> string \<Rightarrow> (uuid \<times> Organization) option" where
  "get_by_stripe_customer t cust =
     find (\<lambda>(i, r). stripe_customer_id r = Some (strip cust)) t"

definition attach_customer :: "orgs \<Rightarrow> uuid \<Rightarrow> string \<Rightarrow> orgs" where
  "attach_customer t i cust =
     snd (cas t i (\<lambda>_. True) (\<lambda>r. r\<lparr>stripe_customer_id := Some (take 255 (strip cust))\<rparr>))"

definition set_subscription ::
  "orgs \<Rightarrow> uuid \<Rightarrow> string \<Rightarrow> string option \<Rightarrow> string \<Rightarrow> datetime option \<Rightarrow> orgs" where
  "set_subscription t i subscription plan sub_status period_end =
     snd (cas t i (\<lambda>_. True)
       (\<lambda>r. r\<lparr>stripe_subscription_id := nonempty_or_none (take 255 (strip subscription)),
             org_plan := (case plan of None \<Rightarrow> org_plan r | Some p \<Rightarrow> take 64 (lower (strip p))),
             subscription_status := take 32 (strip sub_status),
             current_period_end := period_end\<rparr>))"

definition LIVE_SUBSCRIPTION_STATUSES :: "string set" where
  "LIVE_SUBSCRIPTION_STATUSES = {''active'', ''trialing'', ''past_due'', ''unpaid'', ''incomplete''}"

definition has_live_subscription :: "Organization \<Rightarrow> bool" where
  "has_live_subscription r \<longleftrightarrow>
     stripe_subscription_id r \<notin> {None, Some []}
     \<and> lower (strip (subscription_status r)) \<in> LIVE_SUBSCRIPTION_STATUSES"

text \<open>\<open>None\<close> is \<open>LiveSubscriptionManualPlanError\<close>.\<close>

definition set_manual_plan :: "orgs \<Rightarrow> uuid \<Rightarrow> string \<Rightarrow> orgs option" where
  "set_manual_plan t i plan =
     (case map_of t i of
        None \<Rightarrow> Some t
      | Some r \<Rightarrow>
          if has_live_subscription r then None
          else Some (put i (r\<lparr>org_plan := take 64 (lower (strip plan)), subscription_status := [],
                              current_period_end := None\<rparr>) t))"

section \<open>Who pays\<close>

definition PAYING_STATUSES :: "string set" where
  "PAYING_STATUSES = {''active'', ''trialing'', ''past_due'', []}"

definition paying_plan :: "Organization \<Rightarrow> string" where
  "paying_plan r =
     (let p = lower (strip (org_plan r)) in
      if p = [] then []
      else if lower (strip (subscription_status r)) \<in> PAYING_STATUSES then p else [])"

text \<open>
  The gate a new job passes. \<open>users\<close> are the stored addresses; the left injection is the
  \<open>OutOfCredits\<close> refusal. The read of balance and running count happens under the tenant's
  advisory lock, in the transaction that creates the job, so it is one step with the creation.
\<close>

datatype spend_refusal = UnverifiedAccount | HeldByRunningJobs | OutOfCredits

definition per_job :: "settings \<Rightarrow> int" where
  "per_job st = max (JOB_BASE_CREDITS st) 1"

definition tenant_of :: "(string \<Rightarrow> uuid option) \<Rightarrow> orgs \<Rightarrow> string \<Rightarrow> (uuid \<times> Organization) option" where
  "tenant_of parse_uuid orgs organization =
     (case parsed_organization_id parse_uuid organization of
        None \<Rightarrow> None
      | Some i \<Rightarrow> map_option (Pair i) (map_of orgs i))"

definition admit ::
  "settings \<Rightarrow> (string \<Rightarrow> uuid option) \<Rightarrow> orgs \<Rightarrow> string list \<Rightarrow> jobs \<Rightarrow> ledger \<Rightarrow> string \<Rightarrow> string
     \<Rightarrow> spend_refusal + string"
where
  "admit st parse_uuid orgs users jobs l owner organization =
     (case tenant_of parse_uuid orgs organization of
        None \<Rightarrow> if lower (strip owner) \<in> set users then Inl UnverifiedAccount else Inr []
      | Some (i, r) \<Rightarrow>
          if paying_plan r \<noteq> [] then Inr (paying_plan r)
          else if \<not> CREDIT_GATE_ENABLED st then Inr []
          else
            let running = int (count_active_for_organization jobs i) in
            if per_job st \<le> balance l i - running * per_job st then Inr []
            else if running \<noteq> 0 then Inl HeldByRunningJobs else Inl OutOfCredits)"

lemma per_job_pos [simp]: "0 < per_job st"
  by (simp add: per_job_def)

lemma put_fresh: "map_of t i = None \<Longrightarrow> put i r t = t @ [(i, r)]"
  unfolding put_def by (induction t) (auto split: if_splits)

lemma count_created:
  assumes "map_of t i = None" "parsed_organization_id parse_uuid organization = Some org"
  shows "count_active_for_organization (snd (create_job parse_uuid t i now owner organization)) o2
    = count_active_for_organization t o2 + (if o2 = org then 1 else 0)"
  using assms
  by (auto simp: create_job_def Let_def put_fresh count_active_for_organization_def count_rows_def
      stamp_def new_row_def ACTIVE_STATES_def)

text \<open>
  C34: signup credits are a budget. Whenever the gate admits a job for a tenant that nothing bills,
  then with the admitted job created every run the tenant has in flight is covered: the balance is
  at least the base charge for each of them. A tenant on a paying plan is admitted whatever its
  balance; and with no credits left and nothing running, the refusal says so.
\<close>

theorem admission_reserves:
  assumes gate: "CREDIT_GATE_ENABLED st"
    and tenant: "tenant_of parse_uuid orgs organization = Some (org, r)"
    and fresh: "map_of jobs i = None"
  shows "(paying_plan r \<noteq> [] \<longrightarrow> admit st parse_uuid orgs users jobs l owner organization = Inr (paying_plan r))
    \<and> (paying_plan r = [] \<and> admit st parse_uuid orgs users jobs l owner organization = Inr p \<longrightarrow>
         p = [] \<and>
         int (count_active_for_organization (snd (create_job parse_uuid jobs i now owner organization)) org)
           * per_job st \<le> balance l org)
    \<and> (paying_plan r = [] \<and> balance l org \<le> 0 \<longrightarrow>
         admit st parse_uuid orgs users jobs l owner organization \<in> {Inl OutOfCredits, Inl HeldByRunningJobs})"
proof -
  have parsed: "parsed_organization_id parse_uuid organization = Some org"
    using tenant by (auto simp: tenant_of_def split: option.splits)
  let ?n = "int (count_active_for_organization jobs org)"
  have none: "\<not> per_job st \<le> balance l org - ?n * per_job st" if "balance l org \<le> 0"
  proof -
    have "0 \<le> ?n * per_job st" using per_job_pos [of st] by (simp add: less_imp_le)
    with that per_job_pos [of st] show ?thesis by linarith
  qed
  show ?thesis
    using gate tenant none count_created [OF fresh parsed, of now owner org]
    by (auto simp: admit_def Let_def algebra_simps split: if_splits)
qed

definition demo_settings :: settings where
  "demo_settings =
     \<lparr>JOB_BASE_CREDITS = 10, CREDITS_PER_MESH_MINUTE = 1, CREDIT_GATE_ENABLED = True,
      SIGNUP_GRANT_CREDITS = 100, SIGNUP_GRANT_WITHHELD_DOMAINS = [], MAX_JOBS_PER_OWNER = 5,
      MAX_CONCURRENT_JOBS = 20, RATE_LIMIT_PER_MINUTE = 60, STRIPE_PRICE_STARTER = ''p1'',
      STRIPE_PRICE_STARTER_OVERAGE = ''p2'', STRIPE_PRICE_TEAM = ''p3'', STRIPE_PRICE_TEAM_OVERAGE = []\<rparr>"

definition demo_orgs :: orgs where
  "demo_orgs = create_organization [] 7 ''Acme'' ''acme''"

lemma demo_orgs_eq: "demo_orgs = [(7, \<lparr>org_name = ''Acme'', org_slug = ''acme'',
    stripe_customer_id = None, stripe_subscription_id = None, org_plan = [],
    subscription_status = [], current_period_end = None\<rparr>)]"
  by (simp add: demo_orgs_def create_organization_def put_def)

theorem admission_reserves_witness:
  "admit demo_settings (\<lambda>_. Some 7) demo_orgs [] [] [] ''a@b'' ''org'' \<in> {Inl OutOfCredits, Inl HeldByRunningJobs}"
proof -
  let ?r = "snd (hd demo_orgs)"
  have g: "CREDIT_GATE_ENABLED demo_settings" by (simp add: demo_settings_def)
  have t: "tenant_of (\<lambda>_. Some 7) demo_orgs ''org'' = Some (7, ?r)"
    by (simp add: tenant_of_def parsed_organization_id_def demo_orgs_eq)
  have f: "map_of ([] :: jobs) 3 = None" by simp
  from admission_reserves [OF g t f, of "[]" "[]" "''a@b''"]
  show ?thesis
    by (simp add: balance_def paying_plan_def demo_orgs_eq strip_def lower_def)
qed

end
