(* ===== verification/Signup.thy ===== *)
theory Signup
  imports Plans
begin

text \<open>
  The one-time signup grant: which mailbox an address stands for, the claim that is inserted once
  per mailbox (\<open>application/signup_claims.py\<close>), and the grant itself
  (\<open>application/credit_service.py\<close>). The SHA-256 digest is the argument \<open>digest\<close>, the UUID-5
  entry id the argument \<open>entry_id_of\<close>; nothing is assumed of either.
\<close>

section \<open>Addresses\<close>

text \<open>\<open>str.rpartition("@")\<close>: \<open>None\<close> when there is no separator.\<close>

fun rpartition :: "char \<Rightarrow> string \<Rightarrow> (string \<times> string) option" where
  "rpartition c [] = None"
| "rpartition c (x # xs) =
     (case rpartition c xs of
        Some (a, b) \<Rightarrow> Some (x # a, b)
      | None \<Rightarrow> if x = c then Some ([], xs) else None)"

definition DOT_INSENSITIVE :: "string set" where
  "DOT_INSENSITIVE = {''gmail.com'', ''googlemail.com''}"

definition normalized_mailbox :: "string \<Rightarrow> string" where
  "normalized_mailbox email =
     (let address = lower (strip email) in
      case rpartition (CHR ''@'') address of
        None \<Rightarrow> address
      | Some (local_part, domain) \<Rightarrow>
          if local_part = [] then address
          else
            let l = takeWhile (\<lambda>c. c \<noteq> CHR ''+'') local_part in
            if domain \<in> DOT_INSENSITIVE
            then filter (\<lambda>c. c \<noteq> CHR ''.'') l @ ''@'' @ ''gmail.com''
            else l @ ''@'' @ domain)"

fun split_on :: "char \<Rightarrow> string \<Rightarrow> string \<Rightarrow> string list" where
  "split_on c acc [] = [acc]"
| "split_on c acc (x # xs) = (if x = c then acc # split_on c [] xs else split_on c (acc @ [x]) xs)"

definition grant_withheld_domain :: "settings \<Rightarrow> string \<Rightarrow> bool" where
  "grant_withheld_domain st email =
     (case rpartition (CHR ''@'') (lower (strip email)) of
        None \<Rightarrow> True
      | Some (_, domain) \<Rightarrow>
          if domain = [] then True
          else
            let blocked = map (\<lambda>d. lower (strip d))
                  (filter (\<lambda>d. strip d \<noteq> []) (split_on (CHR '','') [] (SIGNUP_GRANT_WITHHELD_DOMAINS st)))
            in list_ex (\<lambda>d. domain = d \<or> ends_with (''.'' @ d) domain) blocked)"

lemma rpartition_append:
  "CHR ''@'' \<notin> set d \<Longrightarrow> rpartition (CHR ''@'') (l @ CHR ''@'' # d) = Some (l, d)"
proof (induction l)
  case Nil
  have "CHR ''@'' \<notin> set d \<Longrightarrow> rpartition (CHR ''@'') d = None" for d
    by (induction d) auto
  with Nil show ?case by simp
qed simp

definition no_space :: "string \<Rightarrow> bool" where
  "no_space s \<longleftrightarrow> list_all (\<lambda>c. \<not> is_space c) s"

lemma strip_no_space: "no_space s \<Longrightarrow> strip s = s"
proof -
  assume "no_space s"
  then have "dropWhile is_space s = s" "dropWhile is_space (rev s) = rev s"
    by (auto simp: no_space_def dropWhile_eq_self_iff list_all_iff hd_in_set hd_rev last_in_set)
  then show ?thesis by (simp add: strip_def)
qed

lemma lower_char_at: "lower_char c = CHR ''@'' \<longleftrightarrow> c = CHR ''@''"
  and lower_char_dot: "lower_char c = CHR ''.'' \<longleftrightarrow> c = CHR ''.''"
  and lower_char_plus: "lower_char c = CHR ''+'' \<longleftrightarrow> c = CHR ''+''"
  by (rule lower_char_nonletter; simp)+

lemma lower_char_space: "is_space (lower_char c) \<longleftrightarrow> is_space c"
  using of_char_lower [of c] by (auto simp: is_space_def Let_def)

lemma no_space_lower [simp]: "no_space (lower s) \<longleftrightarrow> no_space s"
  by (simp add: no_space_def lower_def list_all_iff lower_char_space)

lemma lower_cons [simp]: "lower (c # s) = lower_char c # lower s" "lower [] = []"
  by (simp_all add: lower_def)

lemma set_lower_at: "CHR ''@'' \<in> set (lower s) \<longleftrightarrow> CHR ''@'' \<in> set s"
proof (induction s)
  case (Cons c s)
  have "CHR ''@'' = lower_char c \<longleftrightarrow> CHR ''@'' = c" using lower_char_at [of c] by metis
  with Cons show ?case by simp
qed simp

lemma take_before_plus:
  "takeWhile (\<lambda>c. c \<noteq> CHR ''+'') (lower (l @ ''+'' @ tag)) = takeWhile (\<lambda>c. c \<noteq> CHR ''+'') (lower l)"
  by (induction l) (simp_all add: lower_char_plus)

lemma undotted_lower:
  "filter (\<lambda>c. c \<noteq> CHR ''.'') (takeWhile (\<lambda>c. c \<noteq> CHR ''+'') (lower (filter (\<lambda>c. c \<noteq> CHR ''.'') l)))
     = filter (\<lambda>c. c \<noteq> CHR ''.'') (takeWhile (\<lambda>c. c \<noteq> CHR ''+'') (lower l))"
  by (induction l) (auto simp: lower_char_plus lower_char_dot)

lemma normalized_address:
  assumes "no_space l" "no_space d" "CHR ''@'' \<notin> set d" "l \<noteq> []"
  shows "normalized_mailbox (l @ ''@'' @ d) =
    (let k = takeWhile (\<lambda>c. c \<noteq> CHR ''+'') (lower l) in
     if lower d \<in> DOT_INSENSITIVE
     then filter (\<lambda>c. c \<noteq> CHR ''.'') k @ ''@'' @ ''gmail.com'' else k @ ''@'' @ lower d)"
proof -
  have "no_space (l @ ''@'' @ d)"
    using assms by (simp add: no_space_def is_space_def)
  moreover have "lower_char (CHR ''@'') = CHR ''@''" by (simp add: lower_char_at)
  moreover have "lower l \<noteq> []" using assms(4) by (cases l) simp_all
  ultimately show ?thesis
    using assms(3) rpartition_append [of "lower d" "lower l"]
    by (simp add: normalized_mailbox_def strip_no_space set_lower_at)
qed

section \<open>The claim and the grant\<close>

definition claim_digest :: "(string \<Rightarrow> 'd) \<Rightarrow> string \<Rightarrow> 'd" where
  "claim_digest digest email = digest (normalized_mailbox email)"

definition claim :: "(string \<Rightarrow> 'd) \<Rightarrow> string \<Rightarrow> 'd list \<Rightarrow> bool \<times> 'd list" where
  "claim digest email claims =
     (if claim_digest digest email \<in> set claims then (False, claims)
      else (True, claims @ [claim_digest digest email]))"

datatype grant_event = WithheldDomain | AlreadyClaimed | GrantSuccess int

definition grant_signup_credits ::
  "settings \<Rightarrow> (string \<Rightarrow> 'd) \<Rightarrow> (uuid \<Rightarrow> uuid) \<Rightarrow> uuid \<Rightarrow> string \<Rightarrow> datetime \<Rightarrow> 'd list \<times> ledger
     \<Rightarrow> credit_error + (int \<times> grant_event list) \<times> 'd list \<times> ledger"
where
  "grant_signup_credits st digest entry_id_of org email now s =
     (case s of (claims, l) \<Rightarrow>
        let amount = SIGNUP_GRANT_CREDITS st in
        if amount \<le> 0 then Inr ((0, []), s)
        else if grant_withheld_domain st email then Inr ((0, [WithheldDomain]), s)
        else
          (case claim digest email claims of
             (False, claims') \<Rightarrow> Inr ((0, [AlreadyClaimed]), claims', l)
           | (True, claims') \<Rightarrow>
               (case grant l (entry_id_of org) now org amount ''signup grant'' (Some (entry_id_of org)) of
                  Inl e \<Rightarrow> Inl e
                | Inr l' \<Rightarrow> Inr ((amount, [GrantSuccess amount]), claims', l'))))"

text \<open>A transaction that raises is rolled back, the claim with it.\<close>

definition signup_step ::
  "settings \<Rightarrow> (string \<Rightarrow> 'd) \<Rightarrow> (uuid \<Rightarrow> uuid) \<Rightarrow> uuid \<times> string \<times> datetime \<Rightarrow> 'd list \<times> ledger
     \<Rightarrow> int \<times> 'd list \<times> ledger"
where
  "signup_step st digest entry_id_of sg s =
     (case sg of (org, email, now) \<Rightarrow>
        case grant_signup_credits st digest entry_id_of org email now s of
          Inl e \<Rightarrow> (0, s)
        | Inr ((amount, ev), s') \<Rightarrow> (amount, s'))"

fun signup_run ::
  "settings \<Rightarrow> (string \<Rightarrow> 'd) \<Rightarrow> (uuid \<Rightarrow> uuid) \<Rightarrow> (uuid \<times> string \<times> datetime) list
     \<Rightarrow> 'd list \<times> ledger \<Rightarrow> (string \<times> int) list" where
  "signup_run st digest entry_id_of [] s = []"
| "signup_run st digest entry_id_of (sg # sgs) s =
     (case signup_step st digest entry_id_of sg s of
        (amount, s') \<Rightarrow>
          (normalized_mailbox (fst (snd sg)), amount) # signup_run st digest entry_id_of sgs s')"

lemma signup_step_cases:
  "case signup_step st digest entry_id_of (org, email, now) (claims, l) of
     (amount, claims', l') \<Rightarrow>
       (amount = 0 \<and> claims' = claims)
     \<or> (amount = SIGNUP_GRANT_CREDITS st \<and> claim_digest digest email \<notin> set claims
         \<and> claims' = claims @ [claim_digest digest email])"
  by (auto simp: signup_step_def grant_signup_credits_def claim_def Let_def
      split: prod.splits sum.splits bool.splits if_splits)

lemma claimed_gets_nothing:
  "digest m \<in> set (fst s) \<Longrightarrow>
     sum_list (map snd (filter (\<lambda>(x, a). x = m) (signup_run st digest entry_id_of sgs s))) = 0"
proof (induction sgs arbitrary: s)
  case (Cons sg sgs)
  obtain org email now where sg: "sg = (org, email, now)" by (cases sg)
  obtain claims l where s: "s = (claims, l)" by (cases s)
  obtain amount claims' l' where st: "signup_step st digest entry_id_of (org, email, now) (claims, l)
      = (amount, claims', l')" by (cases "signup_step st digest entry_id_of (org, email, now) (claims, l)")
  have c: "amount = 0 \<and> claims' = claims
     \<or> amount = SIGNUP_GRANT_CREDITS st \<and> claim_digest digest email \<notin> set claims
        \<and> claims' = claims @ [claim_digest digest email]"
    using signup_step_cases [where st = st and digest = digest and entry_id_of = entry_id_of
        and org = org and email = email and now = now and claims = claims and l = l] st by simp
  have "digest m \<in> set (fst (claims', l'))" using c Cons.prems s by auto
  from Cons.IH [OF this] c Cons.prems show ?case
    by (auto simp: sg s st claim_digest_def)
qed simp

text \<open>
  One signup grant per mailbox. Over any sequence of sign-ups - through other organisations,
  after erasure, under other spellings - the credits granted to one mailbox are nothing or exactly
  one signup grant.
\<close>

theorem signup_grant_once:
  "sum_list (map snd (filter (\<lambda>(x, a). x = m) (signup_run st digest entry_id_of sgs s)))
     \<in> {0, SIGNUP_GRANT_CREDITS st}"
proof (induction sgs arbitrary: s)
  case (Cons sg sgs)
  obtain org email now where sg: "sg = (org, email, now)" by (cases sg)
  obtain claims l where s: "s = (claims, l)" by (cases s)
  obtain amount claims' l' where st: "signup_step st digest entry_id_of (org, email, now) (claims, l)
      = (amount, claims', l')" by (cases "signup_step st digest entry_id_of (org, email, now) (claims, l)")
  have c: "amount = 0 \<and> claims' = claims
     \<or> amount = SIGNUP_GRANT_CREDITS st \<and> claim_digest digest email \<notin> set claims
        \<and> claims' = claims @ [claim_digest digest email]"
    using signup_step_cases [where st = st and digest = digest and entry_id_of = entry_id_of
      and org = org and email = email and now = now and claims = claims and l = l] st by simp
  show ?case
  proof (cases "normalized_mailbox email = m \<and> amount \<noteq> 0")
    case True
    with c have "digest m \<in> set (fst (claims', l'))" by (auto simp: claim_digest_def)
    from claimed_gets_nothing [where m = m and digest = digest and st = st and entry_id_of = entry_id_of
        and sgs = sgs and s = "(claims', l')", OF this] c True show ?thesis
      by (auto simp: sg s st)
  next
    case False
    with Cons.IH [of "(claims', l')"] show ?thesis by (auto simp: sg s st)
  qed
qed simp

text \<open>
  Spellings of one inbox are one mailbox. A plus-tag and letter case never make a new mailbox,
  and at Gmail neither do dots nor the second domain name.
\<close>

theorem mailbox_aliases:
  assumes "no_space l" "no_space tag" "no_space d" "CHR ''@'' \<notin> set d"
    and "filter (\<lambda>c. c \<noteq> CHR ''.'') l \<noteq> []"
  shows "normalized_mailbox (l @ ''+'' @ tag @ ''@'' @ d) = normalized_mailbox (l @ ''@'' @ d)
    \<and> normalized_mailbox (lower l @ ''@'' @ lower d) = normalized_mailbox (l @ ''@'' @ d)
    \<and> normalized_mailbox (filter (\<lambda>c. c \<noteq> CHR ''.'') l @ ''@'' @ ''googlemail.com'')
        = normalized_mailbox (l @ ''@'' @ ''gmail.com'')"
proof -
  have l: "l \<noteq> []" using assms(5) by auto
  have tagged: "no_space (l @ ''+'' @ tag)"
    using assms by (simp add: no_space_def is_space_def)
  have low: "lower l \<noteq> []" using l by (cases l) simp_all
  have und: "no_space (filter (\<lambda>c. c \<noteq> CHR ''.'') l)"
    using assms(1) by (auto simp: no_space_def list_all_iff)
  have g: "no_space ''googlemail.com''" "no_space ''gmail.com''"
    "lower ''googlemail.com'' \<in> DOT_INSENSITIVE" "lower ''gmail.com'' \<in> DOT_INSENSITIVE"
    by code_simp+
  show ?thesis
  proof (intro conjI)
    show "normalized_mailbox (l @ ''+'' @ tag @ ''@'' @ d) = normalized_mailbox (l @ ''@'' @ d)"
      using normalized_address [OF tagged assms(3,4)] normalized_address [OF assms(1,3,4) l]
      by (simp only: append_assoc take_before_plus) simp
    show "normalized_mailbox (lower l @ ''@'' @ lower d) = normalized_mailbox (l @ ''@'' @ d)"
      using normalized_address [of "lower l" "lower d"] normalized_address [OF assms(1,3,4) l]
        assms(1,3,4) low by (simp add: set_lower_at Let_def)
    show "normalized_mailbox (filter (\<lambda>c. c \<noteq> CHR ''.'') l @ ''@'' @ ''googlemail.com'')
        = normalized_mailbox (l @ ''@'' @ ''gmail.com'')"
      using normalized_address [OF und g(1) _ assms(5)] normalized_address [OF assms(1) g(2) _ l]
        g(3,4) undotted_lower [of l]
      by (simp add: Let_def)
  qed
qed

theorem mailbox_aliases_witness:
  "normalized_mailbox ''J.Doe+trial@gmail.com'' = normalized_mailbox ''J.Doe@gmail.com''"
  using mailbox_aliases [of "''J.Doe''" "''trial''" "''gmail.com''"]
  by (simp add: no_space_def is_space_def)

end
