(* ===== verification/Json.thy ===== *)
theory Json
  imports Prelude
begin

text \<open>
  JSON values as Python reads them, shared by the components that store or receive JSON: truthiness,
  \<open>x.get(k, d)\<close>, \<open>str\<close> of a value that is a string, and \<open>int\<close> of a text. An object is an association
  list; a number is an integer.
\<close>

datatype json =
    JNull | JBool bool | JNum int | JStr string | JArr "json list" | JObj "(string \<times> json) list"

fun truthy :: "json \<Rightarrow> bool" where
  "truthy JNull = False"
| "truthy (JBool b) = b"
| "truthy (JNum n) = (n \<noteq> 0)"
| "truthy (JStr s) = (s \<noteq> [])"
| "truthy (JArr xs) = (xs \<noteq> [])"
| "truthy (JObj m) = (m \<noteq> [])"

fun is_mapping :: "json \<Rightarrow> bool" where
  "is_mapping (JObj m) = True"
| "is_mapping _ = False"

text \<open>\<open>x.get(k, d)\<close> and \<open>x or {}\<close>.\<close>

fun get_or :: "json \<Rightarrow> string \<Rightarrow> json \<Rightarrow> json option" where
  "get_or (JObj m) k d = Some (or_else (map_of m k) d)"
| "get_or _ k d = None"

definition or_empty :: "json \<Rightarrow> json" where
  "or_empty j = (if truthy j then j else JObj [])"

fun py_str :: "(json \<Rightarrow> string) \<Rightarrow> json \<Rightarrow> string" where
  "py_str repr (JStr s) = s"
| "py_str repr j = repr j"

definition digit_value :: "char \<Rightarrow> int option" where
  "digit_value c = (let n = of_char c :: nat in if 48 \<le> n \<and> n \<le> 57 then Some (int n - 48) else None)"

fun digits_value :: "int \<Rightarrow> bool \<Rightarrow> string \<Rightarrow> int option" where
  "digits_value acc prev [] = (if prev then Some acc else None)"
| "digits_value acc prev (c # cs) =
     (case digit_value c of
        Some d \<Rightarrow> digits_value (acc * 10 + d) True cs
      | None \<Rightarrow> if c = CHR ''_'' \<and> prev then digits_value acc False cs else None)"

definition parse_int :: "string \<Rightarrow> int option" where
  "parse_int s =
     (case strip s of
        [] \<Rightarrow> None
      | c # cs \<Rightarrow>
          if c = CHR ''-'' then map_option uminus (digits_value 0 False cs)
          else if c = CHR ''+'' then digits_value 0 False cs
          else digits_value 0 False (c # cs))"

end
