(* ===== verification/Billing.thy ===== *)
theory Billing
  imports Plans Json
begin

text \<open>
  What a verified billing event does to organisations and the ledger, and the two hosted flows
  (\<open>application/billing_service.py\<close>). A payload is a JSON value; reading an attribute of a value
  that is not a mapping raises, which is \<open>None\<close> here, and an exception rolls the transaction back.
  \<open>repr\<close> is Python's \<open>str\<close> on values other than strings, \<open>parse_uuid\<close> the standard library's
  \<open>uuid.UUID\<close>; the gateway's answers are arguments. Unix seconds become a time without the range
  check of \<open>datetime\<close>.
\<close>

section \<open>Reading a payload\<close>

type_synonym uuid_parser = "string \<Rightarrow> uuid option"

definition organization_of :: "uuid_parser \<Rightarrow> (json \<Rightarrow> string) \<Rightarrow> json \<Rightarrow> uuid option option" where
  "organization_of parse_uuid repr obj =
     Option.bind (get_or obj ''metadata'' JNull) (\<lambda>md.
     Option.bind (get_or (or_empty md) ''organization_id'' (JStr [])) (\<lambda>v.
       let raw = strip (py_str repr v) in
       Some (if raw = [] then None else parse_uuid raw)))"

fun id_of :: "(json \<Rightarrow> string) \<Rightarrow> json \<Rightarrow> string" where
  "id_of repr (JStr s) = s"
| "id_of repr (JObj m) =
     (let v = or_else (map_of m ''id'') (JStr []) in if truthy v then py_str repr v else [])"
| "id_of repr _ = []"

definition period_end :: "json \<Rightarrow> datetime option option" where
  "period_end subscription =
     Option.bind (get_or subscription ''current_period_end'' JNull) (\<lambda>raw.
       if \<not> truthy raw then Some None
       else case raw of
              JNum n \<Rightarrow> Some (Some (seconds n))
            | JBool b \<Rightarrow> Some (Some (seconds 1))
            | JStr s \<Rightarrow> map_option (\<lambda>n. Some (seconds n)) (parse_int s)
            | _ \<Rightarrow> None)"

definition known_plan :: "string \<Rightarrow> bool" where
  "known_plan p \<longleftrightarrow> p \<in> fst ` set PLANS"

fun details_plan :: "(json \<Rightarrow> string) \<Rightarrow> json list \<Rightarrow> string option" where
  "details_plan repr [] = Some []"
| "details_plan repr (d # ds) =
     (if is_mapping d then
        Option.bind (get_or d ''metadata'' JNull) (\<lambda>md.
        Option.bind (get_or (or_empty md) ''plan'' (JStr [])) (\<lambda>v.
          let p = lower (strip (py_str repr v)) in
          if known_plan p then Some p else details_plan repr ds))
      else details_plan repr ds)"

definition plan_of_invoice :: "(json \<Rightarrow> string) \<Rightarrow> json \<Rightarrow> string option" where
  "plan_of_invoice repr invoice =
     Option.bind (get_or invoice ''parent'' JNull) (\<lambda>p.
     Option.bind (get_or invoice ''subscription_details'' JNull) (\<lambda>own.
       let parent = or_empty p;
           nested = (if is_mapping parent
                     then or_else (get_or parent ''subscription_details'' JNull) JNull else JNull)
       in details_plan repr [nested, own]))"

fun plan_with_price :: "settings \<Rightarrow> string \<Rightarrow> string list \<Rightarrow> string option" where
  "plan_with_price st price_id [] = None"
| "plan_with_price st price_id (p # ps) =
     (let configured = fst (price_for st p) in
      if configured \<noteq> [] \<and> price_id = configured then Some p else plan_with_price st price_id ps)"

text \<open>The outer option is an exception, the inner one whether an item named a plan.\<close>

fun plan_of_items :: "settings \<Rightarrow> (json \<Rightarrow> string) \<Rightarrow> json list \<Rightarrow> string option option" where
  "plan_of_items st repr [] = Some None"
| "plan_of_items st repr (item # items) =
     (case get_or item ''price'' JNull of
        None \<Rightarrow> plan_of_items st repr items
      | Some p \<Rightarrow>
          let price = or_empty p in
          if \<not> is_mapping price then plan_of_items st repr items
          else
            let price_id = strip (py_str repr (or_else (get_or price ''id'' (JStr [])) (JStr []))) in
            Option.bind (get_or (or_empty (or_else (get_or price ''recurring'' JNull) JNull))
                            ''usage_type'' JNull)
              (\<lambda>u. let usage = (if truthy u then u else JStr ''licensed'') in
                 if usage = JStr ''metered'' then plan_of_items st repr items
                 else case plan_with_price st price_id (map fst PLANS) of
                        Some p \<Rightarrow> Some (Some p)
                      | None \<Rightarrow> plan_of_items st repr items))"

definition plan_of_subscription :: "settings \<Rightarrow> (json \<Rightarrow> string) \<Rightarrow> json \<Rightarrow> string option" where
  "plan_of_subscription st repr subscription =
     Option.bind (get_or subscription ''items'' JNull) (\<lambda>it.
     Option.bind (get_or subscription ''metadata'' JNull) (\<lambda>mdv.
       let items = or_empty it;
           data = (if is_mapping items then or_else (get_or items ''data'' JNull) JNull else JArr []);
           from_metadata =
             (let md = or_empty mdv in
              if \<not> is_mapping md then []
              else let p = lower (strip (py_str repr (or_else (get_or md ''plan'' (JStr [])) (JStr []))))
                   in if known_plan p then p else [])
       in (case (if truthy data then data else JArr []) of
             JArr xs \<Rightarrow>
               map_option (\<lambda>found. or_else found from_metadata) (plan_of_items st repr xs)
           | JNum _ \<Rightarrow> None
           | JBool _ \<Rightarrow> None
           | _ \<Rightarrow> Some from_metadata)))"

definition extra_credits_of_checkout :: "(json \<Rightarrow> string) \<Rightarrow> json \<Rightarrow> int option" where
  "extra_credits_of_checkout repr session =
     Option.bind (get_or session ''metadata'' JNull) (\<lambda>mdv.
       let md = or_empty mdv in
       if \<not> is_mapping md \<or> get_or md ''credit_pack'' JNull \<noteq> Some (JStr ''one_off'') then Some 0
       else Some (case parse_int (strip (py_str repr
                         (or_else (get_or md ''total_credits'' (JStr ''0'')) (JStr ''0'')))) of
                    None \<Rightarrow> 0 | Some n \<Rightarrow> max n 0))"

section \<open>Handling an event\<close>

record BillingEvent =
  event_id :: string
  event_type :: string
  payload :: json

record billing =
  b_orgs :: orgs
  b_ledger :: ledger
  b_events :: "string list"

definition HANDLED :: "string set" where
  "HANDLED = {''checkout.session.async_payment_succeeded'', ''checkout.session.completed'',
     ''customer.subscription.created'', ''customer.subscription.updated'',
     ''customer.subscription.deleted'', ''invoice.paid'', ''invoice.payment_failed''}"

definition ALLOWANCE_BILLING_REASONS :: "string set" where
  "ALLOWANCE_BILLING_REASONS = {''subscription_create'', ''subscription_cycle''}"

definition granted :: "billing \<Rightarrow> uuid \<Rightarrow> datetime \<Rightarrow> uuid \<Rightarrow> int \<Rightarrow> string \<Rightarrow> billing option" where
  "granted b fresh now org amount reason =
     (case grant (b_ledger b) fresh now org amount reason None of
        Inl _ \<Rightarrow> None | Inr l \<Rightarrow> Some (b\<lparr>b_ledger := l\<rparr>))"

definition paid_session :: "(json \<Rightarrow> string) \<Rightarrow> json \<Rightarrow> bool option" where
  "paid_session repr session =
     map_option (\<lambda>v. py_str repr v \<in> {''paid'', ''no_payment_required''})
       (get_or session ''payment_status'' (JStr []))"

definition apply_checkout ::
  "uuid_parser \<Rightarrow> (json \<Rightarrow> string) \<Rightarrow> billing \<Rightarrow> uuid \<Rightarrow> datetime \<Rightarrow> json \<Rightarrow> billing option" where
  "apply_checkout parse_uuid repr b fresh now session =
     Option.bind (paid_session repr session) (\<lambda>paid.
       if \<not> paid then Some b
       else Option.bind (organization_of parse_uuid repr session) (\<lambda>org.
         case org of
           None \<Rightarrow> Some b
         | Some i \<Rightarrow>
             Option.bind (get_or session ''customer'' JNull) (\<lambda>c.
               let cust = id_of repr c;
                   b1 = (if cust = [] then b
                         else b\<lparr>b_orgs := attach_customer (b_orgs b) i cust\<rparr>)
               in Option.bind (extra_credits_of_checkout repr session) (\<lambda>extra.
                    if 0 < extra then granted b1 fresh now i extra ''extra credits'' else Some b1))))"

definition apply_subscription ::
  "settings \<Rightarrow> uuid_parser \<Rightarrow> (json \<Rightarrow> string) \<Rightarrow> billing \<Rightarrow> json \<Rightarrow> bool \<Rightarrow> billing option" where
  "apply_subscription st parse_uuid repr b subscription deleted =
     Option.bind (organization_of parse_uuid repr subscription) (\<lambda>org.
       case org of
         None \<Rightarrow> Some b
       | Some i \<Rightarrow>
           if deleted
           then Some (b\<lparr>b_orgs := set_subscription (b_orgs b) i [] (Some []) ''canceled'' None\<rparr>)
           else
             Option.bind (plan_of_subscription st repr subscription) (\<lambda>plan.
             Option.bind (period_end subscription) (\<lambda>pe.
               Some (b\<lparr>b_orgs := set_subscription (b_orgs b) i
                        (py_str repr (or_else (get_or subscription ''id'' (JStr [])) (JStr [])))
                        (nonempty_or_none plan)
                        (py_str repr (or_else (get_or subscription ''status'' (JStr [])) (JStr [])))
                        pe\<rparr>))))"

definition apply_invoice_paid ::
  "settings \<Rightarrow> (json \<Rightarrow> string) \<Rightarrow> billing \<Rightarrow> uuid \<Rightarrow> datetime \<Rightarrow> json \<Rightarrow> billing option" where
  "apply_invoice_paid st repr b fresh now invoice =
     Option.bind (get_or invoice ''billing_reason'' (JStr [])) (\<lambda>rv.
       if strip (py_str repr rv) \<notin> ALLOWANCE_BILLING_REASONS then Some b
       else
         let cust = id_of repr (or_else (get_or invoice ''customer'' JNull) JNull) in
         if cust = [] then Some b
         else (case get_by_stripe_customer (b_orgs b) cust of
                 None \<Rightarrow> Some b
               | Some (i, r) \<Rightarrow>
                   Option.bind (if org_plan r \<noteq> [] then Some (org_plan r) else plan_of_invoice repr invoice)
                     (\<lambda>plan.
                       let included = included_credits (limits_for st (Some plan)) in
                       if 0 < included then granted b fresh now i included ''plan allowance''
                       else Some b)))"

text \<open>The outer \<open>None\<close> is an exception; the transaction, the event's claim included, is rolled back.\<close>

definition apply_event ::
  "settings \<Rightarrow> uuid_parser \<Rightarrow> (json \<Rightarrow> string) \<Rightarrow> billing \<Rightarrow> uuid \<Rightarrow> datetime \<Rightarrow> BillingEvent
     \<Rightarrow> billing option" where
  "apply_event st parse_uuid repr b fresh now ev =
     (let obj = payload ev; ty = event_type ev in
      if starts_with ''customer.subscription.'' ty
      then apply_subscription st parse_uuid repr b obj (ends_with ''.deleted'' ty)
      else if ty \<in> {''checkout.session.completed'', ''checkout.session.async_payment_succeeded''}
      then apply_checkout parse_uuid repr b fresh now obj
      else if ty = ''invoice.paid'' then apply_invoice_paid st repr b fresh now obj
      else Some b)"

definition handle_event ::
  "settings \<Rightarrow> uuid_parser \<Rightarrow> (json \<Rightarrow> string) \<Rightarrow> billing \<Rightarrow> uuid \<Rightarrow> datetime \<Rightarrow> BillingEvent
     \<Rightarrow> (bool \<times> billing) option"
where
  "handle_event st parse_uuid repr b fresh now ev =
     (if event_type ev \<notin> HANDLED then Some (False, b)
      else if event_id ev \<in> set (b_events b) then Some (False, b)
      else map_option (Pair True)
             (apply_event st parse_uuid repr (b\<lparr>b_events := b_events b @ [event_id ev]\<rparr>) fresh now ev))"

section \<open>What events can do\<close>

lemmas bind_simps = Option.bind_eq_Some_conv

lemma granted_spec:
  "granted b fresh now org amount reason = Some b' \<Longrightarrow> 0 < amount \<Longrightarrow>
     b' = b\<lparr>b_ledger := b_ledger b @ [new_entry fresh now org grant_entry amount reason 0]\<rparr>"
  by (auto simp: granted_def grant_def append_entry_def)

lemma apply_subscription_frame:
  "apply_subscription st pu repr b sub del = Some b' \<Longrightarrow>
     b_ledger b' = b_ledger b \<and> b_events b' = b_events b"
  by (auto simp: apply_subscription_def bind_simps split: option.splits if_splits)

lemma apply_checkout_spec:
  assumes "apply_checkout pu repr b fresh now session = Some b'"
  shows "b_events b' = b_events b \<and>
    (b_ledger b' = b_ledger b \<or>
     (\<exists>org n. b_ledger b' = b_ledger b @ [new_entry fresh now org grant_entry n ''extra credits'' 0]
        \<and> 0 < n \<and> paid_session repr session = Some True
        \<and> extra_credits_of_checkout repr session = Some n))"
proof -
  obtain paid where p: "paid_session repr session = Some paid"
    using assms by (auto simp: apply_checkout_def bind_simps)
  show ?thesis
  proof (cases "paid \<and> organization_of pu repr session \<noteq> Some None")
    case False
    with assms p show ?thesis by (auto simp: apply_checkout_def bind_simps split: if_splits)
  next
    case True
    then obtain i c n where o: "organization_of pu repr session = Some (Some i)"
      and c: "get_or session ''customer'' JNull = Some c"
      and n: "extra_credits_of_checkout repr session = Some n"
      using assms p by (auto simp: apply_checkout_def bind_simps Let_def split: option.splits)
    define b1 where "b1 = (if id_of repr c = [] then b
        else b\<lparr>b_orgs := attach_customer (b_orgs b) i (id_of repr c)\<rparr>)"
    have frame: "b_events b1 = b_events b" "b_ledger b1 = b_ledger b" by (simp_all add: b1_def)
    have out: "(if 0 < n then granted b1 fresh now i n ''extra credits'' else Some b1) = Some b'"
      using assms p o c n True by (simp add: apply_checkout_def b1_def Let_def split: if_splits)
    show ?thesis
    proof (cases "0 < n")
      case True
      with out have "granted b1 fresh now i n ''extra credits'' = Some b'" by simp
      from granted_spec [OF this True] frame True p n \<open>paid \<and> _\<close> show ?thesis by auto
    next
      case False
      with out frame show ?thesis by simp
    qed
  qed
qed

lemma apply_invoice_spec:
  assumes "apply_invoice_paid st repr b fresh now invoice = Some b'"
  shows "b_events b' = b_events b \<and>
    (b_ledger b' = b_ledger b \<or>
     (\<exists>org n plan rv. b_ledger b' = b_ledger b @ [new_entry fresh now org grant_entry n ''plan allowance'' 0]
        \<and> 0 < n \<and> n = included_credits (limits_for st (Some plan))
        \<and> get_or invoice ''billing_reason'' (JStr []) = Some rv
        \<and> strip (py_str repr rv) \<in> ALLOWANCE_BILLING_REASONS))"
proof -
  obtain rv where rv: "get_or invoice ''billing_reason'' (JStr []) = Some rv"
    using assms by (auto simp: apply_invoice_paid_def bind_simps)
  let ?cust = "id_of repr (or_else (get_or invoice ''customer'' JNull) JNull)"
  show ?thesis
  proof (cases "strip (py_str repr rv) \<in> ALLOWANCE_BILLING_REASONS \<and> ?cust \<noteq> []
      \<and> get_by_stripe_customer (b_orgs b) ?cust \<noteq> None")
    case False
    with assms rv show ?thesis
      by (auto simp: apply_invoice_paid_def Let_def split: if_splits option.splits)
  next
    case True
    then obtain i r where g: "get_by_stripe_customer (b_orgs b) ?cust = Some (i, r)" by auto
    then obtain plan where
      out: "(let included = included_credits (limits_for st (Some plan)) in
             if 0 < included then granted b fresh now i included ''plan allowance'' else Some b) = Some b'"
      using assms rv True by (auto simp: apply_invoice_paid_def Let_def bind_simps)
    show ?thesis
    proof (cases "0 < included_credits (limits_for st (Some plan))")
      case True
      with out have "granted b fresh now i (included_credits (limits_for st (Some plan))) ''plan allowance'' = Some b'"
        by (simp add: Let_def)
      from granted_spec [OF this True] True rv \<open>strip _ \<in> _ \<and> _\<close> show ?thesis by auto
    next
      case False
      with out show ?thesis by (simp add: Let_def)
    qed
  qed
qed

lemma apply_event_events:
  "apply_event st pu repr b fresh now ev = Some b' \<Longrightarrow> b_events b' = b_events b"
  using apply_subscription_frame apply_checkout_spec apply_invoice_spec
  by (auto simp: apply_event_def Let_def split: if_splits)

lemma handle_event_events:
  "handle_event st pu repr b fresh now ev = Some (r, b') \<Longrightarrow>
     set (b_events b) \<subseteq> set (b_events b') \<and> (r \<longrightarrow> event_id ev \<in> set (b_events b'))"
  by (auto simp: handle_event_def dest: apply_event_events split: if_splits)

text \<open>Deliveries in some order; one that raises changes nothing and is delivered again later.\<close>

definition deliver ::
  "settings \<Rightarrow> uuid_parser \<Rightarrow> (json \<Rightarrow> string) \<Rightarrow> uuid \<times> datetime \<times> BillingEvent \<Rightarrow> billing \<Rightarrow> billing" where
  "deliver st parse_uuid repr d b =
     (case d of (fresh, now, ev) \<Rightarrow>
        (case handle_event st parse_uuid repr b fresh now ev of None \<Rightarrow> b | Some (_, b') \<Rightarrow> b'))"

lemma deliveries_keep_events:
  "set (b_events b) \<subseteq> set (b_events (fold (deliver st pu repr) ds b))"
proof (induction ds arbitrary: b)
  case (Cons d ds)
  have "set (b_events b) \<subseteq> set (b_events (deliver st pu repr d b))"
    by (auto simp: deliver_def dest: handle_event_events split: prod.splits option.splits)
  with Cons.IH [of "deliver st pu repr d b"] show ?case by auto
qed simp

text \<open>
  C36: a billing event takes effect once. After an event has been applied, and whatever other events
  were delivered since, a further delivery of the same event id is reported as not applied and
  changes neither organisations nor the ledger.
\<close>

theorem event_applied_once:
  assumes "handle_event st pu repr b fresh now ev = Some (True, b1)"
    and "event_id ev2 = event_id ev"
  shows "handle_event st pu repr (fold (deliver st pu repr) ds b1) fresh2 now2 ev2
    = Some (False, fold (deliver st pu repr) ds b1)"
proof -
  have "event_id ev \<in> set (b_events b1)" using handle_event_events [OF assms(1)] by simp
  with deliveries_keep_events have "event_id ev2 \<in> set (b_events (fold (deliver st pu repr) ds b1))"
    using assms(2) by (metis subsetD)
  then show ?thesis by (simp add: handle_event_def)
qed

text \<open>
  Credits are granted for money only. A delivery that changes the ledger is the first of its
  event id, records that id, and appends exactly one grant: either the extra credits of a checkout
  session that is paid, in the amount its metadata names, or the allowance of a plan for an invoice
  that opens a subscription period - never for a standalone invoice or a mid-cycle change.
\<close>

theorem credits_only_for_money:
  assumes h: "handle_event st pu repr b fresh now ev = Some (r, b')" and d: "b_ledger b' \<noteq> b_ledger b"
  shows "event_id ev \<notin> set (b_events b) \<and> event_id ev \<in> set (b_events b')
    \<and> (\<exists>org n reason. b_ledger b' = b_ledger b @ [new_entry fresh now org grant_entry n reason 0] \<and> 0 < n
        \<and> (event_type ev \<in> {''checkout.session.completed'', ''checkout.session.async_payment_succeeded''}
             \<and> paid_session repr (payload ev) = Some True
             \<and> extra_credits_of_checkout repr (payload ev) = Some n
           \<or> event_type ev = ''invoice.paid''
             \<and> (\<exists>rv plan. get_or (payload ev) ''billing_reason'' (JStr []) = Some rv
                  \<and> strip (py_str repr rv) \<in> ALLOWANCE_BILLING_REASONS
                  \<and> n = included_credits (limits_for st (Some plan)))))"
proof -
  let ?b = "b\<lparr>b_events := b_events b @ [event_id ev]\<rparr>"
  have new: "event_type ev \<in> HANDLED" "event_id ev \<notin> set (b_events b)" "r"
    and a: "apply_event st pu repr ?b fresh now ev = Some b'"
    using h d by (auto simp: handle_event_def split: if_splits)
  have known: "event_id ev \<in> set (b_events b')" using handle_event_events [OF h] new(3) by simp
  have sub: "\<not> starts_with ''customer.subscription.'' (event_type ev)"
    using a d apply_subscription_frame [of st pu repr ?b "payload ev"]
    by (auto simp: apply_event_def Let_def)
  then consider
      (checkout) "event_type ev \<in> {''checkout.session.completed'', ''checkout.session.async_payment_succeeded''}"
        "apply_checkout pu repr ?b fresh now (payload ev) = Some b'"
    | (invoice) "event_type ev = ''invoice.paid''"
        "apply_invoice_paid st repr ?b fresh now (payload ev) = Some b'"
    using a d by (auto simp: apply_event_def Let_def split: if_splits)
  then show ?thesis
  proof cases
    case checkout
    from apply_checkout_spec [OF this(2)] d new(2) known checkout(1) show ?thesis by auto
  next
    case invoice
    from apply_invoice_spec [OF this(2)] d new(2) known invoice(1) show ?thesis by auto
  qed
qed

definition demo_pack :: BillingEvent where
  "demo_pack = \<lparr>event_id = ''e1'', event_type = ''checkout.session.completed'',
     payload = JObj [(''payment_status'', JStr ''paid''),
       (''metadata'', JObj [(''organization_id'', JStr ''o''), (''credit_pack'', JStr ''one_off''),
         (''total_credits'', JStr ''50'')])]\<rparr>"

definition demo_billing :: billing where
  "demo_billing = \<lparr>b_orgs = demo_orgs, b_ledger = [], b_events = []\<rparr>"

lemma demo_pack_applies:
  "handle_event demo_settings (\<lambda>_. Some 7) (\<lambda>_. []) demo_billing 5 9 demo_pack
     = Some (True, demo_billing\<lparr>b_ledger := [new_entry 5 9 7 grant_entry 50 ''extra credits'' 0],
                     b_events := [''e1'']\<rparr>)"
proof -
  have "parse_int ''50'' = Some 50" "strip ''50'' = ''50''" "strip ''o'' = ''o''" by code_simp+
  then show ?thesis
    by (simp add: handle_event_def apply_event_def apply_checkout_def paid_session_def
        organization_of_def extra_credits_of_checkout_def demo_pack_def demo_billing_def HANDLED_def
        or_empty_def granted_def grant_def append_entry_def Let_def)
qed

theorem event_applied_once_witness:
  "handle_event demo_settings (\<lambda>_. Some 7) (\<lambda>_. [])
      (demo_billing\<lparr>b_ledger := [new_entry 5 9 7 grant_entry 50 ''extra credits'' 0], b_events := [''e1'']\<rparr>)
      6 10 demo_pack
    = Some (False, demo_billing\<lparr>b_ledger := [new_entry 5 9 7 grant_entry 50 ''extra credits'' 0],
        b_events := [''e1'']\<rparr>)"
  using event_applied_once [OF demo_pack_applies refl, of "[]" 6 10] by simp

theorem credits_only_for_money_witness:
  "event_id demo_pack \<notin> set (b_events demo_billing)
   \<and> paid_session (\<lambda>_. []) (payload demo_pack) = Some True"
  using credits_only_for_money [OF demo_pack_applies]
  by (auto simp: demo_billing_def demo_pack_def paid_session_def)

lemma handle_subscription:
  assumes "handle_event st pu repr b f n ev = Some (True, b')"
    and "starts_with ''customer.subscription.'' (event_type ev)"
  shows "apply_subscription st pu repr (b\<lparr>b_events := b_events b @ [event_id ev]\<rparr>) (payload ev)
     (ends_with ''.deleted'' (event_type ev)) = Some b'"
  using assms by (auto simp: handle_event_def apply_event_def Let_def split: if_splits)

text \<open>
  C37: subscription events are applied in the order they arrive. A deletion followed by the late
  delivery of an older update that names a plan leaves the organisation's row as if the deletion
  had never been: the cancelled plan is paid for again.
\<close>

theorem late_update_undoes_deletion:
  assumes del: "handle_event st pu repr b f1 n1 d = Some (True, b1)"
    and td: "event_type d = ''customer.subscription.deleted''"
    and od: "organization_of pu repr (payload d) = Some (Some i)"
    and upd: "handle_event st pu repr b1 f2 n2 u = Some (True, b2)"
    and alone: "handle_event st pu repr b f2 n2 u = Some (True, b3)"
    and tu: "event_type u = ''customer.subscription.updated''"
    and ou: "organization_of pu repr (payload u) = Some (Some i)"
    and plan: "plan_of_subscription st repr (payload u) = Some p" "p \<noteq> []"
  shows "map_of (b_orgs b2) i = map_of (b_orgs b3) i"
proof -
  have t: "starts_with ''customer.subscription.'' ''customer.subscription.deleted''"
    "ends_with ''.deleted'' ''customer.subscription.deleted''"
    "starts_with ''customer.subscription.'' ''customer.subscription.updated''"
    "\<not> ends_with ''.deleted'' ''customer.subscription.updated''"
    by code_simp+
  note d' = handle_subscription [OF del, unfolded td, OF t(1), unfolded t(2)]
  note u' = handle_subscription [OF upd, unfolded tu, OF t(3)]
  note a' = handle_subscription [OF alone, unfolded tu, OF t(3)]
  from d' od have b1: "b_orgs b1 = set_subscription (b_orgs b) i [] (Some []) ''canceled'' None"
    by (auto simp: apply_subscription_def t)
  obtain pe where pe: "period_end (payload u) = Some pe"
    using a' ou plan t(4) by (auto simp: apply_subscription_def bind_simps)
  let ?sid = "py_str repr (or_else (get_or (payload u) ''id'' (JStr [])) (JStr []))"
  let ?st = "py_str repr (or_else (get_or (payload u) ''status'' (JStr [])) (JStr []))"
  from u' ou plan t(4) pe have b2: "b_orgs b2 = set_subscription (b_orgs b1) i ?sid (Some p) ?st pe"
    by (auto simp: apply_subscription_def nonempty_or_none_def)
  from a' ou plan t(4) pe have b3: "b_orgs b3 = set_subscription (b_orgs b) i ?sid (Some p) ?st pe"
    by (auto simp: apply_subscription_def nonempty_or_none_def)
  show ?thesis
    unfolding b1 b2 b3 by (cases "map_of (b_orgs b) i") (simp_all add: set_subscription_def cas_row)
qed

definition demo_cancel :: BillingEvent where
  "demo_cancel = \<lparr>event_id = ''e2'', event_type = ''customer.subscription.deleted'',
     payload = JObj [(''metadata'', JObj [(''organization_id'', JStr ''o'')])]\<rparr>"

definition demo_update :: BillingEvent where
  "demo_update = \<lparr>event_id = ''e3'', event_type = ''customer.subscription.updated'',
     payload = JObj [(''id'', JStr ''sub''), (''status'', JStr ''active''),
       (''metadata'', JObj [(''organization_id'', JStr ''o''), (''plan'', JStr ''team'')])]\<rparr>"

definition demo_handle :: "billing \<Rightarrow> BillingEvent \<Rightarrow> (bool \<times> billing) option" where
  "demo_handle b ev = handle_event demo_settings (\<lambda>_. Some 7) (\<lambda>_. []) b 5 9 ev"

lemma demo_handled:
  "map_option fst (demo_handle demo_billing demo_cancel) = Some True"
  "map_option fst (demo_handle (snd (the (demo_handle demo_billing demo_cancel))) demo_update) = Some True"
  "map_option fst (demo_handle demo_billing demo_update) = Some True"
  by code_simp+

lemma option_fst: "map_option fst x = Some True \<Longrightarrow> x = Some (True, snd (the x))"
  by (cases x) auto

theorem late_update_undoes_deletion_witness:
  "map_of (b_orgs (snd (the (demo_handle (snd (the (demo_handle demo_billing demo_cancel))) demo_update)))) 7
     = map_of (b_orgs (snd (the (demo_handle demo_billing demo_update)))) 7"
proof (rule late_update_undoes_deletion [OF
      option_fst [OF demo_handled(1), unfolded demo_handle_def] _ _
      option_fst [OF demo_handled(2), unfolded demo_handle_def]
      option_fst [OF demo_handled(3), unfolded demo_handle_def],
      folded demo_handle_def])
  show "plan_of_subscription demo_settings (\<lambda>_. []) (payload demo_update) = Some ''team''"
    by code_simp
  show "organization_of (\<lambda>_. Some 7) (\<lambda>_. []) (payload demo_cancel) = Some (Some 7)"
    "organization_of (\<lambda>_. Some 7) (\<lambda>_. []) (payload demo_update) = Some (Some 7)"
    by code_simp+
qed (simp_all add: demo_cancel_def demo_update_def)

end
