(* ===== verification/Metering.thy ===== *)
theory Metering
  imports Plans
begin

text \<open>
  Charging a job and reporting overage to the billing provider's meter
  (\<open>application/metering_service.py\<close>). A span is measured in microseconds, which the code's
  \<open>total_seconds()\<close> represents exactly in a double for every span below 285 years. The balance is
  read under the tenant's advisory lock in the transaction that writes the entries, so a charge is
  one step.
\<close>

section \<open>What a job costs\<close>

definition credits_for_job :: "settings \<Rightarrow> datetime option \<Rightarrow> datetime option \<Rightarrow> int" where
  "credits_for_job st started ended =
     (let base = JOB_BASE_CREDITS st; per_minute = CREDITS_PER_MESH_MINUTE st in
      case (started, ended) of
        (Some s, Some e) \<Rightarrow>
          if per_minute \<le> 0 then max base 0
          else if e - s \<le> 0 then max base 0
          else max (base + (- (- (e - s) div seconds 60)) * per_minute) 0
      | _ \<Rightarrow> max base 0)"

text \<open>
  The price is the base plus every started minute. For a job with a positive span and sane
  prices the whole minutes charged cover the span and exceed it by less than a minute; without a
  measured span, or with a clock that moved backwards, only the base is charged, and no job ever
  costs less than nothing.
\<close>

theorem price_spec:
  "credits_for_job st None e = max (JOB_BASE_CREDITS st) 0
   \<and> 0 \<le> credits_for_job st s e
   \<and> (t1 \<le> t0 \<longrightarrow> credits_for_job st (Some t0) (Some t1) = max (JOB_BASE_CREDITS st) 0)
   \<and> (t0 < t1 \<and> 0 < CREDITS_PER_MESH_MINUTE st \<and> 0 \<le> JOB_BASE_CREDITS st \<longrightarrow>
        (\<exists>m. credits_for_job st (Some t0) (Some t1) = JOB_BASE_CREDITS st + m * CREDITS_PER_MESH_MINUTE st
           \<and> t1 - t0 \<le> m * seconds 60 \<and> (m - 1) * seconds 60 < t1 - t0))"
proof -
  let ?m = "- (- (t1 - t0) div seconds 60)"
  have ceil: "t1 - t0 \<le> ?m * seconds 60 \<and> (?m - 1) * seconds 60 < t1 - t0"
  proof -
    let ?d = "seconds 60" and ?q = "(t0 - t1) div seconds 60"
    have d: "0 < ?d" by (simp add: seconds_def)
    have "?d * ?q + (t0 - t1) mod ?d = t0 - t1" by simp
    moreover have "0 \<le> (t0 - t1) mod ?d" "(t0 - t1) mod ?d < ?d"
      using d by simp_all
    ultimately have "?d * ?q \<le> t0 - t1" "t0 - t1 < ?d * ?q + ?d" by linarith+
    then show ?thesis by (simp add: algebra_simps)
  qed
  have pos: "t0 < t1 \<Longrightarrow> 0 < ?m"
  proof -
    assume "t0 < t1"
    with ceil have "0 < ?m * seconds 60" by linarith
    then show "0 < ?m" by (simp add: seconds_def zero_less_mult_iff)
  qed
  have last: "\<exists>m. credits_for_job st (Some t0) (Some t1) = JOB_BASE_CREDITS st + m * CREDITS_PER_MESH_MINUTE st
      \<and> t1 - t0 \<le> m * seconds 60 \<and> (m - 1) * seconds 60 < t1 - t0"
    if "t0 < t1" "0 < CREDITS_PER_MESH_MINUTE st" "0 \<le> JOB_BASE_CREDITS st"
  proof (intro exI [of _ ?m] conjI)
    have "0 \<le> ?m * CREDITS_PER_MESH_MINUTE st"
      using pos [OF that(1)] that(2) by (simp only: mult_nonneg_nonneg less_imp_le)
    with that show "credits_for_job st (Some t0) (Some t1) = JOB_BASE_CREDITS st + ?m * CREDITS_PER_MESH_MINUTE st"
      by (simp add: credits_for_job_def Let_def)
  qed (use ceil in simp_all)
  have "0 \<le> credits_for_job st s e"
    by (auto simp: credits_for_job_def Let_def split: option.splits)
  moreover have "t1 \<le> t0 \<Longrightarrow> credits_for_job st (Some t0) (Some t1) = max (JOB_BASE_CREDITS st) 0"
    by (simp add: credits_for_job_def Let_def)
  moreover have "credits_for_job st None e = max (JOB_BASE_CREDITS st) 0"
    by (simp add: credits_for_job_def Let_def)
  ultimately show ?thesis using last by blast
qed

theorem price_spec_witness:
  "\<exists>m. credits_for_job demo_settings (Some 0) (Some (seconds 61)) = 10 + m * 1
      \<and> seconds 61 - 0 \<le> m * seconds 60 \<and> (m - 1) * seconds 60 < seconds 61 - 0"
  using price_spec [where st = demo_settings and s = None and e = None and ?t0.0 = 0 and ?t1.0 = "seconds 61"]
  by (simp add: demo_settings_def)

section \<open>The charge\<close>

definition overage_of :: "settings \<Rightarrow> orgs \<Rightarrow> ledger \<Rightarrow> uuid \<Rightarrow> int \<Rightarrow> int" where
  "overage_of st orgs l org amount =
     (case map_of orgs org of
        None \<Rightarrow> 0
      | Some r \<Rightarrow>
          if paying_plan r = [] \<or> stripe_customer_id r \<in> {None, Some []}
             \<or> snd (price_for st (paying_plan r)) = []
          then 0
          else amount - min (max (balance l org) 0) amount)"

text \<open>
  \<open>job_name\<close> renders the job's id. The two fresh identifiers are the debit's and the refund's.
\<close>

definition charge_for_job ::
  "settings \<Rightarrow> (uuid \<Rightarrow> string) \<Rightarrow> orgs \<Rightarrow> ledger \<Rightarrow> uuid \<Rightarrow> uuid \<Rightarrow> datetime \<Rightarrow> SimulationJob
     \<Rightarrow> credit_error + int \<times> ledger"
where
  "charge_for_job st job_name orgs l fresh1 fresh2 now job =
     (if status job \<noteq> JS_succeeded then Inr (0, l)
      else
        case organization_id job of
          None \<Rightarrow> Inr (0, l)
        | Some org \<Rightarrow>
            let amount = credits_for_job st (started_at job) (ended_at job) in
            if amount \<le> 0 then Inr (0, l)
            else
              let over = overage_of st orgs l org amount in
              case debit l fresh1 now org amount (take 128 (''mesh job '' @ job_name (job_id job))) over of
                Inl e \<Rightarrow> Inl e
              | Inr l1 \<Rightarrow>
                  if over \<noteq> 0
                  then (case refund l1 fresh2 now org over
                               (take 128 (''billed as overage: '' @ job_name (job_id job))) of
                          Inl e \<Rightarrow> Inl e
                        | Inr l2 \<Rightarrow> Inr (amount, l2))
                  else Inr (amount, l1))"

lemma overage_bounds:
  "0 \<le> amount \<Longrightarrow> 0 \<le> overage_of st orgs l org amount \<and> overage_of st orgs l org amount \<le> amount"
  by (auto simp: overage_of_def split: option.splits)

lemma price_nonneg: "0 \<le> credits_for_job st s e"
  by (auto simp: credits_for_job_def Let_def split: option.splits)

text \<open>What the charge of a succeeded job of a known tenant comes to.\<close>

definition metered_tenant :: "settings \<Rightarrow> orgs \<Rightarrow> uuid \<Rightarrow> bool" where
  "metered_tenant st orgs org \<longleftrightarrow>
     (\<exists>r. map_of orgs org = Some r \<and> paying_plan r \<noteq> [] \<and> stripe_customer_id r \<notin> {None, Some []}
        \<and> snd (price_for st (paying_plan r)) \<noteq> [])"

lemma overage_cases:
  "overage_of st orgs l org amount =
     (if metered_tenant st orgs org then amount - min (max (balance l org) 0) amount else 0)"
  by (auto simp: overage_of_def metered_tenant_def split: option.splits)

lemma charge_entries:
  assumes "status job = JS_succeeded" "organization_id job = Some org"
    and "amount = credits_for_job st (started_at job) (ended_at job)" "0 < amount"
    and "over = overage_of st orgs l org amount"
  shows "charge_for_job st nm orgs l f1 f2 now job =
    Inr (amount,
         (let l1 = append_entry l (new_entry f1 now org debit_entry (- amount)
                     (take 128 (''mesh job '' @ nm (job_id job))) over)
          in if over = 0 then l1
             else append_entry l1 (new_entry f2 now org refund_entry over
                     (take 128 (''billed as overage: '' @ nm (job_id job))) 0)))"
  using assms overage_bounds [of amount st orgs l org]
  by (simp add: charge_for_job_def Let_def debit_def refund_def)

lemma overage_append [simp]:
  "sum_list (map overage (append_entry l e)) = sum_list (map overage l) + overage e"
  by (simp add: append_entry_def)

text \<open>
  C35: a charge is paid once, from the balance or by the meter. For every succeeded job the amount
  charged is exactly the overage handed to the meter plus what the balance drops. A tenant the
  meter can bill never goes below zero - and below zero already, it pays nothing from its balance
  - while for any other tenant the balance carries the whole charge. A job that did not succeed, or
  names no tenant, is never charged, and no other tenant's balance moves.
\<close>

theorem charge_conserved:
  "\<exists>amount l'. charge_for_job st nm orgs l f1 f2 now job = Inr (amount, l')
     \<and> (status job \<noteq> JS_succeeded \<or> organization_id job = None \<longrightarrow> amount = 0 \<and> l' = l)
     \<and> (\<forall>o2. organization_id job \<noteq> Some o2 \<longrightarrow> balance l' o2 = balance l o2)
     \<and> (\<forall>org. status job = JS_succeeded \<and> organization_id job = Some org \<longrightarrow>
          amount = credits_for_job st (started_at job) (ended_at job)
          \<and> amount = (balance l org - balance l' org)
              + (sum_list (map overage l') - sum_list (map overage l))
          \<and> balance l' org =
              (if \<not> metered_tenant st orgs org then balance l org - amount
               else if 0 \<le> balance l org then max (balance l org - amount) 0
               else balance l org))"
proof (cases "status job = JS_succeeded \<and> organization_id job \<noteq> None
    \<and> 0 < credits_for_job st (started_at job) (ended_at job)")
  case False
  have zero: "credits_for_job st (started_at job) (ended_at job) = 0"
    if "\<not> 0 < credits_for_job st (started_at job) (ended_at job)"
    using that price_nonneg [of st "started_at job" "ended_at job"] by simp
  with False show ?thesis
    by (auto simp: charge_for_job_def Let_def zero split: option.splits)
next
  case True
  then obtain org where j: "status job = JS_succeeded" "organization_id job = Some org"
    "0 < credits_for_job st (started_at job) (ended_at job)" by auto
  let ?a = "credits_for_job st (started_at job) (ended_at job)"
  let ?v = "overage_of st orgs l org ?a"
  note charge = charge_entries [OF j(1,2) refl j(3) refl, where orgs = orgs and l = l and nm = nm
      and ?f1.0 = f1 and ?f2.0 = f2 and now = now]
  show ?thesis
    unfolding charge
    using j by (auto simp: Let_def book.bal_post overage_cases min_def max_def)
qed

theorem charge_conserved_witness:
  "\<exists>amount l'. charge_for_job demo_settings (\<lambda>_. ''job'') demo_orgs [] 5 6 9
      ((new_row 3 0)\<lparr>status := JS_succeeded, organization_id := Some 7,
         started_at := Some 0, ended_at := Some (seconds 61)\<rparr>) = Inr (amount, l')
     \<and> balance l' 7 = - amount"
proof -
  let ?j = "(new_row 3 0)\<lparr>status := JS_succeeded, organization_id := Some 7,
         started_at := Some 0, ended_at := Some (seconds 61)\<rparr>"
  have un: "\<not> metered_tenant demo_settings demo_orgs 7"
    by (simp add: metered_tenant_def demo_orgs_eq)
  from charge_conserved [of demo_settings "\<lambda>_. ''job''" demo_orgs "[]" 5 6 9 ?j] un
  show ?thesis by (auto simp: balance_def)
qed

section \<open>Reporting to the meter\<close>

text \<open>
  One sweep (\<open>report_pending_usage\<close>). The provider is the argument \<open>report\<close>: given its state,
  a customer, a quantity and the idempotency scope it answers or raises (\<open>False\<close>) and moves on.
  \<open>orgs2\<close> is what the loop reads after the query; \<open>committed\<close> says whether the caller's commit,
  and with it the stamp, survives.
\<close>

definition reportable :: "orgs \<Rightarrow> CreditLedgerEntry \<Rightarrow> bool" where
  "reportable orgs e \<longleftrightarrow>
     metered_at e = None \<and> 0 < overage e \<and>
     (case map_of orgs (entry_org e) of
        None \<Rightarrow> False | Some r \<Rightarrow> stripe_customer_id r \<notin> {None, Some []})"

definition pending_rows :: "orgs \<Rightarrow> ledger \<Rightarrow> nat \<Rightarrow> ledger" where
  "pending_rows orgs l limit = take limit (sort_key entry_created_at (filter (reportable orgs) l))"

type_synonym 'm meter = "'m \<Rightarrow> string \<Rightarrow> int \<Rightarrow> uuid \<Rightarrow> bool \<times> 'm"

fun report_rows :: "'m meter \<Rightarrow> orgs \<Rightarrow> 'm \<Rightarrow> ledger \<Rightarrow> uuid list \<times> nat \<times> 'm" where
  "report_rows report orgs m [] = ([], 0, m)"
| "report_rows report orgs m (e # es) =
     (case (case map_of orgs (entry_org e) of None \<Rightarrow> None | Some r \<Rightarrow> stripe_customer_id r) of
        Some cust \<Rightarrow>
          if cust = [] then
            (case report_rows report orgs m es of (ok, sk, m') \<Rightarrow> (ok, Suc sk, m'))
          else
            (case report m cust (overage e) (entry_id e) of
               (True, m1) \<Rightarrow>
                 (case report_rows report orgs m1 es of (ok, sk, m') \<Rightarrow> (entry_id e # ok, sk, m'))
             | (False, m1) \<Rightarrow>
                 (case report_rows report orgs m1 es of (ok, sk, m') \<Rightarrow> (ok, Suc sk, m')))
      | None \<Rightarrow> (case report_rows report orgs m es of (ok, sk, m') \<Rightarrow> (ok, Suc sk, m')))"

definition stamp_metered :: "uuid list \<Rightarrow> datetime \<Rightarrow> ledger \<Rightarrow> ledger" where
  "stamp_metered ids now l =
     map (\<lambda>e. if entry_id e \<in> set ids then e\<lparr>metered_at := Some now\<rparr> else e) l"

definition report_pending_usage ::
  "'m meter \<Rightarrow> orgs \<Rightarrow> orgs \<Rightarrow> nat \<Rightarrow> datetime \<Rightarrow> bool \<Rightarrow> 'm \<times> ledger \<Rightarrow> 'm \<times> ledger" where
  "report_pending_usage report orgs orgs2 limit now committed s =
     (case s of (m, l) \<Rightarrow>
        case report_rows report orgs2 m (pending_rows orgs l limit) of
          (ok, sk, m') \<Rightarrow> (m', if committed then stamp_metered ok now l else l))"

text \<open>
  What the provider documents: a report under a scope it has already counted adds nothing, a new
  scope is counted once with its quantity, a call that raised did one or neither, and a report
  touches no other scope. \<open>billed m s\<close> is what the meter holds under scope \<open>s\<close>.
\<close>

definition idempotent_meter :: "'m meter \<Rightarrow> ('m \<Rightarrow> uuid \<Rightarrow> int) \<Rightarrow> bool" where
  "idempotent_meter report billed \<longleftrightarrow>
     (\<forall>m c q s.
        (\<forall>s'. s' \<noteq> s \<longrightarrow> billed (snd (report m c q s)) s' = billed m s')
        \<and> (billed (snd (report m c q s)) s = (if billed m s = 0 then q else billed m s)
           \<or> \<not> fst (report m c q s) \<and> billed (snd (report m c q s)) s = billed m s))"

text \<open>Nothing is billed but the overage of its entry, and a stamped entry has been billed.\<close>

definition billed_right :: "('m \<Rightarrow> uuid \<Rightarrow> int) \<Rightarrow> 'm \<Rightarrow> ledger \<Rightarrow> bool" where
  "billed_right billed m l \<longleftrightarrow>
     (\<forall>e \<in> set l. billed m (entry_id e) \<in> {0, overage e}
        \<and> (metered_at e \<noteq> None \<longrightarrow> billed m (entry_id e) = overage e))"

definition settled_by :: "('m \<Rightarrow> uuid \<Rightarrow> int) \<Rightarrow> 'm \<Rightarrow> 'm \<Rightarrow> uuid \<Rightarrow> int \<Rightarrow> bool" where
  "settled_by billed m m' s q \<longleftrightarrow> billed m' s = (if billed m s = 0 then q else billed m s)"

lemma idempotent_meterD:
  assumes "idempotent_meter report billed" "report m c q s = (ok, m')"
  shows "s' \<noteq> s \<longrightarrow> billed m' s' = billed m s'"
    and "ok \<longrightarrow> settled_by billed m m' s q"
    and "billed m' s = billed m s \<or> settled_by billed m m' s q"
proof -
  have "(\<forall>s'. s' \<noteq> s \<longrightarrow> billed m' s' = billed m s')
     \<and> (settled_by billed m m' s q \<or> \<not> ok \<and> billed m' s = billed m s)"
    using assms(1) [unfolded idempotent_meter_def, rule_format, of s m c q] assms(2)
    by (simp add: settled_by_def)
  then show "s' \<noteq> s \<longrightarrow> billed m' s' = billed m s'" "ok \<longrightarrow> settled_by billed m m' s q"
    "billed m' s = billed m s \<or> settled_by billed m m' s q" by blast+
qed

text \<open>What one pass over a batch does to the meter.\<close>

definition batch_effect ::
  "('m \<Rightarrow> uuid \<Rightarrow> int) \<Rightarrow> 'm \<Rightarrow> 'm \<Rightarrow> ledger \<Rightarrow> uuid list \<Rightarrow> bool" where
  "batch_effect billed m m' es ok \<longleftrightarrow>
     (\<forall>s. s \<notin> entry_id ` set es \<longrightarrow> billed m' s = billed m s)
     \<and> (\<forall>e \<in> set es. billed m' (entry_id e) = billed m (entry_id e)
          \<or> settled_by billed m m' (entry_id e) (overage e))
     \<and> set ok \<subseteq> entry_id ` set es
     \<and> (\<forall>e \<in> set es. entry_id e \<in> set ok \<longrightarrow> settled_by billed m m' (entry_id e) (overage e))"

lemma batch_skip:
  assumes "batch_effect billed m m' es ok" "entry_id e \<notin> entry_id ` set es"
  shows "batch_effect billed m m' (e # es) ok"
proof -
  have "billed m' (entry_id e) = billed m (entry_id e)" "entry_id e \<notin> set ok"
    using assms by (auto simp: batch_effect_def)
  with assms show ?thesis by (auto simp: batch_effect_def)
qed

lemma batch_report:
  assumes rest: "batch_effect billed m1 m' es ok" and fresh: "entry_id e \<notin> entry_id ` set es"
    and other: "\<And>s. s \<noteq> entry_id e \<Longrightarrow> billed m1 s = billed m s"
    and mine: "billed m1 (entry_id e) = billed m (entry_id e)
      \<or> settled_by billed m m1 (entry_id e) (overage e)"
    and taken: "b \<Longrightarrow> settled_by billed m m1 (entry_id e) (overage e)"
  shows "batch_effect billed m m' (e # es) (if b then entry_id e # ok else ok)"
proof -
  have kept: "billed m' (entry_id e) = billed m1 (entry_id e)" "entry_id e \<notin> set ok"
    using rest fresh by (auto simp: batch_effect_def)
  have ids: "entry_id x \<noteq> entry_id e" if "x \<in> set es" for x
    using that fresh by (metis image_eqI)
  have same: "settled_by billed m1 m' (entry_id x) q = settled_by billed m m' (entry_id x) q"
    "billed m1 (entry_id x) = billed m (entry_id x)" if "x \<in> set es" for x q
    using other [OF ids [OF that]] by (simp_all add: settled_by_def)
  have "settled_by billed m m' (entry_id e) q = settled_by billed m m1 (entry_id e) q" for q
    by (simp add: settled_by_def kept)
  then show ?thesis
    unfolding batch_effect_def
  proof (intro conjI ballI allI impI, goal_cases)
    case (1 s)
    then show ?case using rest other by (auto simp: batch_effect_def)
  next
    case (2 x)
    then show ?case
      using rest mine kept same by (auto simp: batch_effect_def)
  next
    case 3
    then show ?case using rest by (auto simp: batch_effect_def)
  next
    case (4 x)
    show ?case
    proof (cases "x = e")
      case True
      then show ?thesis using 4 taken kept(2) by (auto split: if_splits)
    next
      case False
      then have "x \<in> set es" using 4(2) by simp
      moreover have "entry_id x \<in> set ok"
        using 4(3) ids [OF \<open>x \<in> set es\<close>] by (auto split: if_splits)
      ultimately show ?thesis using rest same(1) by (auto simp: batch_effect_def)
    qed
  qed
qed

lemma report_rows_billed:
  assumes "idempotent_meter report billed"
  shows "report_rows report orgs m es = (ok, sk, m') \<Longrightarrow> distinct (map entry_id es) \<Longrightarrow>
     batch_effect billed m m' es ok"
proof (induction es arbitrary: m ok sk)
  case Nil
  then show ?case by (simp add: batch_effect_def)
next
  case (Cons e es)
  let ?c = "case map_of orgs (entry_org e) of None \<Rightarrow> None | Some r \<Rightarrow> stripe_customer_id r"
  have fresh: "entry_id e \<notin> entry_id ` set es" and d: "distinct (map entry_id es)"
    using Cons.prems(2) by simp_all
  show ?case
  proof (cases "?c = None \<or> ?c = Some []")
    case True
    then obtain sk' where "report_rows report orgs m es = (ok, sk', m')"
      using Cons.prems(1) by (auto split: prod.splits option.splits)
    from batch_skip [OF Cons.IH [OF this d] fresh] show ?thesis .
  next
    case False
    then obtain cust where c: "?c = Some cust" "cust \<noteq> []" by auto
    obtain b m1 where rep: "report m cust (overage e) (entry_id e) = (b, m1)"
      by (cases "report m cust (overage e) (entry_id e)")
    obtain ok' sk' m2 where r: "report_rows report orgs m1 es = (ok', sk', m2)"
      by (cases "report_rows report orgs m1 es")
    have out: "m2 = m'" "ok = (if b then entry_id e # ok' else ok')"
      using Cons.prems(1) c rep r by (auto split: bool.splits)
    note one = idempotent_meterD [OF assms rep]
    show ?thesis
      unfolding out(2)
      by (rule batch_report [OF Cons.IH [OF r [unfolded out(1)] d] fresh]) (use one in blast)+
  qed
qed

lemma pending_rows_set: "set (pending_rows orgs l n) \<subseteq> set l"
  by (auto simp: pending_rows_def dest: in_set_takeD)

lemma pending_rows_distinct:
  assumes "distinct (map entry_id l)"
  shows "distinct (map entry_id (pending_rows orgs l n))"
proof -
  have "distinct (map entry_id (sort_key entry_created_at (filter (reportable orgs) l)))"
    using assms by (auto simp: distinct_map intro: inj_on_subset)
  then show ?thesis by (simp add: pending_rows_def take_map [symmetric])
qed

lemma sweep_keeps_right:
  assumes idem: "idempotent_meter report billed" and d: "distinct (map entry_id l)"
    and right: "billed_right billed m l"
    and sweep: "report_pending_usage report orgs orgs2 limit now committed (m, l) = (m', l')"
  shows "billed_right billed m' l'"
proof -
  let ?es = "pending_rows orgs l limit"
  obtain ok sk where r: "report_rows report orgs2 m ?es = (ok, sk, m')"
    and l': "l' = (if committed then stamp_metered ok now l else l)"
    using sweep by (auto simp: report_pending_usage_def split: prod.splits)
  note eff = report_rows_billed [OF idem r pending_rows_distinct [OF d], unfolded batch_effect_def]
  have uniq: "x = y" if "x \<in> set l" "y \<in> set l" "entry_id x = entry_id y" for x y
    using d that by (auto simp: distinct_map dest: inj_onD)
  have "billed m' (entry_id e) \<in> {0, overage e} \<and> (metered_at e \<noteq> None \<longrightarrow> billed m' (entry_id e) = overage e)
      \<and> (entry_id e \<in> set ok \<longrightarrow> billed m' (entry_id e) = overage e)" if e: "e \<in> set l" for e
  proof (cases "entry_id e \<in> entry_id ` set ?es")
    case True
    then obtain x where "x \<in> set ?es" "entry_id x = entry_id e" by auto
    with e uniq pending_rows_set have x: "e \<in> set ?es" by (metis subsetD)
    have b: "billed m (entry_id e) \<in> {0, overage e}" using right e by (simp add: billed_right_def)
    have unstamped: "metered_at e = None"
      using x by (auto simp: pending_rows_def reportable_def dest: in_set_takeD)
    have "billed m' (entry_id e) = billed m (entry_id e)
        \<or> settled_by billed m m' (entry_id e) (overage e)"
      "entry_id e \<in> set ok \<longrightarrow> settled_by billed m m' (entry_id e) (overage e)"
      using eff x by blast+
    then have "billed m' (entry_id e) \<in> {0, overage e}"
      "entry_id e \<in> set ok \<longrightarrow> billed m' (entry_id e) = overage e"
      using b by (auto simp: settled_by_def split: if_splits)
    with unstamped show ?thesis by simp
  next
    case False
    with eff have "billed m' (entry_id e) = billed m (entry_id e)" "entry_id e \<notin> set ok" by blast+
    with right e show ?thesis by (simp add: billed_right_def)
  qed
  then show ?thesis
    by (auto simp: l' billed_right_def stamp_metered_def)
qed

lemma sweep_keeps_ids:
  "report_pending_usage report orgs orgs2 limit now committed (m, l) = (m', l') \<Longrightarrow>
     map entry_id l' = map entry_id l \<and> map overage l' = map overage l"
  by (auto simp: report_pending_usage_def stamp_metered_def o_def split: prod.splits if_splits)

text \<open>
  The meter bills every overage at most once. However many sweeps run, over whatever batches,
  with calls that raise after the provider counted them and with stamps lost in a failed commit,
  the provider holds for every ledger entry either nothing or exactly that entry's overage, and an
  entry stamped as reported has been billed. The provider's documented idempotency is the one
  hypothesis about it.
\<close>

theorem sweep_bills_once:
  assumes "idempotent_meter report billed" and "distinct (map entry_id l)"
    and "billed_right billed m l"
  shows "case fold (\<lambda>(orgs, orgs2, limit, now, committed).
           report_pending_usage report orgs orgs2 limit now committed) sweeps (m, l) of
         (m', l') \<Rightarrow> billed_right billed m' l' \<and> map overage l' = map overage l"
  using assms(2,3)
proof (induction sweeps arbitrary: m l)
  case (Cons sw sweeps)
  obtain o1 o2 limit now c where sw: "sw = (o1, o2, limit, now, c)" by (cases sw)
  obtain m1 l1 where s1: "report_pending_usage report o1 o2 limit now c (m, l) = (m1, l1)"
    by (cases "report_pending_usage report o1 o2 limit now c (m, l)")
  have ids: "map entry_id l1 = map entry_id l" "map overage l1 = map overage l"
    using sweep_keeps_ids [OF s1] by simp_all
  have "distinct (map entry_id l1)" using Cons.prems(1) ids by simp
  from Cons.IH [OF this sweep_keeps_right [OF assms(1) Cons.prems s1]] ids show ?case
    by (simp add: sw s1)
qed simp

definition demo_meter :: "(uuid \<Rightarrow> int) meter" where
  "demo_meter m c q s = (True, if m s = 0 then m(s := q) else m)"

theorem sweep_bills_once_witness:
  "billed_right (\<lambda>m. m)
     (fst (report_pending_usage demo_meter demo_orgs demo_orgs 5 9 True
        (\<lambda>_. 0, [new_entry 5 1 7 debit_entry (-12) ''mesh job'' 4])))
     (snd (report_pending_usage demo_meter demo_orgs demo_orgs 5 9 True
        (\<lambda>_. 0, [new_entry 5 1 7 debit_entry (-12) ''mesh job'' 4])))"
proof -
  have "idempotent_meter demo_meter (\<lambda>m. m)"
    by (simp add: idempotent_meter_def demo_meter_def)
  from sweep_bills_once [OF this, of "[new_entry 5 1 7 debit_entry (-12) ''mesh job'' 4]" "\<lambda>_. 0"
      "[(demo_orgs, demo_orgs, 5, 9, True)]"]
  show ?thesis by (simp add: billed_right_def split: prod.splits)
qed

end
