(* ===== verification/Terminal.thy ===== *)
theory Terminal
  imports Delivery Metering
begin

text \<open>
  How a job ends: the atomic terminal transaction and its charge
  (\<open>application/terminal_finalize.py\<close>), the transactional outbox
  (\<open>persistence/repositories/terminal_outbox_repository.py\<close>) and its drain
  (\<open>application/outbox_publisher.py\<close>), the owner's cancel (\<open>application/job_cancel.py\<close>) and
  the refusal of a job that never ran.

  A transaction is one step on the state: it commits as a whole or not at all. A dedup key is the
  datatype \<open>dedup_key\<close>: the code's two renderings of UUIDs are injective and differ. What the
  renderers produce (the final result, the closing line) are arguments.
\<close>

datatype dedup_key = TerminalKey uuid | ParkKey uuid uuid

record outbox_row =
  ob_job :: uuid
  ob_generation :: int
  ob_status :: string
  ob_closing :: string
  ob_result :: json_obj
  ob_key :: dedup_key
  ob_created_at :: datetime
  ob_attempts :: nat
  ob_error :: "string option"
  ob_published_at :: "datetime option"
  ob_locked_at :: "datetime option"

type_synonym outbox = "outbox_row list"

record park_row =
  park_id :: uuid
  park_job :: uuid
  park_closed_by :: "string option"

record 'f ending =
  e_world :: "'f world"
  e_ledger :: ledger
  e_outbox :: outbox
  e_parks :: "park_row list"

section \<open>The outbox\<close>

definition enqueue ::
  "outbox \<Rightarrow> datetime \<Rightarrow> uuid \<Rightarrow> int \<Rightarrow> string \<Rightarrow> string \<Rightarrow> json_obj \<Rightarrow> dedup_key option
     \<Rightarrow> bool \<times> outbox" where
  "enqueue ob now i gen st closing res key =
     (let k = or_else key (TerminalKey i) in
      if k \<in> ob_key ` set ob then (False, ob)
      else (True, ob @ [\<lparr>ob_job = i, ob_generation = gen, ob_status = st, ob_closing = closing,
              ob_result = res, ob_key = k, ob_created_at = now, ob_attempts = 0, ob_error = None,
              ob_published_at = None, ob_locked_at = None\<rparr>]))"

text \<open>
  A claim locks its rows with \<open>SKIP LOCKED\<close>; \<open>locked\<close> are the keys another drain holds. It
  returns the keys in the order they will be published.
\<close>

definition claim_pending ::
  "outbox \<Rightarrow> dedup_key set \<Rightarrow> nat \<Rightarrow> uuid option \<Rightarrow> datetime \<Rightarrow> dedup_key list \<times> outbox" where
  "claim_pending ob locked limit job now =
     (let ks = map ob_key (take limit (sort_key ob_created_at
            (filter (\<lambda>r. ob_published_at r = None \<and> ob_key r \<notin> locked
                       \<and> (case job of None \<Rightarrow> True | Some i \<Rightarrow> ob_job r = i)) ob)))
      in (ks, map (\<lambda>r. if ob_key r \<in> set ks
                      then r\<lparr>ob_locked_at := Some now, ob_attempts := ob_attempts r + 1\<rparr> else r) ob))"

definition mark_published :: "outbox \<Rightarrow> dedup_key \<Rightarrow> datetime \<Rightarrow> outbox" where
  "mark_published ob k now =
     map (\<lambda>r. if ob_key r = k then r\<lparr>ob_published_at := Some now, ob_error := None\<rparr> else r) ob"

definition record_failure :: "outbox \<Rightarrow> dedup_key \<Rightarrow> string \<Rightarrow> outbox" where
  "record_failure ob k category =
     map (\<lambda>r. if ob_key r = k then r\<lparr>ob_error := Some (take 256 category)\<rparr> else r) ob"

text \<open>\<open>sends k\<close> is \<open>None\<close> when the strict publish went through, else the exception's name.\<close>

fun publish_rows ::
  "(dedup_key \<Rightarrow> string option) \<Rightarrow> datetime \<Rightarrow> dedup_key list \<Rightarrow> outbox \<Rightarrow> nat \<times> nat \<times> outbox" where
  "publish_rows sends now [] ob = (0, 0, ob)"
| "publish_rows sends now (k # ks) ob =
     (case sends k of
        None \<Rightarrow> (case publish_rows sends now ks (mark_published ob k now) of
                   (p, f, ob') \<Rightarrow> (Suc p, f, ob'))
      | Some err \<Rightarrow> (case publish_rows sends now ks (record_failure ob k err) of
                   (p, f, ob') \<Rightarrow> (p, Suc f, ob')))"

text \<open>\<open>committed\<close>: whether the drain's own commit goes through.\<close>

definition publish_pending ::
  "(dedup_key \<Rightarrow> string option) \<Rightarrow> dedup_key set \<Rightarrow> nat \<Rightarrow> uuid option \<Rightarrow> datetime \<Rightarrow> bool \<Rightarrow> outbox
     \<Rightarrow> (nat \<times> nat \<times> nat) \<times> outbox" where
  "publish_pending sends locked limit job now committed ob =
     (case claim_pending ob locked limit job now of (ks, ob1) \<Rightarrow>
        case publish_rows sends now ks ob1 of (p, f, ob2) \<Rightarrow>
          ((p, f, length ks), if committed then ob2 else ob))"

section \<open>The terminal transaction\<close>

text \<open>The review write: no plan, a write that failed, or one that went through with its park.\<close>

datatype review_write = NoReview | ReviewFailed | ReviewWritten "uuid option"

record finalize_call =
  fc_owner :: "ExecutionOwnership option"
  fc_job :: uuid
  fc_status :: JobStatus
  fc_reason :: "FailedReason option"
  fc_result :: json_obj
  fc_closing :: string
  fc_review :: review_write
  fc_plain :: "(json_obj \<times> string) option"
  fc_charge_ok :: bool
  fc_now :: datetime
  fc_ids :: "uuid \<times> uuid"

record finalize_outcome =
  fo_fenced :: bool
  fo_transition :: "TransitionResult option"
  fo_status :: "JobStatus option"
  fo_enqueued :: bool
  fo_fell_back :: bool

text \<open>The intended status, result and closing line after a park that could not be written.\<close>

definition intended :: "finalize_call \<Rightarrow> JobStatus \<times> json_obj \<times> string \<times> bool" where
  "intended c =
     (if fc_review c = ReviewFailed \<and> fc_status c = JS_pending_review
      then (case fc_plain c of
              None \<Rightarrow> (JS_failed, fc_result c, fc_closing c, True)
            | Some (res, closing) \<Rightarrow> (JS_failed, res, closing, True))
      else (fc_status c, fc_result c, fc_closing c, False))"

definition charge_fail_open ::
  "settings \<Rightarrow> (uuid \<Rightarrow> string) \<Rightarrow> orgs \<Rightarrow> ledger \<Rightarrow> finalize_call \<Rightarrow> SimulationJob \<Rightarrow> ledger" where
  "charge_fail_open st nm orgs l c job =
     (if \<not> fc_charge_ok c then l
      else case charge_for_job st nm orgs l (fst (fc_ids c)) (snd (fc_ids c)) (fc_now c) job of
             Inl _ \<Rightarrow> l | Inr (_, l') \<Rightarrow> l')"

text \<open>The failure reason and the final result, written after the transition has applied.\<close>

definition write_verdict :: "finalize_call \<Rightarrow> JobStatus \<Rightarrow> json_obj \<Rightarrow> uuid \<Rightarrow> jobs \<Rightarrow> jobs" where
  "write_verdict c target res i t =
     set_final_result
       (case fc_reason c of
          Some fr \<Rightarrow> if target \<noteq> JS_pending_review
                     then snd (cas t i (\<lambda>_. True) (\<lambda>r. r\<lparr>failed_reason := Some fr\<rparr>)) else t
        | None \<Rightarrow> t) i (fc_now c) res"

definition finalize_terminal_atomic ::
  "settings \<Rightarrow> (uuid \<Rightarrow> string) \<Rightarrow> orgs \<Rightarrow> finalize_call \<Rightarrow> 'f ending \<Rightarrow> finalize_outcome \<times> 'f ending"
where
  "finalize_terminal_atomic st nm orgs c s =
     (let w = e_world s;
          i = (case fc_owner c of Some own \<Rightarrow> own_job_id own | None \<Rightarrow> fc_job c);
          gen = (case fc_owner c of Some own \<Rightarrow> own_generation own | None \<Rightarrow> 0)
      in if (case fc_owner c of Some own \<Rightarrow> lock_current_owner w own = None | None \<Rightarrow> False)
      then (\<lparr>fo_fenced = True, fo_transition = None, fo_status = None, fo_enqueued = False,
             fo_fell_back = False\<rparr>, s)
      else
        (case intended c of (target, res, closing, fell) \<Rightarrow>
           case transition (w_jobs w) i target None (fc_now c) of
             None \<Rightarrow> (\<lparr>fo_fenced = False, fo_transition = None, fo_status = None,
                       fo_enqueued = False, fo_fell_back = fell\<rparr>, s)
           | Some (tr, jobs1) \<Rightarrow>
               let durable = (case map_of jobs1 i of None \<Rightarrow> target | Some r \<Rightarrow> status r) in
               if tr \<noteq> applied
               then (\<lparr>fo_fenced = False, fo_transition = Some tr, fo_status = Some durable,
                      fo_enqueued = False, fo_fell_back = fell\<rparr>, s)
               else
                 let park = (case fc_review c of ReviewWritten p \<Rightarrow> p | _ \<Rightarrow> None);
                     parks = (case park of
                                None \<Rightarrow> e_parks s
                              | Some p \<Rightarrow> e_parks s @ [\<lparr>park_id = p, park_job = i, park_closed_by = None\<rparr>]);
                     jobs3 = write_verdict c target res i jobs1;
                     l' = (case map_of jobs3 i of
                             Some r \<Rightarrow> if target \<noteq> JS_pending_review
                                        then charge_fail_open st nm orgs (e_ledger s) c r else e_ledger s
                           | None \<Rightarrow> e_ledger s)
                 in (case enqueue (e_outbox s) (fc_now c) i gen (JobStatus_value durable) closing res
                            (map_option (ParkKey i) park) of
                       (enq, ob) \<Rightarrow>
                         (\<lparr>fo_fenced = False, fo_transition = Some tr, fo_status = Some durable,
                           fo_enqueued = enq, fo_fell_back = fell\<rparr>,
                          \<lparr>e_world = w\<lparr>w_jobs := jobs3\<rparr>, e_ledger = l', e_outbox = ob,
                           e_parks = parks\<rparr>))))"

section \<open>The owner's cancel\<close>

datatype CancelResult = cr_cancelled | already_cancelled | already_finished | cr_not_found

definition REASON_MAX :: nat where "REASON_MAX = 500"

definition open_park :: "park_row list \<Rightarrow> uuid \<Rightarrow> park_row option" where
  "open_park ps i = find (\<lambda>p. park_job p = i \<and> park_closed_by p = None) (rev ps)"

definition close_park :: "park_row list \<Rightarrow> uuid \<Rightarrow> string \<Rightarrow> park_row list" where
  "close_park ps p by_whom =
     map (\<lambda>r. if park_id r = p \<and> park_closed_by r = None then r\<lparr>park_closed_by := Some by_whom\<rparr> else r) ps"

text \<open>\<open>None\<close> is the \<open>RuntimeError\<close> of a cancel that did not apply. \<open>render\<close> is the cancelled verdict.\<close>

definition cancel_job ::
  "'f fingerprint \<Rightarrow> (string \<Rightarrow> uuid option) \<Rightarrow> (SimulationJob \<Rightarrow> json_obj \<times> string) \<Rightarrow> uuid \<Rightarrow> string
     \<Rightarrow> string \<Rightarrow> string \<Rightarrow> datetime \<Rightarrow> redis_call \<Rightarrow> 'f ending
     \<Rightarrow> ((CancelResult \<times> JobStatus option \<times> string option) \<times> 'f ending) option"
where
  "cancel_job fp parse_uuid render i owner organization reason0 now rc s =
     (let reason = take REASON_MAX (strip reason0); w = e_world s in
      case lock_for_owner parse_uuid (w_jobs w) i owner organization of
        None \<Rightarrow> Some ((cr_not_found, None, None), s)
      | Some r \<Rightarrow>
          if status r = JS_cancelled
          then Some ((already_cancelled, Some JS_cancelled, cancel_reason r), s)
          else if status r \<in> TERMINAL_STATES
          then Some ((already_finished, Some (status r), None), s)
          else
            (case evict_owner fp w i now rc of (evicted, w1) \<Rightarrow>
               case transition (w_jobs w1) i JS_cancelled None now of
                 Some (applied, jobs1) \<Rightarrow>
                   let parks = (if status r = JS_pending_review
                                then (case open_park (e_parks s) i of
                                        None \<Rightarrow> e_parks s
                                      | Some p \<Rightarrow> close_park (e_parks s) (park_id p) ''cancel'')
                                else e_parks s);
                       jobs2 = snd (cas jobs1 i (\<lambda>_. True)
                                  (\<lambda>x. x\<lparr>cancel_reason := nonempty_or_none reason\<rparr>));
                       rend = render (the (map_of jobs2 i));
                       jobs3 = set_final_result jobs2 i now (fst rend);
                       ob = snd (enqueue (e_outbox s) now i (execution_generation r)
                                  (JobStatus_value JS_cancelled) (snd rend) (fst rend) None)
                   in Some ((cr_cancelled, Some JS_cancelled, nonempty_or_none reason),
                            \<lparr>e_world = w1\<lparr>w_jobs := jobs3\<rparr>, e_ledger = e_ledger s,
                             e_outbox = ob, e_parks = parks\<rparr>)
               | _ \<Rightarrow> None))"

section \<open>A job that never ran\<close>

definition refuse_before_execution ::
  "(SimulationJob \<Rightarrow> json_obj) \<Rightarrow> jobs \<Rightarrow> uuid \<Rightarrow> FailureClass \<Rightarrow> bool \<Rightarrow> datetime
     \<Rightarrow> jobs \<times> FailureClass list" where
  "refuse_before_execution refused t i fc db_ok now =
     ((if \<not> db_ok then t
       else case transition t i JS_failed None now of
              Some (applied, t') \<Rightarrow>
                snd (cas t' i (\<lambda>_. True)
                  (\<lambda>r. r\<lparr>failed_reason := Some (or_else (FailedReason_of (failed_reason_for fc)) FR_unhandled),
                         final_result := Some (refused r)\<rparr>))
            | Some (_, t') \<Rightarrow> t'
            | None \<Rightarrow> t),
      [fc])"

end
