(* ===== verification/Reaper.thy ===== *)
theory Reaper
  imports Delivery
begin

text \<open>
  The job nobody finishes: which rows the sweep selects, what it does with each of them and the
  re-launch (\<open>application/maintenance/cleanup.py\<close>), the worker that hands its job back
  (\<open>application/worker_handoff.py\<close>) and the run that died before its claim
  (\<open>application/unclaimed_requeue.py\<close>).

  The sweep selects its rows once and then updates them one by one; what other workers commit in
  between is the argument \<open>between\<close>. The two records it may write are the argument \<open>render\<close>, whose
  flag says that the job never started. \<open>takes\<close> says whether the launcher takes a job's message.
\<close>

record reap_policy =
  STALLED_JOB_TIMEOUT_HOURS :: int
  WORKER_LEASE_SECONDS :: int

section \<open>Which rows are stalled\<close>

definition started_cutoff :: "reap_policy \<Rightarrow> datetime \<Rightarrow> datetime" where
  "started_cutoff pol now = now - seconds (3600 * STALLED_JOB_TIMEOUT_HOURS pol)"

definition lease_cutoff :: "reap_policy \<Rightarrow> datetime \<Rightarrow> datetime" where
  "lease_cutoff pol now = now - seconds (WORKER_LEASE_SECONDS pol)"

text \<open>A comparison with a null column does not hold.\<close>

definition before :: "datetime option \<Rightarrow> datetime \<Rightarrow> bool" where
  "before c cutoff = (case c of None \<Rightarrow> False | Some d \<Rightarrow> d < cutoff)"

lemma before_simps [simp]: "\<not> before None c" "before (Some d) c \<longleftrightarrow> d < c"
  by (simp_all add: before_def)

definition stalled :: "reap_policy \<Rightarrow> datetime \<Rightarrow> SimulationJob \<Rightarrow> bool" where
  "stalled pol now r \<longleftrightarrow>
     (status r = JS_running \<and> before (lease_expires_at r) (lease_cutoff pol now))
   \<or> (status r = JS_running \<and> lease_expires_at r = None
        \<and> before (started_at r) (started_cutoff pol now))
   \<or> (status r \<in> {JS_pending, JS_queued} \<and> started_at r = None
        \<and> created_at r < started_cutoff pol now)
   \<or> (status r \<in> {JS_pending, JS_queued} \<and> started_at r \<noteq> None
        \<and> before (pipeline_deadline_at r) (lease_cutoff pol now))
   \<or> (status r \<in> {JS_pending, JS_queued} \<and> started_at r \<noteq> None \<and> active_worker_token r = None
        \<and> before (lease_expires_at r) (lease_cutoff pol now))
   \<or> (status r \<in> {JS_pending, JS_queued} \<and> started_at r \<noteq> None \<and> active_worker_token r = None
        \<and> lease_expires_at r = None \<and> pipeline_deadline_at r = None
        \<and> updated_at r < started_cutoff pol now)"

lemma stalled_active: "stalled pol now r \<Longrightarrow> status r \<in> ACTIVE_STATES"
  by (auto simp: stalled_def ACTIVE_STATES_def)

section \<open>Re-run or fail\<close>

definition RERUN_MARK :: string where
  "RERUN_MARK = ''rerun_worker_lost''"

definition RERUN_MIN_REMAINING_SECONDS :: int where
  "RERUN_MIN_REMAINING_SECONDS = 1800"

definition rerun_eligible :: "SimulationJob \<Rightarrow> datetime \<Rightarrow> bool" where
  "rerun_eligible r now \<longleftrightarrow>
     lease_expires_at r \<noteq> None
     \<and> (if status r = JS_running then pipeline_dispatch_state r \<noteq> Some RERUN_MARK
        else status r = JS_pending \<and> active_worker_token r = None \<and> started_at r \<noteq> None)
     \<and> truthy_json (dispatch_payload r)
     \<and> (case pipeline_deadline_at r of
          None \<Rightarrow> True
        | Some d \<Rightarrow> now + seconds RERUN_MIN_REMAINING_SECONDS < d)"

datatype reap_outcome = Rerun | Reaped | MovedOn

definition rerun_row :: "JobStatus \<Rightarrow> datetime \<Rightarrow> SimulationJob \<Rightarrow> SimulationJob" where
  "rerun_row was now r =
     (let r1 = r\<lparr>status := JS_pending, active_worker_token := None, lease_expires_at := Some now,
                updated_at := now\<rparr>
      in if was = JS_running then r1\<lparr>pipeline_dispatch_state := Some RERUN_MARK\<rparr> else r1)"

definition reaped_row :: "json_obj \<Rightarrow> datetime \<Rightarrow> SimulationJob \<Rightarrow> SimulationJob" where
  "reaped_row res now r =
     r\<lparr>status := JS_failed, failed_reason := Some FR_unhandled, final_result := Some res,
       ended_at := Some now, updated_at := now\<rparr>"

text \<open>One selected row: \<open>seen\<close> is the row as it was selected, the table is the one updated.\<close>

definition reap_one ::
  "(bool \<Rightarrow> SimulationJob \<Rightarrow> json_obj) \<Rightarrow> bool \<Rightarrow> datetime \<Rightarrow> uuid \<Rightarrow> SimulationJob \<Rightarrow> jobs
     \<Rightarrow> reap_outcome \<times> jobs"
where
  "reap_one render can_rerun now i seen t =
     (if can_rerun \<and> rerun_eligible seen now
      then (case cas t i (\<lambda>r. status r = status seen \<and> lease_expires_at r = lease_expires_at seen)
                   (rerun_row (status seen) now) of
              (n, t') \<Rightarrow> (if n = 0 then MovedOn else Rerun, t'))
      else
        let never_started = status seen \<in> {JS_pending, JS_queued} \<and> started_at seen = None in
        (case cas t i (\<lambda>r. status r = status seen) (reaped_row (render never_started seen) now) of
           (n, t') \<Rightarrow> (if n = 0 then MovedOn else Reaped, t')))"

text \<open>The rows in the order they were selected; the identifiers failed, the rows to launch.\<close>

fun reap_rows ::
  "(bool \<Rightarrow> SimulationJob \<Rightarrow> json_obj) \<Rightarrow> bool \<Rightarrow> datetime \<Rightarrow> (uuid \<Rightarrow> 'f world \<Rightarrow> 'f world)
     \<Rightarrow> (uuid \<times> SimulationJob) list \<Rightarrow> 'f world
     \<Rightarrow> uuid list \<times> (uuid \<times> SimulationJob) list \<times> 'f world"
where
  "reap_rows render can now between [] w = ([], [], w)"
| "reap_rows render can now between ((i, seen) # rows) w =
     (let w1 = between i w in
      case reap_one render can now i seen (w_jobs w1) of
        (out, t) \<Rightarrow>
          (case reap_rows render can now between rows (w1\<lparr>w_jobs := t\<rparr>) of
             (failed, again, w2) \<Rightarrow>
               (if out = Reaped then i # failed else failed,
                if out = Rerun then (i, seen) # again else again, w2)))"

definition relaunch :: "(uuid \<Rightarrow> bool) \<Rightarrow> uuid \<Rightarrow> json_obj option \<Rightarrow> bool" where
  "relaunch takes i payload \<longleftrightarrow> truthy_json payload \<and> takes i"

fun relaunch_rows ::
  "(uuid \<Rightarrow> bool) \<Rightarrow> (uuid \<Rightarrow> bool) \<Rightarrow> datetime \<Rightarrow> (uuid \<Rightarrow> 'f world \<Rightarrow> 'f world)
     \<Rightarrow> (uuid \<times> SimulationJob) list \<Rightarrow> 'f world \<Rightarrow> uuid list \<times> 'f world"
where
  "relaunch_rows takes confirm_ok now between [] w = ([], w)"
| "relaunch_rows takes confirm_ok now between ((i, seen) # rows) w =
     (let w1 = between i w in
      if \<not> relaunch takes i (dispatch_payload seen)
      then relaunch_rows takes confirm_ok now between rows w1
      else
        let w2 = (if confirm_ok i then snd (confirm_requeued w1 i now now) else w1) in
        (case relaunch_rows takes confirm_ok now between rows w2 of
           (ids, w3) \<Rightarrow> (i # ids, w3)))"

definition reap_stalled ::
  "reap_policy \<Rightarrow> (bool \<Rightarrow> SimulationJob \<Rightarrow> json_obj) \<Rightarrow> bool \<Rightarrow> (uuid \<Rightarrow> bool) \<Rightarrow> (uuid \<Rightarrow> bool)
     \<Rightarrow> datetime \<Rightarrow> (uuid \<Rightarrow> 'f world \<Rightarrow> 'f world) \<Rightarrow> (uuid \<Rightarrow> 'f world \<Rightarrow> 'f world) \<Rightarrow> 'f world
     \<Rightarrow> uuid list \<times> uuid list \<times> 'f world"
where
  "reap_stalled pol render can takes confirm_ok now between1 between2 w =
     (case reap_rows render can now between1
             (filter (\<lambda>(i, r). stalled pol now r) (w_jobs w)) w of
        (failed, again, w1) \<Rightarrow>
          (case relaunch_rows takes confirm_ok now between2 again w1 of
             (ids, w2) \<Rightarrow> (failed, ids, w2)))"

section \<open>A worker that gives its job back\<close>

text \<open>How the release transaction ends: an error before any statement ran, or one at the commit,
  when the mirror has already been revoked.\<close>

datatype tx_end = TxCommitted | TxFailedBefore | TxFailedAtCommit

definition hand_back_job ::
  "'f fingerprint \<Rightarrow> ExecutionOwnership \<Rightarrow> datetime \<Rightarrow> redis_call \<Rightarrow> tx_end \<Rightarrow> (uuid \<Rightarrow> bool) \<Rightarrow> bool
     \<Rightarrow> ('f world \<Rightarrow> 'f world) \<Rightarrow> counters \<Rightarrow> 'f world \<Rightarrow> string \<times> counters \<times> 'f world"
where
  "hand_back_job fp own now rc tx takes confirm_ok between c w =
     (let i = own_job_id own in
      case hand_back fp w own now rc of
        (released, w1) \<Rightarrow>
          if tx = TxFailedBefore then (''handback_failed'', c, w)
          else if tx = TxFailedAtCommit then (''handback_failed'', c, w\<lparr>w_fence := w_fence w1\<rparr>)
          else if \<not> released then (''fenced'', c, w1)
          else
            let payload = (case map_of (w_jobs w1) i of None \<Rightarrow> None | Some r \<Rightarrow> dispatch_payload r);
                c1 = snd (forgive_attempt now i c);
                w2 = between w1
            in if \<not> relaunch takes i payload then (''handback_unqueued'', c1, w2)
               else (''handed_back'', c1,
                     if confirm_ok then snd (confirm_requeued w2 i now now) else w2))"

section \<open>A run that died before its claim\<close>

definition transient :: "exn \<Rightarrow> bool" where
  "transient e \<longleftrightarrow>
     failure_class (case e of RaisedSystem sf \<Rightarrow> sf | _ \<Rightarrow> classify_exception e ''pipeline'')
       \<in> {DEPENDENCY_DOWN, PROVIDER_TRANSIENT}"

text \<open>\<open>args\<close>: the job of the run's own arguments; \<open>built\<close>: the payload rebuilt from them.\<close>

definition requeue_if_unclaimed ::
  "uuid \<Rightarrow> exn \<Rightarrow> bool \<Rightarrow> uuid option \<Rightarrow> bool \<Rightarrow> bool \<Rightarrow> (uuid \<Rightarrow> bool) \<Rightarrow> datetime \<Rightarrow> counters
     \<Rightarrow> bool \<times> counters"
where
  "requeue_if_unclaimed i e claimed args runs_work built takes now c =
     (if claimed \<or> \<not> transient e then (False, c)
      else if args \<noteq> Some i then (False, c)
      else if \<not> runs_work then (False, c)
      else if \<not> built then (False, c)
      else if \<not> takes i then (False, c)
      else (True, snd (forgive_attempt now i c)))"

end
