(* ===== verification/TerminalProps.thy ===== *)
theory TerminalProps
  imports Terminal Reaper
begin

text \<open>
  What the terminal transaction guarantees: one ending per job, one charge, one announcement, and
  a record and an announcement that agree - under any interleaving of finalizes, cancels, lease and
  status operations and outbox drains.
\<close>

section \<open>Endings stay\<close>

definition ending_kept :: "SimulationJob \<Rightarrow> SimulationJob \<Rightarrow> bool" where
  "ending_kept r r' \<longleftrightarrow>
     (status r \<in> TERMINAL_STATES \<longrightarrow> status r' = status r \<and> final_result r' = final_result r)"

definition jobs_kept :: "jobs \<Rightarrow> jobs \<Rightarrow> bool" where
  "jobs_kept t t' \<longleftrightarrow>
     (\<forall>k r. map_of t k = Some r \<longrightarrow> (\<exists>r'. map_of t' k = Some r' \<and> ending_kept r r'))"

lemma ending_kept_refl [simp, intro]: "ending_kept r r"
  by (simp add: ending_kept_def)

lemma jobs_kept_refl [simp, intro]: "jobs_kept t t"
  by (auto simp: jobs_kept_def)

lemma ending_kept_trans: "ending_kept a b \<Longrightarrow> ending_kept b c \<Longrightarrow> ending_kept a c"
  by (auto simp: ending_kept_def)

lemma jobs_kept_trans: "jobs_kept a b \<Longrightarrow> jobs_kept b c \<Longrightarrow> jobs_kept a c"
  unfolding jobs_kept_def by (meson ending_kept_trans)

lemma jobs_kept_put: "map_of t i = Some r \<Longrightarrow> ending_kept r r' \<Longrightarrow> jobs_kept t (put i r' t)"
  by (auto simp: jobs_kept_def)

lemma jobs_kept_cas:
  "(\<And>r. P r \<Longrightarrow> ending_kept r (f r)) \<Longrightarrow> jobs_kept t (snd (cas t i P f))"
  by (auto simp: cas_def intro: jobs_kept_put split: option.splits)

lemma claim_kept: "jobs_kept (w_jobs w) (w_jobs (snd (claim_execution fp w i tok b x now ls ts rc)))"
  by (auto simp: claim_execution_def Let_def claim_guard_None ending_kept_def status_sets
      intro!: jobs_kept_put split: option.splits prod.splits)

lemma beat_kept: "jobs_kept (w_jobs w) (w_jobs (snd (heartbeat fp w own now ls ext rc1 rc2)))"
  by (cases "map_of (w_jobs w) (own_job_id own)")
     (auto simp: heartbeat_def Let_def ending_kept_def intro!: jobs_kept_put split: option.splits)

lemma release_kept: "jobs_kept (w_jobs w) (w_jobs (release fp w own now rc))"
  by (cases "map_of (w_jobs w) (own_job_id own)")
     (auto simp: release_def Let_def ending_kept_def intro!: jobs_kept_put)

lemma evict_kept: "jobs_kept (w_jobs w) (w_jobs (snd (evict_owner fp w i now rc)))"
  by (cases "map_of (w_jobs w) i")
     (auto simp: evict_owner_def Let_def ending_kept_def intro!: jobs_kept_put split: option.splits)

lemma hand_back_kept: "jobs_kept (w_jobs w) (w_jobs (snd (hand_back fp w own now rc)))"
  by (simp add: hand_back_def Let_def split_beta)
     (rule jobs_kept_cas, simp add: ending_kept_def status_sets)

lemma confirm_kept: "jobs_kept (w_jobs w) (w_jobs (snd (confirm_requeued w i a now)))"
  by (simp add: confirm_requeued_def Let_def split_beta)
     (rule jobs_kept_cas, simp add: ending_kept_def)

lemma move_kept: "transition t i target None now = Some (res, t') \<Longrightarrow> jobs_kept t t'"
  using terminal_not_source
  by (auto simp: transition_default ending_kept_def intro!: jobs_kept_put
      split: option.splits if_splits)

lemma launched_kept: "jobs_kept t (mark_launched t i b now)"
  unfolding mark_launched_def by (rule jobs_kept_cas) (simp add: ending_kept_def)

lemma launch_failed_kept: "jobs_kept t (mark_launch_failed t i e now)"
proof (cases "map_of t i")
  case (Some r)
  then show ?thesis
    using terminal_not_source [of "status r" JS_failed]
    by (auto simp: mark_launch_failed_def cas_def ending_kept_def intro!: jobs_kept_put)
qed (simp add: mark_launch_failed_def cas_def)

lemma rerun_kept: "jobs_kept t (reset_for_review_rerun t i s e now)"
  unfolding reset_for_review_rerun_def
  by (rule jobs_kept_cas) (auto simp: ending_kept_def status_sets)

lemmas op_kept = claim_kept beat_kept release_kept evict_kept hand_back_kept confirm_kept
  launched_kept launch_failed_kept rerun_kept

lemma lease_step_kept:
  "(\<forall>i now p. op \<noteq> SetResult i now p) \<Longrightarrow> jobs_kept (w_jobs w) (w_jobs (lease_step fp op w))"
  by (cases op) (auto simp: op_kept on_jobs_def intro: move_kept split: option.splits)

section \<open>The effect of a finalize\<close>

definition fin_job :: "finalize_call \<Rightarrow> uuid" where
  "fin_job c = (case fc_owner c of Some own \<Rightarrow> own_job_id own | None \<Rightarrow> fc_job c)"

definition fin_target :: "finalize_call \<Rightarrow> JobStatus" where
  "fin_target c = fst (intended c)"

definition fin_result :: "finalize_call \<Rightarrow> json_obj" where
  "fin_result c = fst (snd (intended c))"

definition fin_park :: "finalize_call \<Rightarrow> uuid option" where
  "fin_park c = (case fc_review c of ReviewWritten p \<Rightarrow> p | _ \<Rightarrow> None)"

definition fin_key :: "finalize_call \<Rightarrow> dedup_key" where
  "fin_key c = (case fin_park c of None \<Rightarrow> TerminalKey (fin_job c) | Some p \<Rightarrow> ParkKey (fin_job c) p)"

text \<open>The row a finalize leaves behind.\<close>

definition fin_row :: "finalize_call \<Rightarrow> SimulationJob \<Rightarrow> SimulationJob" where
  "fin_row c r =
     (let r1 = timestamps_for (fin_target c) (fc_now c) r;
          r2 = (case fc_reason c of
                  Some fr \<Rightarrow> if fin_target c \<noteq> JS_pending_review then r1\<lparr>failed_reason := Some fr\<rparr> else r1
                | None \<Rightarrow> r1)
      in r2\<lparr>final_result := Some (fin_result c), updated_at := fc_now c\<rparr>)"

lemma put_put: "put i r (put i q t) = put i r t"
  by (induction t) (auto simp: put_def)

lemma cas_true_put: "snd (cas (put i q t) i (\<lambda>_. True) f) = put i (f q) t"
  by (simp add: cas_def put_put)

definition refuses :: "finalize_call \<Rightarrow> 'f ending \<Rightarrow> bool" where
  "refuses c s \<longleftrightarrow>
     (case fc_owner c of Some own \<Rightarrow> lock_current_owner (e_world s) own = None | None \<Rightarrow> False)"

lemma fin_row_sel [simp]:
  "status (fin_row c r) = fin_target c" "final_result (fin_row c r) = Some (fin_result c)"
  "organization_id (fin_row c r) = organization_id r" "job_id (fin_row c r) = job_id r"
  by (auto simp: fin_row_def Let_def split: option.splits)

lemma finalize_fenced:
  "refuses c s \<Longrightarrow> snd (finalize_terminal_atomic st nm orgs c s) = s
     \<and> fo_fenced (fst (finalize_terminal_atomic st nm orgs c s))"
  by (auto simp: finalize_terminal_atomic_def refuses_def Let_def split: option.splits)

lemma finalize_open:
  assumes "\<not> refuses c s"
  shows "case map_of (w_jobs (e_world s)) (fin_job c) of
      None \<Rightarrow> snd (finalize_terminal_atomic st nm orgs c s) = s
        \<and> fo_transition (fst (finalize_terminal_atomic st nm orgs c s)) = Some tr_not_found
    | Some r \<Rightarrow>
        if status r \<notin> legal_sources (fin_target c)
        then snd (finalize_terminal_atomic st nm orgs c s) = s
          \<and> fo_transition (fst (finalize_terminal_atomic st nm orgs c s)) \<noteq> Some applied
        else \<exists>ob. snd (finalize_terminal_atomic st nm orgs c s) =
            \<lparr>e_world = (e_world s)\<lparr>w_jobs := put (fin_job c) (fin_row c r) (w_jobs (e_world s))\<rparr>,
             e_ledger = (if fin_target c \<noteq> JS_pending_review
                         then charge_fail_open st nm orgs (e_ledger s) c (fin_row c r) else e_ledger s),
             e_outbox = ob,
             e_parks = (case fin_park c of None \<Rightarrow> e_parks s
                          | Some p \<Rightarrow> e_parks s @ [\<lparr>park_id = p, park_job = fin_job c, park_closed_by = None\<rparr>])\<rparr>
          \<and> fo_transition (fst (finalize_terminal_atomic st nm orgs c s)) = Some applied
          \<and> (if fin_key c \<in> ob_key ` set (e_outbox s) then ob = e_outbox s
              else \<exists>row. ob = e_outbox s @ [row] \<and> ob_key row = fin_key c \<and> ob_job row = fin_job c
                 \<and> ob_result row = fin_result c \<and> ob_status row = JobStatus_value (fin_target c)
                 \<and> ob_published_at row = None)"
proof (cases "map_of (w_jobs (e_world s)) (fin_job c)")
  case None
  with assms show ?thesis
    by (auto simp: finalize_terminal_atomic_def refuses_def fin_job_def transition_default Let_def
        split: option.splits prod.splits)
next
  case (Some r)
  obtain target res closing fell where int: "intended c = (target, res, closing, fell)"
    by (cases "intended c")
  show ?thesis
  proof (cases "status r \<in> legal_sources target")
    case False
    with assms Some int show ?thesis
      by (auto simp: finalize_terminal_atomic_def refuses_def fin_job_def fin_target_def
          transition_default Let_def split: option.splits)
  next
    case True
    have row: "write_verdict c target res (fin_job c)
        (put (fin_job c) (timestamps_for target (fc_now c) r) (w_jobs (e_world s)))
      = put (fin_job c) (fin_row c r) (w_jobs (e_world s))"
      by (simp add: write_verdict_def set_final_result_def cas_true_put fin_row_def fin_target_def
          fin_result_def int Let_def split: option.splits)
    obtain enq ob where e: "enqueue (e_outbox s) (fc_now c) (fin_job c)
        (case fc_owner c of Some own \<Rightarrow> own_generation own | None \<Rightarrow> 0) (JobStatus_value target) closing res
        (map_option (ParkKey (fin_job c)) (fin_park c)) = (enq, ob)"
      by (cases "enqueue (e_outbox s) (fc_now c) (fin_job c)
        (case fc_owner c of Some own \<Rightarrow> own_generation own | None \<Rightarrow> 0) (JobStatus_value target) closing res
        (map_option (ParkKey (fin_job c)) (fin_park c))")
    have key: "or_else (map_option (ParkKey (fin_job c)) (fin_park c)) (TerminalKey (fin_job c)) = fin_key c"
      by (simp add: fin_key_def split: option.splits)
    have ob: "if fin_key c \<in> ob_key ` set (e_outbox s) then ob = e_outbox s
        else \<exists>row. ob = e_outbox s @ [row] \<and> ob_key row = fin_key c \<and> ob_job row = fin_job c
           \<and> ob_result row = fin_result c \<and> ob_status row = JobStatus_value (fin_target c)
           \<and> ob_published_at row = None"
      using e by (auto simp: enqueue_def Let_def key fin_result_def fin_target_def int split: if_splits)
    have owner: "\<not> (case fc_owner c of Some own \<Rightarrow> lock_current_owner (e_world s) own = None | None \<Rightarrow> False)"
      using assms by (simp add: refuses_def)
    have park: "(case fc_review c of ReviewWritten p \<Rightarrow> p | _ \<Rightarrow> None) = fin_park c"
      by (simp add: fin_park_def)
    have tgt: "fin_target c = target" by (simp add: fin_target_def int)
    have moved: "transition (w_jobs (e_world s)) (fin_job c) target None (fc_now c)
        = Some (applied, put (fin_job c) (timestamps_for target (fc_now c) r) (w_jobs (e_world s)))"
      using Some True by (simp add: transition_default)
    have out: "finalize_terminal_atomic st nm orgs c s =
      (\<lparr>fo_fenced = False, fo_transition = Some applied, fo_status = Some target, fo_enqueued = enq,
        fo_fell_back = fell\<rparr>,
       \<lparr>e_world = (e_world s)\<lparr>w_jobs := put (fin_job c) (fin_row c r) (w_jobs (e_world s))\<rparr>,
        e_ledger = (if target \<noteq> JS_pending_review
                    then charge_fail_open st nm orgs (e_ledger s) c (fin_row c r) else e_ledger s),
        e_outbox = ob,
        e_parks = (case fin_park c of None \<Rightarrow> e_parks s
                     | Some p \<Rightarrow> e_parks s @ [\<lparr>park_id = p, park_job = fin_job c, park_closed_by = None\<rparr>])\<rparr>)"
      unfolding finalize_terminal_atomic_def Let_def fin_job_def [symmetric] if_not_P [OF owner] int
        prod.case moved option.case park
      using e row by simp
    show ?thesis
      using Some True ob unfolding out by (simp add: tgt)
  qed
qed

text \<open>
  What the terminal transaction writes. A worker whose ownership no longer holds writes nothing.
  Otherwise the status moves only from a legal source, and then the row, the charge and the
  announcement are written together: the row carries the verdict, the ledger the charge of that row
  (none for a park), and the outbox exactly one row under the job's key with the same verdict and
  status - or the one already there. In every other case the whole state is unchanged.
\<close>

theorem finalize_effect:
  "if refuses c s
   then snd (finalize_terminal_atomic st nm orgs c s) = s
     \<and> fo_fenced (fst (finalize_terminal_atomic st nm orgs c s))
   else case map_of (w_jobs (e_world s)) (fin_job c) of
      None \<Rightarrow> snd (finalize_terminal_atomic st nm orgs c s) = s
        \<and> fo_transition (fst (finalize_terminal_atomic st nm orgs c s)) = Some tr_not_found
    | Some r \<Rightarrow>
        if status r \<notin> legal_sources (fin_target c)
        then snd (finalize_terminal_atomic st nm orgs c s) = s
          \<and> fo_transition (fst (finalize_terminal_atomic st nm orgs c s)) \<noteq> Some applied
        else \<exists>ob. snd (finalize_terminal_atomic st nm orgs c s) =
            \<lparr>e_world = (e_world s)\<lparr>w_jobs := put (fin_job c) (fin_row c r) (w_jobs (e_world s))\<rparr>,
             e_ledger = (if fin_target c \<noteq> JS_pending_review
                         then charge_fail_open st nm orgs (e_ledger s) c (fin_row c r) else e_ledger s),
             e_outbox = ob,
             e_parks = (case fin_park c of None \<Rightarrow> e_parks s
                          | Some p \<Rightarrow> e_parks s @ [\<lparr>park_id = p, park_job = fin_job c, park_closed_by = None\<rparr>])\<rparr>
          \<and> fo_transition (fst (finalize_terminal_atomic st nm orgs c s)) = Some applied
          \<and> (if fin_key c \<in> ob_key ` set (e_outbox s) then ob = e_outbox s
              else \<exists>row. ob = e_outbox s @ [row] \<and> ob_key row = fin_key c \<and> ob_job row = fin_job c
                 \<and> ob_result row = fin_result c \<and> ob_status row = JobStatus_value (fin_target c)
                 \<and> ob_published_at row = None)"
proof (cases "refuses c s")
  case True
  then show ?thesis unfolding if_P [OF True] by (rule finalize_fenced)
next
  case False
  then show ?thesis unfolding if_not_P [OF False] by (rule finalize_open)
qed

section \<open>The outbox drain\<close>

definition ob_fact :: "outbox_row \<Rightarrow> dedup_key \<times> uuid \<times> string \<times> json_obj" where
  "ob_fact r = (ob_key r, ob_job r, ob_status r, ob_result r)"

lemma marks_keep_facts [simp]:
  "map ob_fact (mark_published ob k now) = map ob_fact ob"
  "map ob_fact (record_failure ob k err) = map ob_fact ob"
  by (simp_all add: mark_published_def record_failure_def ob_fact_def)

lemma publish_rows_facts:
  "publish_rows sends now ks ob = (p, f, ob') \<Longrightarrow> map ob_fact ob' = map ob_fact ob"
  by (induction ks arbitrary: ob p f) (fastforce split: option.splits prod.splits)+

lemma drain_keeps_facts:
  "map ob_fact (snd (publish_pending sends locked limit job now committed ob)) = map ob_fact ob"
  by (auto simp: publish_pending_def claim_pending_def Let_def ob_fact_def
      split: prod.splits dest!: publish_rows_facts)

text \<open>What the drain does to the pending flag of a row: by key, and keys are unique.\<close>

definition pending :: "outbox \<Rightarrow> dedup_key \<Rightarrow> bool" where
  "pending ob k \<longleftrightarrow> (\<exists>r \<in> set ob. ob_key r = k \<and> ob_published_at r = None)"

lemma pending_simps [simp]:
  "\<not> pending [] k"
  "pending (r # ob) k \<longleftrightarrow> (ob_key r = k \<and> ob_published_at r = None) \<or> pending ob k"
  by (simp_all add: pending_def)

lemma pending_publish: "pending (mark_published ob k now) j \<longleftrightarrow> pending ob j \<and> j \<noteq> k"
  unfolding mark_published_def by (induction ob) (simp_all split: if_split, blast)

lemma pending_failure: "pending (record_failure ob k err) j \<longleftrightarrow> pending ob j"
  unfolding record_failure_def by (induction ob) simp_all

lemma pending_claim: "pending (snd (claim_pending ob locked limit job now)) j \<longleftrightarrow> pending ob j"
proof -
  have "pending (map (\<lambda>r. if ob_key r \<in> K then r\<lparr>ob_locked_at := Some now,
      ob_attempts := ob_attempts r + 1\<rparr> else r) rows) j \<longleftrightarrow> pending rows j" for K rows
    by (induction rows) simp_all
  then show ?thesis by (simp add: claim_pending_def Let_def)
qed

lemma publish_rows_pending:
  "publish_rows sends now ks ob = (p, f, ob') \<Longrightarrow>
     pending ob' j \<longleftrightarrow> pending ob j \<and> \<not> (j \<in> set ks \<and> sends j = None)"
proof (induction ks arbitrary: ob p f)
  case (Cons k ks)
  show ?case
  proof (cases "sends k")
    case None
    then obtain p0 where "publish_rows sends now ks (mark_published ob k now) = (p0, f, ob')"
      using Cons.prems by (simp split: prod.splits)
    from Cons.IH [OF this] None show ?thesis by (cases "j = k") (simp_all add: pending_publish)
  next
    case (Some err)
    then obtain f0 where "publish_rows sends now ks (record_failure ob k err) = (p, f0, ob')"
      using Cons.prems by (simp split: prod.splits)
    from Cons.IH [OF this] Some show ?thesis by (cases "j = k") (simp_all add: pending_failure)
  qed
qed simp

text \<open>
  C33: a terminal event is never lost and never sent for a row that is already published. A drain
  whose commit fails leaves the outbox as it was. After a committed one, a pending row has become
  published exactly if the drain claimed it and its strict publish went through, and every other
  pending row is still pending; the drain claims pending rows only, none that another drain holds,
  and with room in the batch it claims all of those.
\<close>

theorem outbox_at_least_once:
  "let ks = fst (claim_pending ob locked limit job now);
       ob' = snd (publish_pending sends locked limit job now committed ob)
   in (pending ob' k \<longleftrightarrow> pending ob k \<and> \<not> (committed \<and> k \<in> set ks \<and> sends k = None))
      \<and> (k \<in> set ks \<longrightarrow> pending ob k \<and> k \<notin> locked)
      \<and> (length ob \<le> limit \<and> job = None \<and> pending ob k \<and> k \<notin> locked \<longrightarrow> k \<in> set ks)"
proof -
  let ?sel = "filter (\<lambda>r. ob_published_at r = None \<and> ob_key r \<notin> locked
     \<and> (case job of None \<Rightarrow> True | Some i \<Rightarrow> ob_job r = i)) ob"
  have len: "length ?sel \<le> length ob" by (rule length_filter_le)
  have sub: "set (take limit (sort_key ob_created_at ?sel)) \<subseteq> set ?sel"
    using set_take_subset [of limit "sort_key ob_created_at ?sel"] by (simp only: set_sort)
  obtain p f ob2 where pr: "publish_rows sends now (fst (claim_pending ob locked limit job now))
      (snd (claim_pending ob locked limit job now)) = (p, f, ob2)"
    by (cases "publish_rows sends now (fst (claim_pending ob locked limit job now))
      (snd (claim_pending ob locked limit job now))")
  have after: "snd (publish_pending sends locked limit job now committed ob) = (if committed then ob2 else ob)"
    using pr by (simp add: publish_pending_def split_beta)
  have ks: "set (fst (claim_pending ob locked limit job now))
      = ob_key ` set (take limit (sort_key ob_created_at ?sel))"
    by (simp add: claim_pending_def Let_def)
  have sel: "k \<in> ob_key ` set ?sel \<Longrightarrow> pending ob k \<and> k \<notin> locked"
    unfolding pending_def by (elim imageE) (simp only: set_filter mem_Collect_eq, blast)
  have claims: "k \<in> set (fst (claim_pending ob locked limit job now)) \<longrightarrow> pending ob k \<and> k \<notin> locked"
    unfolding ks using sel image_mono [OF sub, of ob_key] by (intro impI) (rule sel, rule subsetD)
  have all: "k \<in> set (fst (claim_pending ob locked limit job now))"
    if h: "length ob \<le> limit \<and> job = None \<and> pending ob k \<and> k \<notin> locked"
  proof -
    obtain r where "r \<in> set ob" "ob_key r = k" "ob_published_at r = None"
      using h by (auto simp only: pending_def)
    then have "r \<in> set ?sel" using h by simp
    moreover have "take limit (sort_key ob_created_at ?sel) = sort_key ob_created_at ?sel"
      using le_trans [OF len] h by (intro take_all) (simp only: length_sort)
    ultimately have "r \<in> set (take limit (sort_key ob_created_at ?sel))"
      by (simp only: set_sort)
    then show ?thesis unfolding ks \<open>ob_key r = k\<close> [symmetric] by (rule imageI)
  qed
  have effect: "pending (if committed then ob2 else ob) k \<longleftrightarrow> pending ob k
      \<and> \<not> (committed \<and> k \<in> set (fst (claim_pending ob locked limit job now)) \<and> sends k = None)"
    using publish_rows_pending [OF pr, of k] pending_claim [of ob locked limit job now k]
    by (cases committed) (simp_all only: if_True if_False simp_thms)
  show ?thesis
    unfolding Let_def after using effect claims all by (intro conjI) (assumption | rule impI)+
qed

definition demo_row :: outbox_row where
  "demo_row = \<lparr>ob_job = 3, ob_generation = 1, ob_status = ''succeeded'', ob_closing = ''done'',
     ob_result = [], ob_key = TerminalKey 3, ob_created_at = 0, ob_attempts = 0, ob_error = None,
     ob_published_at = None, ob_locked_at = None\<rparr>"

theorem outbox_at_least_once_witness:
  "\<not> pending (snd (publish_pending (\<lambda>_. None) {} 50 None 9 True [demo_row])) (TerminalKey 3)
   \<and> pending (snd (publish_pending (\<lambda>_. Some ''RedisError'') {} 50 None 9 True [demo_row])) (TerminalKey 3)"
proof -
  have p: "pending [demo_row] (TerminalKey 3)" by (simp add: demo_row_def)
  note use = outbox_at_least_once [of "[demo_row]" "{}" 50 None 9 _ True "TerminalKey 3", unfolded Let_def]
  show ?thesis
    using use [of "\<lambda>_. None"] use [of "\<lambda>_. Some ''RedisError''"] p
    by (simp only: list.size simp_thms empty_iff option.distinct)
qed

section \<open>Every way a job's ending is touched\<close>

datatype ending_op =
    Finalize finalize_call
  | Cancel uuid string string string datetime redis_call
  | LeaseOp lease_op
  | Reap bool datetime uuid SimulationJob
  | Drain "dedup_key \<Rightarrow> string option" "dedup_key set" nat "uuid option" datetime bool

record 'f ending_env =
  en_settings :: settings
  en_name :: "uuid \<Rightarrow> string"
  en_orgs :: orgs
  en_fp :: "'f fingerprint"
  en_parse :: "string \<Rightarrow> uuid option"
  en_render :: "SimulationJob \<Rightarrow> json_obj \<times> string"
  en_reaped :: "bool \<Rightarrow> SimulationJob \<Rightarrow> json_obj"

fun ending_step :: "'f ending_env \<Rightarrow> ending_op \<Rightarrow> 'f ending \<Rightarrow> 'f ending" where
  "ending_step en (Finalize c) s =
     snd (finalize_terminal_atomic (en_settings en) (en_name en) (en_orgs en) c s)"
| "ending_step en (Cancel i owner organization reason now rc) s =
     (case cancel_job (en_fp en) (en_parse en) (en_render en) i owner organization reason now rc s of
        None \<Rightarrow> s | Some (_, s') \<Rightarrow> s')"
| "ending_step en (LeaseOp op) s = s\<lparr>e_world := lease_step (en_fp en) op (e_world s)\<rparr>"
| "ending_step en (Reap can now i seen) s =
     s\<lparr>e_world := (e_world s)\<lparr>w_jobs := snd (reap_one (en_reaped en) can now i seen (w_jobs (e_world s)))\<rparr>\<rparr>"
| "ending_step en (Drain sends locked limit job now committed) s =
     s\<lparr>e_outbox := snd (publish_pending sends locked limit job now committed (e_outbox s))\<rparr>"

definition ending_run :: "'f ending_env \<Rightarrow> ending_op list \<Rightarrow> 'f ending \<Rightarrow> 'f ending" where
  "ending_run en ops s = fold (ending_step en) ops s"

text \<open>
  How the code calls them: a verdict is written only by the operations here, a finalize that is not
  a park carries a terminal status, a park is announced under its own key, and the sweep was shown a
  job in an active state.
\<close>

fun proper :: "ending_op \<Rightarrow> bool" where
  "proper (Finalize c) = (fin_park c = None \<longrightarrow> fin_target c \<in> TERMINAL_STATES)"
| "proper (LeaseOp (SetResult i now p)) = False"
| "proper (Reap can now i seen) = (status seen \<in> ACTIVE_STATES)"
| "proper _ = True"

definition ended :: "'f ending \<Rightarrow> uuid \<Rightarrow> JobStatus \<Rightarrow> json_obj option \<Rightarrow> bool" where
  "ended s i x res \<longleftrightarrow>
     (\<exists>r. map_of (w_jobs (e_world s)) i = Some r \<and> status r = x \<and> x \<in> TERMINAL_STATES
        \<and> final_result r = res)"

definition agreed :: "'f ending \<Rightarrow> bool" where
  "agreed s \<longleftrightarrow>
     distinct (map ob_key (e_outbox s)) \<and>
     (\<forall>(k, j, x, res) \<in> ob_fact ` set (e_outbox s). \<forall>i. k = TerminalKey i \<longrightarrow>
        (\<exists>y. ended s i y (Some res) \<and> x = JobStatus_value y))"

lemma cancel_cases:
  "(\<exists>res. cancel_job fp pu render i owner organization reason now rc s = Some (res, s)
      \<and> (\<forall>r. lock_for_owner pu (w_jobs (e_world s)) i owner organization = Some r \<longrightarrow>
           status r \<in> TERMINAL_STATES \<and> fst res \<in> {already_cancelled, already_finished}))
   \<or> (\<exists>r r1 w1 parks ob f reasn.
        map_of (w_jobs (e_world s)) i = Some r \<and> status r \<notin> TERMINAL_STATES
        \<and> status r1 = JS_cancelled \<and> active_worker_token r1 = None
        \<and> final_result r1 = Some (fst (render f))
        \<and> w_jobs w1 = put i r1 (w_jobs (e_world s))
        \<and> ob = snd (enqueue (e_outbox s) now i (execution_generation r) (JobStatus_value JS_cancelled)
                 (snd (render f)) (fst (render f)) None)
        \<and> cancel_job fp pu render i owner organization reason now rc s
            = Some ((cr_cancelled, Some JS_cancelled, reasn),
                    \<lparr>e_world = w1, e_ledger = e_ledger s, e_outbox = ob, e_parks = parks\<rparr>))"
proof (cases "lock_for_owner pu (w_jobs (e_world s)) i owner organization")
  case None
  then show ?thesis by (simp add: cancel_job_def Let_def)
next
  case (Some r)
  then have row: "map_of (w_jobs (e_world s)) i = Some r"
    by (auto simp: lock_for_owner_def split: option.splits if_splits)
  show ?thesis
  proof (cases "status r \<in> TERMINAL_STATES")
    case True
    have "cancel_job fp pu render i owner organization reason now rc s =
      Some (if status r = JS_cancelled then (already_cancelled, Some JS_cancelled, cancel_reason r)
            else (already_finished, Some (status r), None), s)"
      using Some True by (simp add: cancel_job_def Let_def)
    with Some True show ?thesis by (intro disjI1 exI conjI) (assumption, auto)
  next
    case False
    then have legal: "status r \<in> legal_sources JS_cancelled"
      by (cases "status r") (auto simp: status_sets)
    have neq: "status r \<noteq> JS_cancelled" using False by (auto simp: status_sets)
    obtain ev w1 where e: "evict_owner fp (e_world s) i now rc = (ev, w1)"
      by (cases "evict_owner fp (e_world s) i now rc")
    obtain q where q: "w_jobs w1 = (if active_worker_token r = None then w_jobs (e_world s) else put i q (w_jobs (e_world s)))"
      "q = r\<lparr>active_worker_token := None, lease_expires_at := Some now, updated_at := now\<rparr>"
      using e row by (auto simp: evict_owner_def split: option.splits)
    define r0 where "r0 = (if active_worker_token r = None then r else q)"
    have r0: "map_of (w_jobs w1) i = Some r0" "status r0 = status r" "active_worker_token r0 = None"
      using q row by (simp_all add: r0_def)
    have jobs1: "put i x (w_jobs w1) = put i x (w_jobs (e_world s))" for x
      using q by (simp add: put_put)
    have moved: "transition (w_jobs w1) i JS_cancelled None now
        = Some (applied, put i (timestamps_for JS_cancelled now r0) (w_jobs (e_world s)))"
      using r0 legal by (simp add: transition_default jobs1)
    define f where "f = (timestamps_for JS_cancelled now r0)
      \<lparr>cancel_reason := nonempty_or_none (take REASON_MAX (strip reason))\<rparr>"
    define r1 where "r1 = f\<lparr>final_result := Some (fst (render f)), updated_at := now\<rparr>"
    have fin: "status r1 = JS_cancelled" "active_worker_token r1 = None"
      "final_result r1 = Some (fst (render f))"
      using r0 by (simp_all add: r1_def f_def)
    have out: "\<exists>parks. cancel_job fp pu render i owner organization reason now rc s =
        Some ((cr_cancelled, Some JS_cancelled, nonempty_or_none (take REASON_MAX (strip reason))),
          \<lparr>e_world = w1\<lparr>w_jobs := put i r1 (w_jobs (e_world s))\<rparr>, e_ledger = e_ledger s,
           e_outbox = snd (enqueue (e_outbox s) now i (execution_generation r)
              (JobStatus_value JS_cancelled) (snd (render f)) (fst (render f)) None),
           e_parks = parks\<rparr>)"
      using Some False neq row r0
      by (simp add: cancel_job_def Let_def e moved cas_true_put set_final_result_def f_def r1_def)
    then show ?thesis
      using row False fin by (intro disjI2) (elim exE, intro exI conjI; (assumption | simp))
  qed
qed

lemma cancel_kept:
  "cancel_job fp pu render i owner organization reason now rc s = Some (res, s')
     \<Longrightarrow> jobs_kept (w_jobs (e_world s)) (w_jobs (e_world s'))"
  using cancel_cases [of fp pu render i owner organization reason now rc s]
  by (auto simp: ending_kept_def intro!: jobs_kept_put)

lemma finalize_kept:
  "jobs_kept (w_jobs (e_world s)) (w_jobs (e_world (snd (finalize_terminal_atomic st nm orgs c s))))"
proof (cases "refuses c s")
  case True
  then show ?thesis by (simp add: finalize_fenced)
next
  case False
  note fin = finalize_open [OF False, of st nm orgs]
  show ?thesis
  proof (cases "map_of (w_jobs (e_world s)) (fin_job c)")
    case None
    with fin show ?thesis by simp
  next
    case (Some r)
    show ?thesis
    proof (cases "status r \<in> legal_sources (fin_target c)")
      case True
      then have "w_jobs (e_world (snd (finalize_terminal_atomic st nm orgs c s)))
          = put (fin_job c) (fin_row c r) (w_jobs (e_world s))"
        using fin Some by auto
      moreover have "ending_kept r (fin_row c r)"
        using True terminal_not_source by (auto simp: ending_kept_def)
      ultimately show ?thesis using Some by (simp add: jobs_kept_put)
    next
      case illegal: False
      with fin Some show ?thesis by simp
    qed
  qed
qed

lemma reap_kept:
  "status seen \<in> ACTIVE_STATES \<Longrightarrow> jobs_kept t (snd (reap_one render can now i seen t))"
  by (auto simp: reap_one_def Let_def split_beta ending_kept_def status_sets intro!: jobs_kept_cas)

lemma ending_step_kept:
  "proper op \<Longrightarrow> jobs_kept (w_jobs (e_world s)) (w_jobs (e_world (ending_step en op s)))"
proof (cases op)
  case (LeaseOp lop)
  moreover assume "proper op"
  ultimately have "\<forall>i now p. lop \<noteq> SetResult i now p" by (cases lop) auto
  with LeaseOp show ?thesis by (simp add: lease_step_kept)
qed (auto intro: cancel_kept finalize_kept reap_kept split: option.splits prod.splits)

lemma ending_run_kept:
  "\<forall>op \<in> set ops. proper op \<Longrightarrow>
     jobs_kept (w_jobs (e_world s)) (w_jobs (e_world (ending_run en ops s)))"
proof (induction ops arbitrary: s)
  case (Cons op ops)
  then show ?case
    using jobs_kept_trans [OF ending_step_kept, of op en s] by (simp add: ending_run_def)
qed (simp add: ending_run_def)

lemma ended_kept:
  "jobs_kept (w_jobs (e_world s)) (w_jobs (e_world s')) \<Longrightarrow> ended s i x res \<Longrightarrow> ended s' i x res"
  unfolding ended_def jobs_kept_def ending_kept_def by metis

section \<open>The record and the announcement\<close>

lemma agreed_facts:
  "agreed s \<longleftrightarrow> distinct (map fst (map ob_fact (e_outbox s)))
     \<and> (\<forall>(k, j, x, res) \<in> set (map ob_fact (e_outbox s)). \<forall>i. k = TerminalKey i \<longrightarrow>
          (\<exists>y. ended s i y (Some res) \<and> x = JobStatus_value y))"
  by (simp add: agreed_def ob_fact_def comp_def)

lemma agreed_same_outbox:
  "agreed s \<Longrightarrow> map ob_fact (e_outbox s') = map ob_fact (e_outbox s)
     \<Longrightarrow> jobs_kept (w_jobs (e_world s)) (w_jobs (e_world s')) \<Longrightarrow> agreed s'"
  unfolding agreed_facts using ended_kept by (auto simp: split_beta) (blast+)?

lemma agreed_new_row:
  assumes "agreed s" "jobs_kept (w_jobs (e_world s)) (w_jobs (e_world s'))"
    "e_outbox s' = e_outbox s @ [row]" "ob_key row \<notin> ob_key ` set (e_outbox s)"
    "\<And>i. ob_key row = TerminalKey i \<Longrightarrow>
       \<exists>y. ended s' i y (Some (ob_result row)) \<and> ob_status row = JobStatus_value y"
  shows "agreed s'"
  using assms ended_kept [OF assms(2)] unfolding agreed_def
  by (auto simp: ob_fact_def) (blast+)?

lemma agreed_finalize:
  assumes "agreed s" "fin_park c = None \<longrightarrow> fin_target c \<in> TERMINAL_STATES"
  shows "agreed (snd (finalize_terminal_atomic st nm orgs c s))"
proof (cases "refuses c s")
  case True
  with assms show ?thesis by (simp add: finalize_fenced)
next
  case False
  let ?s' = "snd (finalize_terminal_atomic st nm orgs c s)"
  note kept = finalize_kept [of s st nm orgs c]
  show ?thesis
  proof (cases "map_of (w_jobs (e_world s)) (fin_job c)")
    case None
    with finalize_open [OF False, of st nm orgs] assms show ?thesis by simp
  next
    case (Some r)
    show ?thesis
    proof (cases "status r \<in> legal_sources (fin_target c)")
      case illegal: False
      with finalize_open [OF False, of st nm orgs] Some assms show ?thesis by simp
    next
      case True
      then obtain ob where ob: "e_outbox ?s' = ob"
        "map_of (w_jobs (e_world ?s')) (fin_job c) = Some (fin_row c r)"
        "if fin_key c \<in> ob_key ` set (e_outbox s) then ob = e_outbox s
         else \<exists>row. ob = e_outbox s @ [row] \<and> ob_key row = fin_key c \<and> ob_job row = fin_job c
            \<and> ob_result row = fin_result c \<and> ob_status row = JobStatus_value (fin_target c)
            \<and> ob_published_at row = None"
        using finalize_open [OF False, of st nm orgs] Some by auto
      show ?thesis
      proof (cases "fin_key c \<in> ob_key ` set (e_outbox s)")
        case old: True
        then show ?thesis using ob by (intro agreed_same_outbox [OF assms(1) _ kept]) simp
      next
        case new: False
        then obtain row where row: "e_outbox ?s' = e_outbox s @ [row]" "ob_key row = fin_key c"
          "ob_result row = fin_result c" "ob_status row = JobStatus_value (fin_target c)"
          using ob by auto
        show ?thesis
        proof (rule agreed_new_row [OF assms(1) kept row(1)])
          show "ob_key row \<notin> ob_key ` set (e_outbox s)" using new row by simp
        next
          fix i assume "ob_key row = TerminalKey i"
          then have "fin_park c = None" "i = fin_job c"
            using row by (auto simp: fin_key_def split: option.splits)
          with assms(2) ob(2) show "\<exists>y. ended ?s' i y (Some (ob_result row))
              \<and> ob_status row = JobStatus_value y"
            by (intro exI [of _ "fin_target c"]) (simp add: ended_def row)
        qed
      qed
    qed
  qed
qed

lemma agreed_cancel:
  assumes "agreed s" "cancel_job fp pu render i owner organization reason now rc s = Some (res, s')"
  shows "agreed s'"
  using cancel_cases [of fp pu render i owner organization reason now rc s]
proof (elim disjE exE conjE)
  fix res' assume "cancel_job fp pu render i owner organization reason now rc s = Some (res', s)"
  with assms show ?thesis by simp
next
  fix r r1 w1 parks ob f reasn
  assume r1: "status r1 = JS_cancelled" "final_result r1 = Some (fst (render f))"
    "w_jobs w1 = put i r1 (w_jobs (e_world s))"
    and ob: "ob = snd (enqueue (e_outbox s) now i (execution_generation r) (JobStatus_value JS_cancelled)
        (snd (render f)) (fst (render f)) None)"
    and c: "cancel_job fp pu render i owner organization reason now rc s
      = Some ((cr_cancelled, Some JS_cancelled, reasn),
              \<lparr>e_world = w1, e_ledger = e_ledger s, e_outbox = ob, e_parks = parks\<rparr>)"
  have s': "e_outbox s' = ob" "w_jobs (e_world s') = put i r1 (w_jobs (e_world s))"
    using c r1 assms(2) by auto
  note kept = cancel_kept [OF assms(2)]
  show ?thesis
  proof (cases "TerminalKey i \<in> ob_key ` set (e_outbox s)")
    case True
    then show ?thesis
      using s' ob by (intro agreed_same_outbox [OF assms(1) _ kept]) (simp add: enqueue_def Let_def)
  next
    case False
    then show ?thesis
      using s' ob r1
      by (intro agreed_new_row [OF assms(1) kept])
         (auto simp: enqueue_def Let_def ended_def status_sets)
  qed
qed

lemma agreed_step:
  assumes "proper op" "agreed s"
  shows "agreed (ending_step en op s)"
proof (cases op)
  case (Finalize c)
  with assms show ?thesis by (simp add: agreed_finalize)
next
  case (Cancel i owner organization reason now rc)
  with assms agreed_cancel show ?thesis by (auto split: option.splits)
next
  case (LeaseOp lop)
  with assms agreed_same_outbox [of s "ending_step en op s"] ending_step_kept [of op s en]
  show ?thesis by simp
next
  case (Reap can now i seen)
  with assms agreed_same_outbox [of s "ending_step en op s"] ending_step_kept [of op s en]
  show ?thesis by simp
next
  case (Drain sends locked limit job now committed)
  show ?thesis unfolding Drain
    by (rule agreed_same_outbox [of s]) (simp_all add: drain_keeps_facts assms)
qed

lemma agreed_run: "\<forall>op \<in> set ops. proper op \<Longrightarrow> agreed s \<Longrightarrow> agreed (ending_run en ops s)"
  by (induction ops arbitrary: s) (simp_all add: ending_run_def agreed_step)


text \<open>
  C32: the durable record and the announcement agree. Whatever interleaving of finalizes, owner
  cancels, claims, heartbeats, releases, evictions, reaper steps and outbox drains runs from an empty
  outbox, each job has at most one terminal row in it, and that row announces exactly the terminal
  status and the final result the job row carries.
\<close>

theorem record_and_announcement_agree:
  assumes "\<forall>op \<in> set ops. proper op" "e_outbox s = []" "s' = ending_run en ops s"
  shows "distinct (map ob_key (e_outbox s')) \<and>
    (\<forall>row \<in> set (e_outbox s'). \<forall>i. ob_key row = TerminalKey i \<longrightarrow>
       (\<exists>r. map_of (w_jobs (e_world s')) i = Some r \<and> status r \<in> TERMINAL_STATES
         \<and> ob_status row = JobStatus_value (status r) \<and> final_result r = Some (ob_result row)))"
proof -
  have start: "agreed s" using assms(2) by (simp add: agreed_def)
  have ok: "agreed s'" unfolding assms(3) by (rule agreed_run [OF assms(1) start])
  show ?thesis
  proof (intro conjI ballI allI impI)
    show "distinct (map ob_key (e_outbox s'))" using ok by (simp add: agreed_def)
  next
    fix row i assume "row \<in> set (e_outbox s')" "ob_key row = TerminalKey i"
    with ok obtain y where "ended s' i y (Some (ob_result row))" "ob_status row = JobStatus_value y"
      by (force simp: agreed_def ob_fact_def)
    then show "\<exists>r. map_of (w_jobs (e_world s')) i = Some r \<and> status r \<in> TERMINAL_STATES
         \<and> ob_status row = JobStatus_value (status r) \<and> final_result r = Some (ob_result row)"
      by (auto simp: ended_def)
  qed
qed

definition demo_env :: "(uuid \<times> int \<times> uuid) ending_env" where
  "demo_env = \<lparr>en_settings = demo_settings, en_name = (\<lambda>_. ''job''), en_orgs = demo_orgs,
     en_fp = demo_fp, en_parse = (\<lambda>_. None), en_render = (\<lambda>_. ([], ''cancelled'')),
     en_reaped = (\<lambda>_ _. [])\<rparr>"

definition demo_ending :: "(uuid \<times> int \<times> uuid) ending" where
  "demo_ending = \<lparr>e_world = demo_world, e_ledger = [], e_outbox = [], e_parks = []\<rparr>"

definition demo_owner_cancel :: ending_op where
  "demo_owner_cancel = Cancel 3 [] [] ''stop'' 9 RFailed"

section \<open>One ending\<close>

lemma ended_finalize:
  assumes "ended s i x res" "fin_job c = i"
  shows "snd (finalize_terminal_atomic st nm orgs c s) = s"
proof (cases "refuses c s")
  case True
  then show ?thesis by (simp add: finalize_fenced)
next
  case False
  obtain r where "map_of (w_jobs (e_world s)) (fin_job c) = Some r" "status r \<in> TERMINAL_STATES"
    using assms by (auto simp: ended_def)
  with finalize_open [OF False, of st nm orgs] terminal_not_source [of "status r" "fin_target c"]
  show ?thesis by simp
qed

lemma ended_cancel:
  assumes "ended s i x res"
  shows "ending_step en (Cancel i owner organization reason now rc) s = s"
  using cancel_cases [of "en_fp en" "en_parse en" "en_render en" i owner organization reason now rc s]
    assms
  by (auto simp: ended_def)

text \<open>
  C31: a job ends once. Once its row is terminal, no sequence of the operations changes its status or
  its final result, and a later finalize of it - by whichever worker, with whatever verdict - and a
  later cancel write nothing at all: no second verdict, no second charge, no second announcement.
\<close>

theorem one_ending:
  assumes "ended s i x res" "\<forall>op \<in> set ops. proper op" "s' = ending_run en ops s"
  shows "ended s' i x res \<and> (\<forall>c. fin_job c = i \<longrightarrow> ending_step en (Finalize c) s' = s')
    \<and> ending_step en (Cancel i owner organization reason now rc) s' = s'"
proof (intro conjI allI impI)
  show e: "ended s' i x res"
    unfolding assms(3) by (rule ended_kept [OF ending_run_kept [OF assms(2)] assms(1)])
  show "ending_step en (Finalize c) s' = s'" if "fin_job c = i" for c
    by (simp add: ended_finalize [OF e that])
  show "ending_step en (Cancel i owner organization reason now rc) s' = s'"
    by (rule ended_cancel [OF e])
qed

lemma demo_after_cancel:
  "ended (ending_step demo_env demo_owner_cancel demo_ending) 3 JS_cancelled (Some [])
   \<and> map ob_key (e_outbox (ending_step demo_env demo_owner_cancel demo_ending)) = [TerminalKey 3]"
  by (simp add: demo_env_def demo_owner_cancel_def demo_ending_def cancel_job_def demo_defs Let_def
      lock_for_owner_def scope_def parsed_organization_id_def status_sets evict_owner_def transition_default cas_def put_def
      set_final_result_def enqueue_def ended_def legal_sources_def)

theorem record_and_announcement_agree_witness:
  "e_outbox (ending_run demo_env [demo_owner_cancel, demo_owner_cancel] demo_ending) \<noteq> []
   \<and> distinct (map ob_key (e_outbox (ending_run demo_env [demo_owner_cancel, demo_owner_cancel] demo_ending)))"
proof -
  have ops: "\<forall>op \<in> set [demo_owner_cancel, demo_owner_cancel]. proper op" by (simp add: demo_owner_cancel_def)
  have start: "e_outbox demo_ending = []" by (simp add: demo_ending_def)
  have same: "ending_run demo_env [demo_owner_cancel, demo_owner_cancel] demo_ending
      = ending_step demo_env demo_owner_cancel demo_ending"
    using ended_cancel [OF conjunct1 [OF demo_after_cancel]]
    by (simp only: ending_run_def demo_owner_cancel_def fold.simps comp_apply id_apply)
  show ?thesis
    using record_and_announcement_agree [OF ops start refl, of demo_env] demo_after_cancel
    unfolding same by auto
qed

theorem one_ending_witness:
  "ended (ending_run demo_env [demo_owner_cancel] (ending_step demo_env demo_owner_cancel demo_ending)) 3
     JS_cancelled (Some [])"
proof -
  have ops: "\<forall>op \<in> set [demo_owner_cancel]. proper op" by (simp add: demo_owner_cancel_def)
  show ?thesis
    using one_ending [OF conjunct1 [OF demo_after_cancel] ops refl, of demo_env] by blast
qed

section \<open>The owner's cancel\<close>

text \<open>
  What a cancel does. It always returns. A job the caller may not see is not found, a job that
  has ended is left alone and reported as such; any other job is cancelled in one step: the worker is
  evicted so that no ownership of that job passes the fence any more, the verdict is on the row,
  nothing is charged, and the announcement is in the outbox.
\<close>

theorem cancel_settles:
  "case lock_for_owner pu (w_jobs (e_world s)) i owner organization of
     None \<Rightarrow> cancel_job fp pu render i owner organization reason now rc s
       = Some ((cr_not_found, None, None), s)
   | Some r \<Rightarrow>
       if status r \<in> TERMINAL_STATES
       then \<exists>res. cancel_job fp pu render i owner organization reason now rc s = Some (res, s)
         \<and> fst res \<in> {already_cancelled, already_finished}
       else \<exists>res s' r'. cancel_job fp pu render i owner organization reason now rc s = Some (res, s')
         \<and> fst res = cr_cancelled
         \<and> map_of (w_jobs (e_world s')) i = Some r' \<and> status r' = JS_cancelled
         \<and> e_ledger s' = e_ledger s
         \<and> (\<forall>gen tok b d ep ttl. lock_current_owner (e_world s')
              \<lparr>own_job_id = i, own_generation = gen, own_token = tok, own_backend = b,
               own_deadline = d, own_claim_epoch = ep, own_fence_ttl = ttl\<rparr> = None)
         \<and> TerminalKey i \<in> ob_key ` set (e_outbox s')"
proof (cases "lock_for_owner pu (w_jobs (e_world s)) i owner organization")
  case None
  then show ?thesis by (simp add: cancel_job_def Let_def)
next
  case (Some r)
  then have row: "map_of (w_jobs (e_world s)) i = Some r"
    by (auto simp: lock_for_owner_def split: option.splits if_splits)
  show ?thesis
    using cancel_cases [of fp pu render i owner organization reason now rc s]
  proof (elim disjE exE conjE)
    fix res
    assume c: "cancel_job fp pu render i owner organization reason now rc s = Some (res, s)"
      "\<forall>r. lock_for_owner pu (w_jobs (e_world s)) i owner organization = Some r \<longrightarrow>
           status r \<in> TERMINAL_STATES \<and> fst res \<in> {already_cancelled, already_finished}"
    then show ?thesis using Some by simp
  next
    fix q r1 w1 parks ob f reasn
    assume h: "map_of (w_jobs (e_world s)) i = Some q" "status q \<notin> TERMINAL_STATES"
      "status r1 = JS_cancelled" "active_worker_token r1 = None"
      "w_jobs w1 = put i r1 (w_jobs (e_world s))"
      "ob = snd (enqueue (e_outbox s) now i (execution_generation q) (JobStatus_value JS_cancelled)
                 (snd (render f)) (fst (render f)) None)"
      "cancel_job fp pu render i owner organization reason now rc s
            = Some ((cr_cancelled, Some JS_cancelled, reasn),
                    \<lparr>e_world = w1, e_ledger = e_ledger s, e_outbox = ob, e_parks = parks\<rparr>)"
    then have "TerminalKey i \<in> ob_key ` set ob" by (auto simp: enqueue_def Let_def)
    with h row Some show ?thesis by (simp add: lock_current_owner_def holds_def)
  qed
qed

end
