(* ===== verification/ReaperProps.thy ===== *)
theory ReaperProps
  imports Reaper
begin

text \<open>
  What the sweep guarantees: every job that is not over is reached within a bounded time of its last
  clock, whatever led to its state; a job is re-run at most once for a lost worker; and what a
  late heartbeat between the selection and the update changes.
\<close>

section \<open>Everything that happens to a job row\<close>

text \<open>A sweep updates a row it has seen at some time; any row may be the one it saw.\<close>

datatype sys_op =
    Work lease_op
  | Create uuid datetime string string
  | Sweep bool datetime uuid SimulationJob

fun sys_step ::
  "'f fingerprint \<Rightarrow> (string \<Rightarrow> uuid option) \<Rightarrow> (bool \<Rightarrow> SimulationJob \<Rightarrow> json_obj) \<Rightarrow> sys_op
     \<Rightarrow> 'f world \<Rightarrow> 'f world" where
  "sys_step fp pu render (Work op) w = lease_step fp op w"
| "sys_step fp pu render (Create i now owner organization) w =
     (if map_of (w_jobs w) i = None
      then w\<lparr>w_jobs := snd (create_job pu (w_jobs w) i now owner organization)\<rparr> else w)"
| "sys_step fp pu render (Sweep can now i seen) w =
     w\<lparr>w_jobs := snd (reap_one render can now i seen (w_jobs w))\<rparr>"

definition sys_run ::
  "'f fingerprint \<Rightarrow> (string \<Rightarrow> uuid option) \<Rightarrow> (bool \<Rightarrow> SimulationJob \<Rightarrow> json_obj) \<Rightarrow> sys_op list
     \<Rightarrow> 'f world \<Rightarrow> 'f world" where
  "sys_run fp pu render ops w = fold (sys_step fp pu render) ops w"

lemma sys_run_simps [simp]:
  "sys_run fp pu render [] w = w"
  "sys_run fp pu render (op # ops) w = sys_run fp pu render ops (sys_step fp pu render op w)"
  by (simp_all add: sys_run_def)

section \<open>An invariant of the rows, one row at a time\<close>

text \<open>A condition on rows that every update of a row keeps is kept by every step.\<close>

definition all_rows :: "(SimulationJob \<Rightarrow> bool) \<Rightarrow> jobs \<Rightarrow> bool" where
  "all_rows P t \<longleftrightarrow> (\<forall>i r. map_of t i = Some r \<longrightarrow> P r)"

lemma all_rows_put: "all_rows P t \<Longrightarrow> P r \<Longrightarrow> all_rows P (put i r t)"
  by (auto simp: all_rows_def)

lemma all_rows_cas:
  assumes "all_rows P t" "\<And>r. P r \<Longrightarrow> Q r \<Longrightarrow> P (f r)"
  shows "all_rows P (snd (cas t i Q f))"
proof (cases "map_of t i")
  case (Some r)
  then have "P r" using assms(1) by (simp add: all_rows_def)
  with Some assms show ?thesis by (simp add: cas_def all_rows_put)
qed (use assms(1) in \<open>simp add: cas_def\<close>)

section \<open>Every row has a clock\<close>

text \<open>A claim sets the start and the deadline, and only the reset of a parked job clears a deadline.\<close>

definition clocked :: "SimulationJob \<Rightarrow> bool" where
  "clocked r \<longleftrightarrow>
     (status r = JS_running \<longrightarrow> started_at r \<noteq> None)
     \<and> (active_worker_token r \<noteq> None \<longrightarrow> pipeline_deadline_at r \<noteq> None)"

lemma clocked_move: "clocked r \<Longrightarrow> clocked (timestamps_for target now r)"
  by (simp add: clocked_def) (simp add: timestamps_for_def Let_def)

lemma clocked_claim: "clocked (claim_row r g tok b x now ls ts)"
  by (simp add: clocked_def split: option.splits)

lemma clocked_reset: "status r = JS_pending \<Longrightarrow> clocked (review_rerun_reset s e now r)"
  by (simp add: clocked_def review_rerun_reset_def Let_def split: option.splits)

lemma clocked_created: "clocked (stamp pu owner organization (new_row i now))"
  by (simp add: clocked_def stamp_def new_row_def split: option.splits)

lemma clocked_lease_step:
  assumes "all_rows clocked (w_jobs w)"
  shows "all_rows clocked (w_jobs (lease_step fp op w))"
proof (cases op)
  case (Claim i tok b x now ls ts rc)
  with assms show ?thesis
    by (auto simp: claim_execution_def Let_def intro!: all_rows_put clocked_claim
        split: option.splits prod.splits)
next
  case (Beat own now ls ext rc1 rc2)
  have "clocked r" if "map_of (w_jobs w) (own_job_id own) = Some r" for r
    using assms that by (simp add: all_rows_def)
  with Beat assms show ?thesis
    by (auto simp: heartbeat_def Let_def extended_deadline_def clocked_def
        intro!: all_rows_put split: option.splits)
next
  case (Release own now rc)
  with assms show ?thesis
    by (auto simp: release_def Let_def clocked_def all_rows_def split: option.splits)
next
  case (Evict i now rc)
  with assms show ?thesis
    by (auto simp: evict_owner_def Let_def clocked_def all_rows_def split: option.splits)
next
  case (HandBack own now rc)
  with assms show ?thesis
    by (auto simp: hand_back_def Let_def split_beta clocked_def intro: all_rows_cas)
next
  case (Confirm i a now)
  with assms show ?thesis
    by (auto simp: confirm_requeued_def split_beta clocked_def intro: all_rows_cas)
next
  case (Move i target now)
  with assms show ?thesis
    by (auto simp: on_jobs_def transition_default all_rows_def clocked_move split: option.splits)
next
  case (Launched i b now)
  with assms show ?thesis
    by (auto simp: on_jobs_def mark_launched_def clocked_def intro!: all_rows_cas)
next
  case (LaunchFailed i e now)
  with assms show ?thesis
    by (auto simp: on_jobs_def mark_launch_failed_def cas_def clocked_def all_rows_def
        split: option.splits)
next
  case (RerunReset i s e now)
  with assms show ?thesis
    by (auto simp: on_jobs_def reset_for_review_rerun_def intro!: all_rows_cas)
       (auto simp: clocked_def review_rerun_reset_def Let_def split: option.splits)
next
  case (SetResult i now p)
  with assms show ?thesis
    by (auto simp: on_jobs_def set_final_result_def clocked_def intro!: all_rows_cas)
qed

lemma clocked_sweep: "all_rows clocked t \<Longrightarrow> all_rows clocked (snd (reap_one render can now i seen t))"
  by (auto simp: reap_one_def Let_def split_beta rerun_row_def reaped_row_def clocked_def
      intro!: all_rows_cas)

lemma clocked_sys_step:
  "all_rows clocked (w_jobs w) \<Longrightarrow> all_rows clocked (w_jobs (sys_step fp pu render op w))"
  by (cases op)
     (auto simp: clocked_lease_step clocked_sweep create_job_def Let_def clocked_created
       intro!: all_rows_put)

lemma clocked_sys_run:
  "all_rows clocked (w_jobs w) \<Longrightarrow> all_rows clocked (w_jobs (sys_run fp pu render ops w))"
  by (induction ops arbitrary: w) (simp_all add: clocked_sys_step)

section \<open>The sweep reaches every job\<close>

definition clocks :: "SimulationJob \<Rightarrow> datetime list" where
  "clocks r = created_at r # updated_at r # concat (map (case_option [] (\<lambda>d. [d]))
     [started_at r, lease_expires_at r, pipeline_deadline_at r])"

definition last_clock :: "SimulationJob \<Rightarrow> datetime" where
  "last_clock r = Max (set (clocks r))"

definition grace :: "reap_policy \<Rightarrow> int" where
  "grace pol = max (seconds (3600 * STALLED_JOB_TIMEOUT_HOURS pol)) (seconds (WORKER_LEASE_SECONDS pol))"

lemma clock_le: "c \<in> set (clocks r) \<Longrightarrow> c \<le> last_clock r"
  by (simp add: last_clock_def)

lemma clock_members:
  "created_at r \<in> set (clocks r)" "updated_at r \<in> set (clocks r)"
  "started_at r = Some d \<Longrightarrow> d \<in> set (clocks r)"
  "lease_expires_at r = Some d \<Longrightarrow> d \<in> set (clocks r)"
  "pipeline_deadline_at r = Some d \<Longrightarrow> d \<in> set (clocks r)"
  by (auto simp: clocks_def)

lemma past_clock:
  assumes "c \<in> set (clocks r)" "last_clock r + grace pol < now"
  shows "c < started_cutoff pol now" "c < lease_cutoff pol now"
  using clock_le [OF assms(1)] assms(2) by (auto simp: started_cutoff_def lease_cutoff_def grace_def)

lemma clocked_stalled:
  assumes "clocked r" "status r \<in> ACTIVE_STATES" "last_clock r + grace pol < now"
  shows "stalled pol now r"
proof -
  note past = past_clock [OF _ assms(3)] and mem = clock_members [of r]
  have old: "before (started_at r) (started_cutoff pol now)" if "started_at r \<noteq> None"
    using that past(1) [OF mem(3)] by (auto simp: before_def)
  have lapsed: "before (lease_expires_at r) (lease_cutoff pol now)" if "lease_expires_at r \<noteq> None"
    using that past(2) [OF mem(4)] by (auto simp: before_def)
  have over: "before (pipeline_deadline_at r) (lease_cutoff pol now)" if "pipeline_deadline_at r \<noteq> None"
    using that past(2) [OF mem(5)] by (auto simp: before_def)
  note made = past(1) [OF mem(1)] past(1) [OF mem(2)]
  show ?thesis
  proof (cases "status r = JS_running")
    case True
    with assms(1) old lapsed show ?thesis unfolding stalled_def clocked_def by blast
  next
    case False
    then have "status r \<in> {JS_pending, JS_queued}" using assms(2) by (auto simp: ACTIVE_STATES_def)
    with assms(1) lapsed over made show ?thesis unfolding stalled_def clocked_def by blast
  qed
qed

text \<open>
  C38: no job is ever lost. Start from any rows that were just created and let anything happen to
  them - claims, heartbeats, hand-backs, evictions, moves, launches, resets of parked jobs, sweeps
  with an old view of the row. Every job that is still pending, queued or running is selected by the
  sweep once the larger of its two periods has passed since the last clock on its row.
\<close>

theorem reaper_reaches_every_job:
  assumes "w_jobs w0 = []" "w = sys_run fp pu render ops w0"
    and "map_of (w_jobs w) i = Some r" "status r \<in> ACTIVE_STATES"
    and "last_clock r + grace pol < now"
  shows "stalled pol now r"
proof -
  have "all_rows clocked (w_jobs w)"
    unfolding assms(2) by (rule clocked_sys_run) (simp add: assms(1) all_rows_def)
  with assms(3) have "clocked r" by (simp add: all_rows_def)
  then show ?thesis using assms(4,5) by (rule clocked_stalled)
qed

definition demo_policy :: reap_policy where
  "demo_policy = \<lparr>STALLED_JOB_TIMEOUT_HOURS = 4, WORKER_LEASE_SECONDS = 1800\<rparr>"

theorem reaper_reaches_every_job_witness:
  "stalled demo_policy (seconds 14401)
     (the (map_of (w_jobs (sys_run demo_fp (\<lambda>_. None) (\<lambda>_ _. [])
        [Create 3 0 ''u'' []] \<lparr>w_jobs = [], w_fence = (\<lambda>_. None)\<rparr>)) 3))"
proof -
  let ?w = "sys_run demo_fp (\<lambda>_. None) (\<lambda>_ _. []) [Create 3 0 ''u'' []]
    \<lparr>w_jobs = [], w_fence = (\<lambda>_. None)\<rparr>"
  let ?r = "(new_row 3 0)\<lparr>owner_id := ''u'', organization_id := None\<rparr>"
  have row: "map_of (w_jobs ?w) 3 = Some ?r"
    by (simp add: create_job_def Let_def stamp_def parsed_organization_id_def new_row_def)
  have "status ?r \<in> ACTIVE_STATES" "last_clock ?r + grace demo_policy < seconds 14401"
    by (simp_all add: new_row_def ACTIVE_STATES_def last_clock_def clocks_def grace_def demo_policy_def
        seconds_def)
  from reaper_reaches_every_job [OF _ refl row this] show ?thesis using row by simp
qed


section \<open>A live job is left alone\<close>

text \<open>
  A job whose worker beats is never swept. After a heartbeat that succeeded, the running job is
  not selected for two whole lease periods.
\<close>

theorem live_job_not_swept:
  assumes "heartbeat fp w own t0 (WORKER_LEASE_SECONDS pol) ext rc1 rc2 = (True, w')"
    and "map_of (w_jobs w') (own_job_id own) = Some r" "status r = JS_running"
    and "now \<le> t0 + 2 * seconds (WORKER_LEASE_SECONDS pol)"
  shows "\<not> stalled pol now r"
proof -
  have "lease_expires_at r = Some (t0 + seconds (WORKER_LEASE_SECONDS pol))"
    using assms(1,2) by (auto simp: heartbeat_def Let_def split: option.splits if_splits)
  with assms(3,4) show ?thesis by (simp add: stalled_def lease_cutoff_def)
qed

definition demo_running :: "(uuid \<times> int \<times> uuid) world" where
  "demo_running = snd (claim_execution demo_fp demo_world 3 5 ''celery'' None 0 1800 21600 RAnswered)"

lemma demo_running_eq:
  "map_of (w_jobs demo_running) 3 = Some (claim_row (new_row 3 0) 1 5 ''celery'' None 0 1800 21600)"
  by (simp add: demo_running_def demo_defs lease_eval)

definition demo_beat :: "bool \<times> (uuid \<times> int \<times> uuid) world" where
  "demo_beat = heartbeat demo_fp demo_running (demo_own 1 5) (seconds 60)
     (WORKER_LEASE_SECONDS demo_policy) None RFailed RFailed"

lemma demo_beat_eq:
  "fst demo_beat"
  "map_of (w_jobs (snd demo_beat)) 3 = Some ((claim_row (new_row 3 0) 1 5 ''celery'' None 0 1800 21600)
     \<lparr>lease_heartbeat_at := Some (seconds 60), lease_expires_at := Some (seconds 1860),
      updated_at := seconds 60\<rparr>)"
  by (simp_all add: demo_beat_def heartbeat_def demo_running_eq Let_def new_row_def claim_row_def
      holds_def extended_deadline_def status_sets demo_policy_def seconds_def)

theorem live_job_not_swept_witness:
  "\<not> stalled demo_policy (seconds 3660) (the (map_of (w_jobs (snd demo_beat)) 3))"
proof -
  have beat: "heartbeat demo_fp demo_running (demo_own 1 5) (seconds 60)
     (WORKER_LEASE_SECONDS demo_policy) None RFailed RFailed = (True, snd demo_beat)"
    using demo_beat_eq(1) by (simp add: demo_beat_def prod_eq_iff)
  have "seconds 3660 \<le> seconds 60 + 2 * seconds (WORKER_LEASE_SECONDS demo_policy)"
    by (simp add: demo_policy_def seconds_def)
  with live_job_not_swept [OF beat] show ?thesis
    by (simp add: demo_beat_eq new_row_def claim_row_def)
qed

section \<open>One automatic re-run\<close>

text \<open>The mark stays on every row that is not over, once the launch was recorded on it.\<close>

definition marked :: "uuid \<Rightarrow> jobs \<Rightarrow> bool" where
  "marked i t \<longleftrightarrow> (\<exists>r. map_of t i = Some r \<and> pipeline_submitted_at r \<noteq> None
     \<and> (status r \<in> TERMINAL_STATES \<or> pipeline_dispatch_state r = Some RERUN_MARK))"

definition keeps_mark :: "SimulationJob \<Rightarrow> SimulationJob \<Rightarrow> bool" where
  "keeps_mark r r' \<longleftrightarrow>
     (pipeline_submitted_at r \<noteq> None \<longrightarrow> pipeline_submitted_at r' \<noteq> None
        \<and> (status r' \<in> TERMINAL_STATES \<or> pipeline_dispatch_state r' = pipeline_dispatch_state r
           \<or> pipeline_dispatch_state r' = Some RERUN_MARK))
     \<and> (status r \<in> TERMINAL_STATES \<longrightarrow> status r' \<in> TERMINAL_STATES)"

lemma keeps_mark_refl [simp]: "keeps_mark r r"
  by (simp add: keeps_mark_def)

lemma marked_put: "map_of t k = Some r \<Longrightarrow> keeps_mark r r' \<Longrightarrow> marked i t \<Longrightarrow> marked i (put k r' t)"
  by (auto simp: marked_def keeps_mark_def)

lemma marked_cas:
  assumes "\<And>r. Q r \<Longrightarrow> keeps_mark r (f r)" "marked i t"
  shows "marked i (snd (cas t k Q f))"
  using assms by (cases "map_of t k") (auto simp: cas_def marked_put)

lemma keeps_mark_same:
  "pipeline_submitted_at r' = pipeline_submitted_at r \<Longrightarrow>
   pipeline_dispatch_state r' = pipeline_dispatch_state r \<Longrightarrow>
   (status r \<in> TERMINAL_STATES \<Longrightarrow> status r' \<in> TERMINAL_STATES) \<Longrightarrow> keeps_mark r r'"
  by (simp add: keeps_mark_def)

lemma marked_lease_step:
  assumes "marked i (w_jobs w)"
  shows "marked i (w_jobs (lease_step fp op w))"
proof (cases op)
  case (Claim k tok b x now ls ts rc)
  with assms show ?thesis
    by (auto simp: claim_execution_def Let_def claim_guard_None claim_row_def status_sets
        intro!: marked_put keeps_mark_same split: option.splits prod.splits)
next
  case (Beat own now ls ext rc1 rc2)
  with assms show ?thesis
    by (auto simp: heartbeat_def Let_def intro!: marked_put keeps_mark_same split: option.splits)
next
  case (Release own now rc)
  with assms show ?thesis
    by (auto simp: release_def Let_def intro!: marked_put keeps_mark_same split: option.splits)
next
  case (Evict k now rc)
  with assms show ?thesis
    by (auto simp: evict_owner_def Let_def intro!: marked_put keeps_mark_same split: option.splits)
next
  case (HandBack own now rc)
  with assms show ?thesis
    by (auto simp: hand_back_def Let_def split_beta status_sets intro!: marked_cas keeps_mark_same)
next
  case (Confirm k a now)
  with assms show ?thesis
    by (auto simp: confirm_requeued_def split_beta intro!: marked_cas keeps_mark_same)
next
  case (Move k target now)
  with assms terminal_not_source show ?thesis
    by (auto simp: on_jobs_def transition_default timestamps_for_def Let_def
        intro!: marked_put keeps_mark_same split: option.splits)
next
  case (Launched k b now)
  with assms show ?thesis
    by (auto simp: on_jobs_def mark_launched_def keeps_mark_def intro!: marked_cas)
next
  case (LaunchFailed k e now)
  have over: "status r \<in> TERMINAL_STATES" if "status r \<notin> legal_sources JS_failed"
    "status r \<in> ACTIVE_STATES \<union> {JS_pending_review} \<union> TERMINAL_STATES" for r :: SimulationJob
    using that by (auto simp: status_sets)
  have failed: "JS_failed \<in> TERMINAL_STATES" by (simp add: TERMINAL_STATES_def)
  have every: "status r \<in> ACTIVE_STATES \<union> {JS_pending_review} \<union> TERMINAL_STATES"
    for r :: SimulationJob
    by (cases "status r") (auto simp: status_sets)
  from LaunchFailed assms show ?thesis
    by (auto simp: on_jobs_def mark_launch_failed_def cas_def keeps_mark_def
        over [OF _ every] failed
        intro!: marked_put split: option.splits)
next
  case (RerunReset k s e now)
  with assms show ?thesis
    by (auto simp: on_jobs_def reset_for_review_rerun_def intro!: marked_cas)
       (auto simp: keeps_mark_def review_rerun_reset_def Let_def split: option.splits)
next
  case (SetResult k now p)
  with assms show ?thesis
    by (auto simp: on_jobs_def set_final_result_def intro!: marked_cas keeps_mark_same)
qed

lemma marked_sys_step:
  assumes "marked i (w_jobs w)" "\<forall>can now k seen. op = Sweep can now k seen \<longrightarrow> status seen \<notin> TERMINAL_STATES"
  shows "marked i (w_jobs (sys_step fp pu render op w))"
proof (cases op)
  case (Work lop)
  with assms show ?thesis by (simp add: marked_lease_step)
next
  case (Create k now owner organization)
  with assms(1) show ?thesis by (auto simp: create_job_def Let_def marked_def)
next
  case (Sweep can now k seen)
  with assms have "status seen \<notin> TERMINAL_STATES" by simp
  with Sweep assms(1) show ?thesis
    by (auto simp: reap_one_def Let_def split_beta rerun_row_def reaped_row_def keeps_mark_def
        TERMINAL_STATES_def intro!: marked_cas)
qed

text \<open>
  C39: a lost worker costs one automatic re-run, not more. Once the sweep has re-run a running job
  whose launch is recorded on its row, then whatever happens afterwards - new claims, hand-backs,
  re-launches, resets and further sweeps - the job is never eligible again while it is running.
\<close>

theorem rerun_at_most_once:
  assumes "map_of (w_jobs w) i = Some r" "status r = JS_running" "pipeline_submitted_at r \<noteq> None"
    and "reap_one render can now i seen (w_jobs w) = (Rerun, t)"
    and "\<forall>op \<in> set ops. \<forall>c n k s. op = Sweep c n k s \<longrightarrow> stalled pol n s"
    and "map_of (w_jobs (sys_run fp pu render ops (w\<lparr>w_jobs := t\<rparr>))) i = Some r'"
    and "status r' = JS_running"
  shows "\<not> rerun_eligible r' now'"
proof -
  have step: "marked i (w_jobs (sys_run fp pu render ops v))"
    if "marked i (w_jobs v)" "\<forall>op \<in> set ops. \<forall>c n k s. op = Sweep c n k s \<longrightarrow> stalled pol n s" for v ops
    using that
  proof (induction ops arbitrary: v)
    case (Cons op ops)
    have "\<forall>can now k seen. op = Sweep can now k seen \<longrightarrow> status seen \<notin> TERMINAL_STATES"
      using Cons.prems(2) stalled_active active_not_terminal by fastforce
    with Cons show ?case by (simp add: marked_sys_step)
  qed simp
  have "status seen = JS_running"
    using assms(1,2,4) by (auto simp: reap_one_def Let_def cas_def split: if_splits)
  with assms(1-4) have "marked i t"
    by (auto simp: reap_one_def Let_def cas_def rerun_row_def marked_def split: if_splits)
  then have "marked i (w_jobs (sys_run fp pu render ops (w\<lparr>w_jobs := t\<rparr>)))"
    using step assms(5) by simp
  with assms(6,7) show ?thesis by (auto simp: marked_def rerun_eligible_def TERMINAL_STATES_def)
qed

definition demo_lost :: SimulationJob where
  "demo_lost = claim_row ((new_row 3 0)\<lparr>pipeline_submitted_at := Some 0, dispatch_payload := Some [(''schema_version'', ''2'')]\<rparr>)
     1 5 ''celery'' None 0 1800 21600"

definition demo_lost_world :: "(uuid \<times> int \<times> uuid) world" where
  "demo_lost_world = \<lparr>w_jobs = [(3, demo_lost)], w_fence = (\<lambda>_. None)\<rparr>"

definition demo_again :: sys_op where
  "demo_again = Work (Claim 3 6 ''celery'' None (seconds 3700) 1800 21600 RAnswered)"

theorem rerun_at_most_once_witness:
  "\<exists>r'. map_of (w_jobs (sys_run demo_fp (\<lambda>_. None) (\<lambda>_ _. []) [demo_again]
       (demo_lost_world\<lparr>w_jobs := put 3 (rerun_row JS_running (seconds 3601) demo_lost) [(3, demo_lost)]\<rparr>))) 3
     = Some r' \<and> status r' = JS_running \<and> \<not> rerun_eligible r' (seconds 9000)"
proof -
  let ?t = "put 3 (rerun_row JS_running (seconds 3601) demo_lost) [(3, demo_lost)]"
  let ?w = "sys_run demo_fp (\<lambda>_. None) (\<lambda>_ _. []) [demo_again] (demo_lost_world\<lparr>w_jobs := ?t\<rparr>)"
  have row: "map_of (w_jobs demo_lost_world) 3 = Some demo_lost" "status demo_lost = JS_running"
    "pipeline_submitted_at demo_lost \<noteq> None"
    by (simp_all add: demo_lost_world_def demo_lost_def claim_row_def)
  have el: "rerun_eligible demo_lost (seconds 3601)"
    by (simp add: rerun_eligible_def demo_lost_def claim_row_def new_row_def truthy_json_def
        seconds_def RERUN_MIN_REMAINING_SECONDS_def)
  have sweep: "reap_one (\<lambda>_ _. []) True (seconds 3601) 3 demo_lost (w_jobs demo_lost_world) = (Rerun, ?t)"
    using el row by (simp add: reap_one_def cas_def demo_lost_world_def)
  have ops: "\<forall>op \<in> set [demo_again]. \<forall>c n k s. op = Sweep c n k s \<longrightarrow> stalled demo_policy n s"
    by (simp add: demo_again_def)
  have "\<exists>r'. map_of (w_jobs ?w) 3 = Some r' \<and> status r' = JS_running"
    by (simp add: demo_again_def demo_lost_world_def lease_eval rerun_row_def demo_lost_def new_row_def)
  then obtain r' where r': "map_of (w_jobs ?w) 3 = Some r'" "status r' = JS_running" by blast
  from rerun_at_most_once [OF row sweep ops r'] r' show ?thesis by blast
qed

section \<open>A heartbeat between the selection and the update\<close>

text \<open>
  What a heartbeat that arrives between the selection and the update changes. If the job was to
  be re-run, the lease it was selected with no longer matches and the worker keeps its job. If it was
  to be failed, only the status is compared, so the job is failed under a worker whose heartbeat has
  just succeeded.
\<close>

theorem reaper_and_late_heartbeat:
  assumes "map_of (w_jobs w) (own_job_id own) = Some seen"
    and "heartbeat fp w own t0 ls ext rc1 rc2 = (True, w1)"
    and "lease_expires_at seen \<noteq> Some (t0 + seconds ls)"
  shows "if can \<and> rerun_eligible seen now
    then reap_one render can now (own_job_id own) seen (w_jobs w1) = (MovedOn, w_jobs w1)
    else fst (reap_one render can now (own_job_id own) seen (w_jobs w1)) = Reaped
      \<and> is_current_owner w1 own
      \<and> \<not> is_current_owner (w1\<lparr>w_jobs := snd (reap_one render can now (own_job_id own) seen (w_jobs w1))\<rparr>) own"
  using assms
  by (auto simp: heartbeat_def Let_def reap_one_def cas_def is_current_owner_def holds_def
      reaped_row_def TERMINAL_STATES_def split: if_splits)

theorem reaper_and_late_heartbeat_witness:
  "fst (reap_one (\<lambda>_ _. []) False (seconds 4000) 3 (the (map_of (w_jobs demo_running) 3))
      (w_jobs (snd demo_beat))) = Reaped"
proof -
  have beat: "heartbeat demo_fp demo_running (demo_own 1 5) (seconds 60)
     (WORKER_LEASE_SECONDS demo_policy) None RFailed RFailed = (True, snd demo_beat)"
    using demo_beat_eq(1) by (simp add: demo_beat_def prod_eq_iff)
  have row: "map_of (w_jobs demo_running) (own_job_id (demo_own 1 5))
      = Some (the (map_of (w_jobs demo_running) 3))"
    by (simp add: demo_running_eq)
  have new: "lease_expires_at (the (map_of (w_jobs demo_running) 3))
      \<noteq> Some (seconds 60 + seconds (WORKER_LEASE_SECONDS demo_policy))"
    by (simp add: demo_running_eq demo_policy_def seconds_def)
  show ?thesis
    using reaper_and_late_heartbeat [OF row beat new, of False "seconds 4000" "\<lambda>_ _. []"] by simp
qed

section \<open>A job handed back is queued or recovered\<close>

definition released :: "datetime \<Rightarrow> SimulationJob \<Rightarrow> SimulationJob" where
  "released now r =
     r\<lparr>status := JS_pending, active_worker_token := None, lease_expires_at := Some now, updated_at := now\<rparr>"

lemma hand_back_row:
  assumes "map_of (w_jobs w) (own_job_id own) = Some r"
  shows "fst (hand_back fp w own now rc) \<longleftrightarrow> status r = JS_running \<and> holds r own"
    "map_of (w_jobs (snd (hand_back fp w own now rc))) (own_job_id own) =
       Some (if status r = JS_running \<and> holds r own then released now r else r)"
  using assms by (simp_all add: hand_back_def cas_def Let_def released_def)

lemma confirm_row:
  assumes "map_of (w_jobs w) i = Some (released now r)"
  shows "map_of (w_jobs (snd (confirm_requeued w i now now))) i
    = Some ((released now r)\<lparr>lease_expires_at := None, updated_at := now\<rparr>)"
  using assms by (simp add: confirm_requeued_def cas_def released_def)

lemma hand_back_job_cases:
  assumes row: "map_of (w_jobs w) (own_job_id own) = Some r"
    and same: "\<forall>v. map_of (w_jobs (between v)) (own_job_id own) = map_of (w_jobs v) (own_job_id own)"
    and out: "hand_back_job fp own now rc tx takes confirm_ok between c w = (out, c', w')"
  shows "(out \<in> {''handback_failed'', ''fenced''} \<and> map_of (w_jobs w') (own_job_id own) = Some r)
    \<or> (out = ''handback_unqueued'' \<and> status r = JS_running
         \<and> map_of (w_jobs w') (own_job_id own) = Some (released now r))
    \<or> (out = ''handed_back'' \<and> takes (own_job_id own)
         \<and> map_of (w_jobs w') (own_job_id own) \<in> {Some (released now r),
              Some ((released now r)\<lparr>lease_expires_at := None, updated_at := now\<rparr>)})"
proof -
  obtain rel w1 where h: "hand_back fp w own now rc = (rel, w1)"
    by (cases "hand_back fp w own now rc")
  note facts = hand_back_row [OF row, of fp now rc, unfolded h fst_conv snd_conv]
  show ?thesis
  proof (cases "tx = TxCommitted \<and> rel")
    case False
    have kept: "map_of (w_jobs w1) (own_job_id own) = Some r" if "\<not> rel"
      using facts(1) facts(2) that by (simp only: if_False)
    have "hand_back_job fp own now rc tx takes confirm_ok between c w
        = (if tx = TxFailedBefore then (''handback_failed'', c, w)
           else if tx = TxFailedAtCommit then (''handback_failed'', c, w\<lparr>w_fence := w_fence w1\<rparr>)
           else (''fenced'', c, w1))"
      using False h by (cases tx) (simp_all add: hand_back_job_def Let_def)
    with False out row kept show ?thesis by (cases tx) auto
  next
    case True
    then have r1: "map_of (w_jobs (between w1)) (own_job_id own) = Some (released now r)"
      "status r = JS_running" "map_of (w_jobs w1) (own_job_id own) = Some (released now r)"
      using facts same by simp_all
    show ?thesis
    proof (cases "relaunch takes (own_job_id own) (dispatch_payload (released now r))")
      case False
      with True out h r1 show ?thesis by (simp add: hand_back_job_def Let_def)
    next
      case launched: True
      then have "takes (own_job_id own)" by (simp add: relaunch_def)
      with launched True out h r1 confirm_row [OF r1(1)] show ?thesis
        by (cases confirm_ok) (simp_all add: hand_back_job_def Let_def)
    qed
  qed
qed

lemma released_stalled:
  assumes "clocked r" "status r = JS_running" "now + seconds (WORKER_LEASE_SECONDS pol) < later"
  shows "stalled pol later (released now r)"
  using assms by (simp add: stalled_def released_def lease_cutoff_def clocked_def)

text \<open>
  A worker that gives its job back never strands it. As long as nobody else touches the row, the
  result says what became of it: after \<open>handed_back\<close> the launcher has taken its message; after
  \<open>handback_unqueued\<close> it waits unowned under its release mark, and the sweep selects it one lease
  later; after \<open>handback_failed\<close> the row is as it was, so its lease lapses on its own.
\<close>

theorem handed_back_or_recovered:
  assumes "map_of (w_jobs w) (own_job_id own) = Some r" "clocked r"
    and "\<forall>v. map_of (w_jobs (between v)) (own_job_id own) = map_of (w_jobs v) (own_job_id own)"
    and "hand_back_job fp own now rc tx takes confirm_ok between c w = (out, c', w')"
    and "map_of (w_jobs w') (own_job_id own) = Some r'"
  shows "(out = ''handed_back'' \<longrightarrow> takes (own_job_id own) \<and> status r' = JS_pending
            \<and> active_worker_token r' = None)
     \<and> (out = ''handback_unqueued'' \<longrightarrow> status r' = JS_pending \<and> active_worker_token r' = None
            \<and> (\<forall>later > now + seconds (WORKER_LEASE_SECONDS pol). stalled pol later r'))
     \<and> (out \<in> {''handback_failed'', ''fenced''} \<longrightarrow> r' = r)"
  using hand_back_job_cases [OF assms(1,3,4)] assms(5) released_stalled [OF assms(2)]
  by (elim disjE conjE) (auto simp: released_def)

theorem handed_back_or_recovered_witness:
  "\<exists>c' w'. hand_back_job demo_fp (demo_own 1 5) 9 RFailed TxCommitted (\<lambda>_. False) True (\<lambda>v. v)
       (\<lambda>_. None) demo_running = (''handback_unqueued'', c', w')
     \<and> stalled demo_policy (seconds 1801) (the (map_of (w_jobs w') 3))"
proof -
  let ?row = "claim_row (new_row 3 0) 1 5 ''celery'' None 0 1800 21600"
  let ?out = "hand_back_job demo_fp (demo_own 1 5) 9 RFailed TxCommitted (\<lambda>_. False) True (\<lambda>v. v)
       (\<lambda>_. None) demo_running"
  have row: "map_of (w_jobs demo_running) (own_job_id (demo_own 1 5)) = Some ?row"
    by (simp add: demo_running_eq)
  have id: "\<forall>v. map_of (w_jobs ((\<lambda>v. v) v)) (own_job_id (demo_own 1 5))
      = map_of (w_jobs v) (own_job_id (demo_own 1 5))" by simp
  have parts: "fst ?out = ''handback_unqueued''"
    "\<exists>r'. map_of (w_jobs (snd (snd ?out))) (own_job_id (demo_own 1 5)) = Some r'"
    by (simp_all add: hand_back_job_def hand_back_def cas_def demo_running_eq Let_def holds_def
        relaunch_def new_row_def claim_row_def)
  then obtain r' where r': "map_of (w_jobs (snd (snd ?out))) (own_job_id (demo_own 1 5)) = Some r'"
    by blast
  have out: "?out = (''handback_unqueued'', fst (snd ?out), snd (snd ?out))"
    using parts(1) by (simp add: prod_eq_iff)
  have late: "9 + seconds (WORKER_LEASE_SECONDS demo_policy) < seconds 1801"
    by (simp add: demo_policy_def seconds_def)
  from handed_back_or_recovered [OF row clocked_claim id out r', of demo_policy] late r' out
  show ?thesis by (intro exI conjI) (assumption, simp)
qed

end
