(* ===== verification/Resilience.thy ===== *)
theory Resilience
  imports Errors
begin

text \<open>
  The circuit breaker in front of a failing dependency and the retrying call that goes through it
  (\<open>adapters/_shared/resilience.py\<close>). Every method of the breaker runs under its lock, so it is one
  step; \<open>now\<close> is the monotonic clock at that step, in microseconds as everywhere here. The call is a
  loop over the outcomes of its attempts; what other callers do to the shared breaker while an
  attempt runs is part of the attempt.
\<close>

section \<open>The breaker\<close>

datatype CircuitState = CLOSED | OPEN | HALF_OPEN

record CircuitBreaker =
  failure_threshold :: int
  recovery_timeout :: int
  half_open_max :: int
  br_state :: CircuitState
  consecutive_failures :: int
  opened_at :: int
  half_open_inflight :: int

definition new_breaker :: "int \<Rightarrow> int \<Rightarrow> int \<Rightarrow> CircuitBreaker" where
  "new_breaker threshold recovery probes =
     \<lparr>failure_threshold = max 1 threshold, recovery_timeout = recovery, half_open_max = max 1 probes,
      br_state = CLOSED, consecutive_failures = 0, opened_at = 0, half_open_inflight = 0\<rparr>"

definition maybe_half_open :: "int \<Rightarrow> CircuitBreaker \<Rightarrow> CircuitBreaker" where
  "maybe_half_open now b =
     (if br_state b = OPEN \<and> recovery_timeout b \<le> now - opened_at b
      then b\<lparr>br_state := HALF_OPEN, half_open_inflight := 0\<rparr> else b)"

definition breaker_state :: "int \<Rightarrow> CircuitBreaker \<Rightarrow> CircuitState \<times> CircuitBreaker" where
  "breaker_state now b = (br_state (maybe_half_open now b), maybe_half_open now b)"

definition allow :: "int \<Rightarrow> CircuitBreaker \<Rightarrow> bool \<times> CircuitBreaker" where
  "allow now b0 =
     (let b = maybe_half_open now b0 in
      case br_state b of
        CLOSED \<Rightarrow> (True, b)
      | OPEN \<Rightarrow> (False, b)
      | HALF_OPEN \<Rightarrow>
          if half_open_inflight b < half_open_max b
          then (True, b\<lparr>half_open_inflight := half_open_inflight b + 1\<rparr>)
          else (False, b))"

definition record_success :: "CircuitBreaker \<Rightarrow> CircuitBreaker" where
  "record_success b = b\<lparr>consecutive_failures := 0, br_state := CLOSED, half_open_inflight := 0\<rparr>"

definition release_probe :: "CircuitBreaker \<Rightarrow> CircuitBreaker" where
  "release_probe b =
     (if br_state b = HALF_OPEN \<and> 0 < half_open_inflight b
      then b\<lparr>half_open_inflight := half_open_inflight b - 1\<rparr> else b)"

definition trip :: "int \<Rightarrow> CircuitBreaker \<Rightarrow> CircuitBreaker" where
  "trip now b = b\<lparr>br_state := OPEN, opened_at := now, half_open_inflight := 0\<rparr>"

definition record_breaker_failure :: "int \<Rightarrow> CircuitBreaker \<Rightarrow> CircuitBreaker" where
  "record_breaker_failure now b0 =
     (let b = b0\<lparr>consecutive_failures := consecutive_failures b0 + 1\<rparr> in
      if br_state b = HALF_OPEN then trip now b
      else if failure_threshold b \<le> consecutive_failures b then trip now b
      else b)"

lemmas breaker_defs = maybe_half_open_def allow_def record_success_def release_probe_def trip_def
  record_breaker_failure_def

section \<open>The call\<close>

text \<open>\<open>TimedOutAfter\<close> is any \<open>TimeoutError\<close>, the one of the wait included.\<close>

datatype 'v try_outcome =
    Answered 'v
  | TimedOutAfter string
  | RaisedError exn
  | CancelledCall

record 'v attempt =
  at_others :: "CircuitBreaker \<Rightarrow> CircuitBreaker"
  at_outcome :: "'v try_outcome"
  at_now :: int

datatype 'v call_result = Value 'v | Failure SystemFailure | Cancelled | RanFallback

text \<open>The failure an attempt is recorded as.\<close>

fun try_failure :: "string \<Rightarrow> 'v try_outcome \<Rightarrow> SystemFailure option" where
  "try_failure dep (Answered v) = None"
| "try_failure dep (TimedOutAfter seconds_text) =
     Some (system_failure dep PROVIDER_TRANSIENT (''timed out after '' @ seconds_text @ ''s'') [])"
| "try_failure dep (RaisedError e) =
     Some (case e of RaisedSystem sf \<Rightarrow> sf | _ \<Rightarrow> classify_exception e dep)"
| "try_failure dep CancelledCall = None"

text \<open>\<open>n\<close> retries are left at attempt \<open>k\<close>. The last component counts the attempts made.\<close>

fun try_loop ::
  "string \<Rightarrow> (nat \<Rightarrow> 'v attempt) \<Rightarrow> nat \<Rightarrow> nat \<Rightarrow> CircuitBreaker
     \<Rightarrow> 'v call_result \<times> CircuitBreaker \<times> nat"
where
  "try_loop dep att n k b =
     (let a = att k; b1 = at_others a b in
      case at_outcome a of
        Answered v \<Rightarrow> (Value v, record_success b1, 1)
      | CancelledCall \<Rightarrow> (Cancelled, b1, 1)
      | out \<Rightarrow>
          let sf = the (try_failure dep out);
              b2 = record_breaker_failure (at_now a) b1
          in if \<not> is_retryable (failure_class sf) then (Failure sf, b2, 1)
             else (case n of
                     0 \<Rightarrow> (Failure sf, b2, 1)
                   | Suc m \<Rightarrow>
                       case allow (at_now a) b2 of
                         (False, b3) \<Rightarrow> (Failure sf, b3, 1)
                       | (True, b3) \<Rightarrow>
                           (case try_loop dep att m (Suc k) b3 of
                              (r, b4, made) \<Rightarrow> (r, b4, Suc made))))"

declare try_loop.simps [simp del]

text \<open>The three ways an attempt ends: the call is over, it failed for good, or it is tried again.\<close>

lemma try_loop_over:
  "try_failure dep (at_outcome (att k)) = None \<Longrightarrow>
     try_loop dep att n k b =
       (case at_outcome (att k) of
          Answered v \<Rightarrow> (Value v, record_success (at_others (att k) b), 1)
        | _ \<Rightarrow> (Cancelled, at_others (att k) b, 1))"
  by (subst try_loop.simps) (auto simp: Let_def split: try_outcome.splits)

lemma try_loop_failed:
  "try_failure dep (at_outcome (att k)) = Some sf \<Longrightarrow>
     try_loop dep att n k b =
       (let b2 = record_breaker_failure (at_now (att k)) (at_others (att k) b) in
        if \<not> is_retryable (failure_class sf) \<or> n = 0 then (Failure sf, b2, 1)
        else if \<not> fst (allow (at_now (att k)) b2) then (Failure sf, snd (allow (at_now (att k)) b2), 1)
        else (case try_loop dep att (n - 1) (Suc k) (snd (allow (at_now (att k)) b2)) of
                (r, b4, made) \<Rightarrow> (r, b4, Suc made)))"
  by (subst try_loop.simps)
     (cases "at_outcome (att k)"; cases n; simp add: Let_def split_beta split: bool.split)

definition call_with_resilience ::
  "string \<Rightarrow> string \<Rightarrow> (nat \<Rightarrow> 'v attempt) \<Rightarrow> nat \<Rightarrow> bool \<Rightarrow> int \<Rightarrow> CircuitBreaker
     \<Rightarrow> 'v call_result \<times> CircuitBreaker \<times> nat"
where
  "call_with_resilience name dep att max_retries has_fallback now b =
     (case allow now b of
        (False, b1) \<Rightarrow>
          (if has_fallback then RanFallback
           else Failure (system_failure dep PROVIDER_DOWN (''circuit '' @ name @ '' is open'') []),
           b1, 0)
      | (True, b1) \<Rightarrow>
          (case try_loop dep att max_retries 0 b1 of
             (r, b2, made) \<Rightarrow>
               (case r of Failure _ \<Rightarrow> if has_fallback then RanFallback else r | _ \<Rightarrow> r,
                release_probe b2, made)))"

section \<open>What the breaker guarantees\<close>

text \<open>Every use of a breaker, by any number of callers in any order.\<close>

datatype breaker_op = Allow int | Success | Fail int | Release | State int

fun breaker_step :: "breaker_op \<Rightarrow> CircuitBreaker \<Rightarrow> CircuitBreaker" where
  "breaker_step (Allow now) b = snd (allow now b)"
| "breaker_step Success b = record_success b"
| "breaker_step (Fail now) b = record_breaker_failure now b"
| "breaker_step Release b = release_probe b"
| "breaker_step (State now) b = snd (breaker_state now b)"

definition breaker_ok :: "CircuitBreaker \<Rightarrow> bool" where
  "breaker_ok b \<longleftrightarrow>
     1 \<le> failure_threshold b \<and> 1 \<le> half_open_max b
     \<and> 0 \<le> half_open_inflight b \<and> half_open_inflight b \<le> half_open_max b
     \<and> (half_open_inflight b \<noteq> 0 \<longrightarrow> br_state b = HALF_OPEN)
     \<and> 0 \<le> consecutive_failures b
     \<and> (br_state b = CLOSED \<longrightarrow> consecutive_failures b < failure_threshold b)"

lemma new_breaker_ok: "breaker_ok (new_breaker t r m)"
  by (simp add: breaker_ok_def new_breaker_def) linarith

lemma breaker_ok_step: "breaker_ok b \<Longrightarrow> breaker_ok (breaker_step op b)"
  by (cases op)
     (auto simp: breaker_ok_def breaker_defs breaker_state_def Let_def
       split: if_splits CircuitState.splits)

lemma breaker_ok_run: "breaker_ok b \<Longrightarrow> breaker_ok (fold breaker_step ops b)"
  by (induction ops arbitrary: b) (simp_all add: breaker_ok_step)

text \<open>How many calls a sequence of \<open>allow\<close>s lets through.\<close>

fun admitted :: "breaker_op list \<Rightarrow> CircuitBreaker \<Rightarrow> nat" where
  "admitted [] b = 0"
| "admitted (op # ops) b =
     (case op of Allow now \<Rightarrow> if fst (allow now b) then 1 else 0 | _ \<Rightarrow> 0)
     + admitted ops (breaker_step op b)"

text \<open>An open circuit, and a half-open one whose probes are out, let nothing new through.\<close>

lemma open_refuses:
  "br_state b = OPEN \<Longrightarrow> now - opened_at b < recovery_timeout b \<Longrightarrow> allow now b = (False, b)"
  by (simp add: breaker_defs)

lemma half_open_admits:
  "br_state b = HALF_OPEN \<Longrightarrow> breaker_ok b \<Longrightarrow>
     int (admitted (map Allow ts) b) + half_open_inflight b \<le> half_open_max b"
proof (induction ts arbitrary: b)
  case (Cons now ts)
  show ?case
  proof (cases "half_open_inflight b < half_open_max b")
    case True
    let ?b = "b\<lparr>half_open_inflight := half_open_inflight b + 1\<rparr>"
    have step: "allow now b = (True, ?b)" using Cons.prems True by (simp add: breaker_defs)
    have "breaker_ok ?b" using Cons.prems True by (simp add: breaker_ok_def)
    with Cons.IH [of ?b] Cons.prems(1) show ?thesis by (simp add: step)
  next
    case False
    then have step: "allow now b = (False, b)" using Cons.prems by (simp add: breaker_defs)
    from Cons.IH [OF Cons.prems] show ?thesis by (simp add: step)
  qed
qed (simp add: breaker_ok_def)

text \<open>
  The breaker protects its dependency under any interleaving of callers. Its counters stay in
  their bounds; while it is open and its recovery time has not passed nothing is let through; and
  from the moment it is half open, as many probes as are free and no more are let through until one
  of them reports.
\<close>

theorem breaker_protects:
  assumes "b = fold breaker_step ops (new_breaker threshold recovery probes)"
  shows "breaker_ok b
    \<and> (br_state b = OPEN \<and> now - opened_at b < recovery_timeout b \<longrightarrow> allow now b = (False, b))
    \<and> (br_state b = HALF_OPEN \<longrightarrow>
         int (admitted (map Allow ts) b) \<le> max 1 probes - half_open_inflight b)"
proof -
  have ok: "breaker_ok b" unfolding assms by (rule breaker_ok_run [OF new_breaker_ok])
  have step: "half_open_max (breaker_step op c) = half_open_max c" for op c
    by (cases op) (auto simp: breaker_defs breaker_state_def Let_def split: CircuitState.splits)
  have "half_open_max (fold breaker_step ops c) = half_open_max c" for c
    by (induction ops arbitrary: c) (simp_all add: step)
  then have "half_open_max b = max 1 probes" by (simp add: assms new_breaker_def)
  with ok half_open_admits [of b ts] open_refuses [of b now] show ?thesis by auto
qed

theorem breaker_protects_witness:
  "allow 9 (fold breaker_step [Fail 1, Fail 2] (new_breaker 2 30 1))
     = (False, fold breaker_step [Fail 1, Fail 2] (new_breaker 2 30 1))"
  using breaker_protects [OF refl, of "[Fail 1, Fail 2]" 2 30 1 9 "[]"]
  by (simp add: new_breaker_def breaker_defs)

section \<open>What a call guarantees\<close>

lemma try_loop_attempts: "snd (snd (try_loop dep att n k b)) \<le> n + 1"
proof (induction n arbitrary: k b)
  case 0
  show ?case
    by (cases "try_failure dep (at_outcome (att k))")
       (simp_all add: try_loop_over try_loop_failed Let_def split: try_outcome.split)
next
  case (Suc n)
  show ?case
  proof (cases "try_failure dep (at_outcome (att k))")
    case None
    then show ?thesis by (simp add: try_loop_over split: try_outcome.split)
  next
    case (Some sf)
    from Suc.IH [of "Suc k"] Some show ?thesis by (simp add: try_loop_failed Let_def split_beta)
  qed
qed

text \<open>A failure leaves no slot taken, so the call holds at most the one of its last \<open>allow\<close>.\<close>

definition slots :: "CircuitBreaker \<Rightarrow> int" where
  "slots b = (if br_state b = HALF_OPEN then half_open_inflight b else 0)"

lemma failure_slots:
  "slots (record_breaker_failure now b) = 0"
  "0 \<le> half_open_inflight b \<Longrightarrow> 0 \<le> half_open_inflight (record_breaker_failure now b)"
  by (simp_all add: slots_def record_breaker_failure_def trip_def Let_def)

lemma allow_slots:
  "slots b = 0 \<Longrightarrow> slots (snd (allow now b)) \<le> 1"
  "slots b = 0 \<Longrightarrow> \<not> fst (allow now b) \<Longrightarrow> 1 \<le> half_open_max b \<Longrightarrow> slots (snd (allow now b)) = 0"
  by (auto simp: slots_def allow_def maybe_half_open_def Let_def split: CircuitState.split)

lemma try_loop_slots:
  assumes "\<And>j. at_others (att j) = (\<lambda>b. b)"
  shows "slots (fst (snd (try_loop dep att n k b))) \<le> max 1 (slots b)"
proof (induction n arbitrary: k b)
  case 0
  show ?case
  proof (cases "try_failure dep (at_outcome (att k))")
    case None
    then show ?thesis
      by (auto simp: try_loop_over assms record_success_def slots_def le_max_iff_disj split: try_outcome.split)
  next
    case (Some sf)
    then show ?thesis by (simp add: try_loop_failed assms Let_def failure_slots)
  qed
next
  case (Suc n)
  show ?case
  proof (cases "try_failure dep (at_outcome (att k))")
    case None
    then show ?thesis
      by (auto simp: try_loop_over assms record_success_def slots_def le_max_iff_disj split: try_outcome.split)
  next
    case (Some sf)
    let ?a = "allow (at_now (att k)) (record_breaker_failure (at_now (att k)) b)"
    have one: "slots (snd ?a) \<le> 1" by (rule allow_slots(1) [OF failure_slots(1)])
    from Suc.IH [of "Suc k" "snd ?a"] one
    have "slots (fst (snd (try_loop dep att n (Suc k) (snd ?a)))) \<le> max 1 (slots b)" by linarith
    with Some one show ?thesis
      by (auto simp: try_loop_failed assms Let_def failure_slots split_beta)
  qed
qed

lemma release_slots: "slots (release_probe b) = max 0 (slots b - 1) \<or> slots (release_probe b) = slots b \<and> slots b \<le> 0"
  by (auto simp: slots_def release_probe_def)

text \<open>
  A call is bounded and leaves nothing behind. It makes at most one attempt more than its
  retries, and none while the circuit refuses it; it returns a value only if one of its attempts
  did; and however it ends - a value, a failure of any class, a timeout, a cancellation - it gives
  back the probe slot it took, so a recovering dependency can always be probed again.
\<close>

theorem call_bounded_and_slot_free:
  assumes "call_with_resilience name dep att max_retries has_fallback now b = (r, b', made)"
    and "\<And>j. at_others (att j) = (\<lambda>b. b)" "breaker_ok b"
  shows "made \<le> max_retries + 1
    \<and> (\<not> fst (allow now b) \<longrightarrow> made = 0)
    \<and> slots b' \<le> slots (maybe_half_open now b)"
proof -
  obtain ok b1 where a: "allow now b = (ok, b1)" by (cases "allow now b")
  show ?thesis
  proof (cases ok)
    case False
    have "slots b1 = slots (maybe_half_open now b)"
      using a False by (auto simp: allow_def Let_def split: CircuitState.splits if_splits)
    with a False assms(1) show ?thesis by (auto simp: call_with_resilience_def)
  next
    case True
    obtain q b2 m where t: "try_loop dep att max_retries 0 b1 = (q, b2, m)"
      by (cases "try_loop dep att max_retries 0 b1")
    have out: "b' = release_probe b2" "made = m"
      using a True t assms(1) by (auto simp: call_with_resilience_def)
    have m: "m \<le> max_retries + 1"
      using t try_loop_attempts [where n = max_retries and k = 0 and b = b1 and dep = dep and att = att] by simp
    have s2: "slots b2 \<le> max 1 (slots b1)"
      using t try_loop_slots [where att = att and n = max_retries and k = 0 and b = b1 and dep = dep, OF assms(2)] by simp
    have s1: "slots b1 \<le> slots (maybe_half_open now b) + 1" "0 \<le> slots (maybe_half_open now b)"
      using a True assms(3)
      by (auto simp: allow_def Let_def slots_def breaker_ok_def maybe_half_open_def
          split: CircuitState.splits if_splits)
    have "slots (release_probe b2) \<le> slots (maybe_half_open now b)"
      using s1 s2 release_slots [of b2] by (auto simp: max_def split: if_splits)
    with m show ?thesis by (simp add: out a True)
  qed
qed

definition demo_att :: "nat \<Rightarrow> unit attempt" where
  "demo_att k = \<lparr>at_others = (\<lambda>b. b), at_outcome = CancelledCall, at_now = 40\<rparr>"

definition demo_open :: CircuitBreaker where
  "demo_open = fold breaker_step [Fail 1] (new_breaker 1 30 1)"

theorem call_bounded_and_slot_free_witness:
  "slots (fst (snd (call_with_resilience ''llm'' ''provider'' demo_att 3 False 40 demo_open))) \<le> 0"
proof -
  have ok: "breaker_ok demo_open"
    unfolding demo_open_def by (rule breaker_ok_run [OF new_breaker_ok])
  have others: "\<And>j. at_others (demo_att j) = (\<lambda>b. b)" by (simp add: demo_att_def)
  obtain r b' made where c: "call_with_resilience ''llm'' ''provider'' demo_att 3 False 40 demo_open
      = (r, b', made)"
    by (cases "call_with_resilience ''llm'' ''provider'' demo_att 3 False 40 demo_open")
  have "slots (maybe_half_open 40 demo_open) = 0"
    by (simp add: demo_open_def new_breaker_def breaker_defs slots_def)
  with call_bounded_and_slot_free [OF c others ok] c show ?thesis by simp
qed

end
