(* ===== verification/GraphEnds.thy ===== *)
theory GraphEnds
  imports GraphProps
begin

text \<open>
  Every run of the graph ends. Each node is given a bound on the builder turns still to come
  (\<open>turns_left\<close>), which drops at every turn, and a place among the nodes between two turns, where
  only a review may be run again.
\<close>

section \<open>The turns still to come\<close>

text \<open>The attempt number from which no retry is classified any more.\<close>

definition last_number :: "settings \<Rightarrow> nat" where
  "last_number cfg = MAX_BUILDER_RETRIES cfg + (if VERDICT_BY_LIMITS cfg then 1 else 2)"

definition allowance :: "settings \<Rightarrow> pstate \<Rightarrow> nat" where
  "allowance cfg st = 5 * (GUARD_REPLAYS - guard_replay_count st)
     + 5 * (BUILDER_INFRA_RETRY_MAX cfg - infra_retry_count st)
     + 2 * (last_number cfg - min (retry_count st) (last_number cfg))"

definition first_rung :: "pstate \<Rightarrow> nat" where
  "first_rung st = (if current_rung st = 0 then 1 else 0)"

text \<open>An attempt that is run again unvalidated may be stopped and judged under the same number.\<close>

definition unvalidated :: "settings \<Rightarrow> pstate \<Rightarrow> nat" where
  "unvalidated cfg st =
     (if \<not> executor_success st \<and> MAX_BUILDER_RETRIES cfg + 1 \<le> retry_count st then 2 else 0)"

definition at_builder :: "settings \<Rightarrow> pstate \<Rightarrow> nat" where
  "at_builder cfg st = 1 + allowance cfg st + first_rung st + unvalidated cfg st"

fun turns_left :: "settings \<Rightarrow> node \<Rightarrow> pstate \<Rightarrow> nat" where
  "turns_left cfg BuilderTurn st = at_builder cfg st"
| "turns_left cfg ExecutorRun st =
     allowance cfg st + (if retry_count st < last_number cfg then 2 else first_rung st)"
| "turns_left cfg Classifying st =
     1 + allowance cfg st + unvalidated cfg st
       + (if retry_count st < last_number cfg then 1
          else if under_resolved_facts st \<noteq> None then 0 else first_rung st)"
| "turns_left cfg EngineFallback st =
     1 + allowance cfg st + unvalidated cfg st
       + (if retry_count st < last_number cfg then 1
          else if under_resolved_facts st \<noteq> None then 0 else first_rung st)"
| "turns_left cfg InfraRetry st = at_builder cfg (node_infra_retry st)"
| "turns_left cfg GuardReplay st = at_builder cfg (node_guard_replay st)"
| "turns_left cfg ReviewerRun st = (if retry_count st < last_number cfg then allowance cfg st + 2 else 0)"
| "turns_left cfg ReviewRetry st = (if retry_count st < last_number cfg then allowance cfg st + 2 else 0)"
| "turns_left cfg DeliverSound st = (if retry_count st < last_number cfg then allowance cfg st + 2 else 0)"
| "turns_left cfg FailureHandler st = 0"
| "turns_left cfg END st = 0"
| "turns_left cfg _ st = allowance cfg st + 4"

definition reruns_left :: "settings \<Rightarrow> pstate \<Rightarrow> nat" where
  "reruns_left cfg st = REVIEWER_RERUN_MAX cfg - review_rerun_count st"

fun place :: "settings \<Rightarrow> node \<Rightarrow> pstate \<Rightarrow> nat" where
  "place cfg Intake st = 11 + 2 * REVIEWER_RERUN_MAX cfg"
| "place cfg EngineSelect st = 10 + 2 * REVIEWER_RERUN_MAX cfg"
| "place cfg RepairInspect st = 9 + 2 * REVIEWER_RERUN_MAX cfg"
| "place cfg RepairAttempt st = 8 + 2 * REVIEWER_RERUN_MAX cfg"
| "place cfg GeometryAdmission st = 7 + 2 * REVIEWER_RERUN_MAX cfg"
| "place cfg ExecutorRun st = 6 + 2 * REVIEWER_RERUN_MAX cfg"
| "place cfg DeliverSound st = 5 + 2 * reruns_left cfg st"
| "place cfg ReviewerRun st = 4 + 2 * reruns_left cfg st"
| "place cfg ReviewRetry st = 5 + 2 * (REVIEWER_RERUN_MAX cfg - (review_rerun_count st + 1))"
| "place cfg Classifying st = 3"
| "place cfg EngineFallback st = 2"
| "place cfg InfraRetry st = 2"
| "place cfg GuardReplay st = 2"
| "place cfg _ st = 1"

definition width :: "settings \<Rightarrow> nat" where
  "width cfg = 12 + 2 * REVIEWER_RERUN_MAX cfg"

fun steps_left :: "settings \<Rightarrow> gstate \<Rightarrow> nat" where
  "steps_left cfg (At n st r) = turns_left cfg n st * width cfg + place cfg n st"
| "steps_left cfg (Ended st m) = 0"
| "steps_left cfg (Crashed c) = 0"

lemma place_bounds: "0 < place cfg n st" "place cfg n st < width cfg"
  by (cases n; simp add: width_def reruns_left_def)+

lemma fewer_turns:
  "turns_left cfg n' st' < turns_left cfg n st \<Longrightarrow> steps_left cfg (At n' st' r') < steps_left cfg (At n st r)"
proof -
  assume "turns_left cfg n' st' < turns_left cfg n st"
  then have "(turns_left cfg n' st' + 1) * width cfg \<le> turns_left cfg n st * width cfg"
    by (intro mult_le_mono1) simp
  with place_bounds [of cfg n' st'] show ?thesis by (simp add: algebra_simps)
qed

lemma same_turns:
  "turns_left cfg n' st' \<le> turns_left cfg n st \<Longrightarrow> place cfg n' st' < place cfg n st
     \<Longrightarrow> steps_left cfg (At n' st' r') < steps_left cfg (At n st r)"
  using mult_le_mono1 [of "turns_left cfg n' st'" "turns_left cfg n st" "width cfg"]
  by (simp add: add_le_less_mono)

lemma ends_here: "steps_left cfg (Ended st' m) < steps_left cfg (At n st r)"
  "steps_left cfg (Crashed c) < steps_left cfg (At n st r)"
  using place_bounds [of cfg n st] by simp_all

lemma go_less:
  assumes "n' = END \<or> turns_left cfg n' st' < turns_left cfg n st
    \<or> turns_left cfg n' st' \<le> turns_left cfg n st \<and> place cfg n' st' < place cfg n st"
  shows "steps_left cfg (go n' st' r') < steps_left cfg (At n st r)"
  using assms fewer_turns [of cfg n' st' n st] same_turns [of cfg n' st' n st]
    ends_here(1) [of cfg st' "[]" n st]
  by (auto simp: go_def)

section \<open>Every step uses one up\<close>

lemmas measures = at_builder_def allowance_def first_rung_def unvalidated_def last_number_def
  GUARD_REPLAYS_def

text \<open>The counting behind a replayed and a built turn.\<close>

lemma count_replayed:
  fixes r r' M L i m g z :: nat
  assumes "i < m" "r \<le> M + 1" "L = M + (if v then 1 else 2)"
    and "r' = r + 1 \<or> r' = M + 1 \<and> (v \<or> \<not> x)"
  shows "1 + (5 * g + 5 * (m - (i + 1)) + 2 * (L - min (r' - 1) L)) + z
      + (if \<not> x \<and> M + 1 \<le> r' - 1 then 2 else 0)
    < 1 + (5 * g + 5 * (m - i) + 2 * (L - min r L)) + z + (if \<not> x \<and> M + 1 \<le> r then 2 else 0)"
proof -
  have m: "5 * (m - i) = 5 * (m - (i + 1)) + 5" using assms(1) by simp
  have l: "L - min r' L = L - r'" for r' by (simp add: min_def)
  show ?thesis unfolding m l assms(3) using assms(2,4) by (cases v; cases x) auto
qed

lemma count_built:
  fixes r r' M L a z :: nat
  assumes "r \<le> M + 1" "L = M + (if v then 1 else 2)" "z \<le> 1"
    and "r' = r + 1 \<or> r' = M + 1 \<and> (v \<or> \<not> x)"
  shows "a + 2 * (L - min r' L) + (if r' < L then 2 else z)
    < 1 + (a + 2 * (L - min r L)) + z + (if \<not> x \<and> M + 1 \<le> r then 2 else 0)"
proof -
  have l: "L - min r' L = L - r'" for r' by (simp add: min_def)
  show ?thesis unfolding l assms(2) using assms(1,3,4) by (cases v; cases x) auto
qed

lemma replay_fields:
  "retry_count (node_infra_retry st) = retry_count st - 1"
  "infra_retry_count (node_infra_retry st) = infra_retry_count st + 1"
  "guard_replay_count (node_infra_retry st) = guard_replay_count st"
  "executor_success (node_infra_retry st) = executor_success st"
  "retry_count (node_guard_replay st) = retry_count st - 1"
  "infra_retry_count (node_guard_replay st) = infra_retry_count st"
  "guard_replay_count (node_guard_replay st) = guard_replay_count st + 1"
  "\<not> executor_success (node_guard_replay st)"
  "first_rung (node_infra_retry st) = first_rung st"
  "first_rung (node_guard_replay st) = first_rung st"
  by (simp_all add: node_infra_retry_def node_guard_replay_def first_rung_def current_rung_def)

lemma builder_less:
  fixes cfg t st
  defines "s \<equiv> fst (node_builder cfg t st)"
  assumes "retry_count st \<le> MAX_BUILDER_RETRIES cfg + 1"
    and "VERDICT_BY_LIMITS cfg \<or> builder_noop_count s < NOOP_LIMIT"
  shows "route_after_builder cfg s = END
    \<or> turns_left cfg (route_after_builder cfg s) s < turns_left cfg BuilderTurn st"
proof -
  have frame: "guard_replay_count s = guard_replay_count st" "infra_retry_count s = infra_retry_count st"
    "executor_success s = executor_success st" "rung_record s = rung_record st"
    by (simp_all add: s_def node_builder_def)
  have rung: "first_rung s = first_rung st" "first_rung st \<le> 1"
    by (simp_all add: first_rung_def current_rung_def frame)
  have last: "last_number cfg = MAX_BUILDER_RETRIES cfg + (if VERDICT_BY_LIMITS cfg then 1 else 2)"
    by (rule last_number_def)
  have infra: "turns_left cfg InfraRetry s < turns_left cfg BuilderTurn st"
    if "infra_retry_count s < BUILDER_INFRA_RETRY_MAX cfg"
      "retry_count s = retry_count st + 1
       \<or> retry_count s = MAX_BUILDER_RETRIES cfg + 1
         \<and> (VERDICT_BY_LIMITS cfg \<or> \<not> executor_success st)"
  proof -
    have i: "infra_retry_count st < BUILDER_INFRA_RETRY_MAX cfg" using that(1) frame by simp
    have "at_builder cfg (node_infra_retry s) < at_builder cfg st"
      using count_replayed [OF i assms(2) last that(2) [folded frame(3)], where
          g = "GUARD_REPLAYS - guard_replay_count st" and z = "first_rung st"] frame
      by (simp only: at_builder_def allowance_def unvalidated_def rung replay_fields)
    then show ?thesis by simp
  qed
  have rung: "first_rung s = first_rung st" "first_rung st \<le> 1"
    by (simp_all add: first_rung_def current_rung_def frame)
  have last: "last_number cfg = MAX_BUILDER_RETRIES cfg + (if VERDICT_BY_LIMITS cfg then 1 else 2)"
    by (rule last_number_def)
  have infra: "turns_left cfg InfraRetry s < turns_left cfg BuilderTurn st"
    if "infra_retry_count s < BUILDER_INFRA_RETRY_MAX cfg"
      "retry_count s = retry_count st + 1
       \<or> retry_count s = MAX_BUILDER_RETRIES cfg + 1
         \<and> (VERDICT_BY_LIMITS cfg \<or> \<not> executor_success st)"
    using count_replayed [where i = "infra_retry_count st" and m = "BUILDER_INFRA_RETRY_MAX cfg"
        and r = "retry_count st" and M = "MAX_BUILDER_RETRIES cfg" and L = "last_number cfg"
        and v = "VERDICT_BY_LIMITS cfg" and x = "executor_success st" and r' = "retry_count s"
        and g = "GUARD_REPLAYS - guard_replay_count st" and z = "first_rung st"]
      that assms(2) frame
    by (simp add: at_builder_def allowance_def first_rung_def unvalidated_def node_infra_retry_def
        current_rung_def last_number_def)
  have run: "turns_left cfg ExecutorRun s < turns_left cfg BuilderTurn st"
    if "retry_count s = retry_count st + 1
       \<or> retry_count s = MAX_BUILDER_RETRIES cfg + 1
         \<and> (VERDICT_BY_LIMITS cfg \<or> \<not> executor_success st)"
    using count_built [OF assms(2) last rung(2) that [folded frame(3)], where
        a = "5 * (GUARD_REPLAYS - guard_replay_count st)
          + 5 * (BUILDER_INFRA_RETRY_MAX cfg - infra_retry_count st)"]
    by (simp only: turns_left.simps at_builder_def allowance_def unvalidated_def rung frame)
  have s: "retry_count s = p_retry_count (fst (builder_patch cfg t st))"
    by (simp add: s_def node_builder_def)
  show ?thesis
  proof (rule turn_ends [of cfg t st])
    assume "p_api_failure (fst (builder_patch cfg t st)) \<noteq> []"
      "p_stop (fst (builder_patch cfg t st)) = []"
      "p_retry_count (fst (builder_patch cfg t st)) = retry_count st + 1"
    with s infra run show ?thesis by (auto simp: route_after_builder_def measures)
  next
    assume "p_stop (fst (builder_patch cfg t st)) \<noteq> []"
    then have "builder_stop s \<noteq> []" by (simp add: s_def node_builder_def apply_patch_def Let_def)
    then show ?thesis by (simp add: route_after_builder_def)
  next
    assume b: "p_api_failure (fst (builder_patch cfg t st)) = []"
      "p_stop (fst (builder_patch cfg t st)) = []"
      "p_retry_count (fst (builder_patch cfg t st)) = retry_count st + 1
       \<or> p_retry_count (fst (builder_patch cfg t st)) = MAX_BUILDER_RETRIES cfg + 1
         \<and> (\<not> executor_success st \<or> NOOP_LIMIT \<le> p_noop_count (fst (builder_patch cfg t st)))"
    have "builder_noop_count s = p_noop_count (fst (builder_patch cfg t st))"
      using b(1,2) by (simp add: s_def node_builder_def apply_patch_def Let_def)
    with b(3) assms(3) s have "retry_count s = retry_count st + 1
       \<or> retry_count s = MAX_BUILDER_RETRIES cfg + 1
         \<and> (VERDICT_BY_LIMITS cfg \<or> \<not> executor_success st)"
      by auto
    with infra run show ?thesis by (auto simp: route_after_builder_def measures)
  qed
qed

lemma under_resolved_classifier [simp]:
  "under_resolved_facts (node_classifier vc fb st) = under_resolved_facts st"
  by (simp add: under_resolved_facts_def)

lemma count_guard:
  fixes r L M g :: nat
  assumes "g < GUARD_REPLAYS" "z \<le> 1"
  shows "1 + (5 * (GUARD_REPLAYS - (g + 1)) + a + 2 * (L - min (r - 1) L)) + z
      + (if M + 1 \<le> r - 1 then 2 else 0)
    \<le> 5 * (GUARD_REPLAYS - g) + a + 2 * (L - min r L) + (if r < L then 2 else z)"
proof -
  have l: "L - min k L = L - k" for k by (simp add: min_def)
  have "L - (r - 1) \<le> L - r + 1" by simp
  then show ?thesis using assms unfolding l by (auto simp: GUARD_REPLAYS_def)
qed

lemma executor_less:
  fixes q sg mf
  assumes "node_executor cfg cat m r st = Inr s"
  defines "n \<equiv> route_after_executor cfg cat q sg mf s"
  shows "n = END \<or> turns_left cfg n s \<le> turns_left cfg ExecutorRun st
      \<and> place cfg n s < place cfg ExecutorRun st"
proof -
  note frame = executor_frame [OF assms(1)]
  have same: "allowance cfg s = allowance cfg st" "first_rung s = first_rung st"
    by (simp_all add: allowance_def first_rung_def current_rung_def frame)
  have z: "first_rung st \<le> 1" by (simp add: first_rung_def)
  have pl: "place cfg n s < place cfg ExecutorRun st"
    using after_executor [of cfg cat q sg mf s] by (auto simp: n_def reruns_left_def)
  consider (Guard) "n = GuardReplay" | (Retry) "n = Classifying" | (Other) "n \<in> {ReviewerRun, DeliverSound}"
    | (End) "n = END"
    using after_executor [of cfg cat q sg mf s] n_def by auto
  then show ?thesis
  proof cases
    case Guard
    then have "guard_replay_count st < GUARD_REPLAYS"
      using frame by (auto simp: n_def route_after_executor_def after_trip_def or_else_def
          sound_or_end_def Let_def split: if_splits)
    from count_guard [OF this z, where r = "retry_count st" and L = "last_number cfg"
        and M = "MAX_BUILDER_RETRIES cfg"
        and a = "5 * (BUILDER_INFRA_RETRY_MAX cfg - infra_retry_count st)"] Guard pl show ?thesis
      by (simp add: at_builder_def allowance_def unvalidated_def replay_fields same frame)
  next
    case Retry
    have early: "retry_count s \<le> MAX_BUILDER_RETRIES cfg
      \<or> executor_success s \<and> fst (rung_after_switch s (BUILDER_MAX_TOTAL_ATTEMPTS cfg))"
      using Retry by (auto simp: n_def route_after_executor_def sound_or_end_def Let_def split: if_splits)
    have u: "unvalidated cfg s = 0" using early by (auto simp: unvalidated_def)
    have rung: "retry_count s < last_number cfg \<or> under_resolved_facts s \<noteq> None \<and> first_rung st = 1"
      using early
    proof
      assume e: "executor_success s \<and> fst (rung_after_switch s (BUILDER_MAX_TOTAL_ATTEMPTS cfg))"
      then have "resolution_caveat (requirement_caveats s) \<noteq> None" "current_rung s = 0"
        by (auto simp: rung_after_switch_def split: option.splits if_splits)
      with executor_short [OF assms(1)] e same show ?thesis by (simp add: first_rung_def)
    qed (simp add: last_number_def)
    with Retry pl u same frame show ?thesis by (auto simp: first_rung_def)
  next
    case Other
    with pl same frame show ?thesis by auto
  qed simp
qed

lemma fallback_less:
  fixes cfg cat q mo sg st
  defines "s \<equiv> node_engine_fallback cfg cat q mo sg st"
  shows "turns_left cfg BuilderTurn s \<le> turns_left cfg EngineFallback st"
proof -
  note frame = fallback_frame [of cfg cat q mo sg st, folded s_def]
  have same: "allowance cfg s = allowance cfg st" "unvalidated cfg s = unvalidated cfg st"
    by (simp_all add: allowance_def unvalidated_def frame)
  have z: "first_rung s \<le> 1" by (simp add: first_rung_def)
  have "first_rung s \<le> (if under_resolved_facts st \<noteq> None then 0 else first_rung st)"
    if "last_number cfg \<le> retry_count st"
  proof -
    have "MAX_BUILDER_RETRIES cfg < retry_count st" using that by (simp add: last_number_def split: if_splits)
    moreover obtain to where "rung_record s = next_ladder st to"
      "to = [] \<or> retry_count st \<le> MAX_BUILDER_RETRIES cfg"
      unfolding s_def
    proof (rule fallback_writes [of cfg cat q mo sg st])
      fix e bm nc cs es l to
      assume "node_engine_fallback cfg cat q mo sg st = st\<lparr>engine := e, builder_mode := bm,
          builder_noop_count := nc, classifier_summary := cs, error_source := es, ladder_record := l,
          rung_record := next_ladder st to\<rparr>"
        and "to = [] \<and> e = engine st \<and> nc = builder_noop_count st
          \<or> to \<noteq> [] \<and> e = to \<and> nc = 0 \<and> retry_count st \<le> MAX_BUILDER_RETRIES cfg
            \<and> may_switch_on_its_own st"
      then show thesis by (intro that [of to]) (auto simp: s_def)
    qed
    ultimately have "rung_record s = next_ladder st []" by auto
    then show ?thesis
      by (cases "under_resolved_facts st")
        (auto simp: first_rung_def current_rung_def next_ladder_def RUNG_FACTORS_def Let_def)
  qed
  with z same show ?thesis by (auto simp: at_builder_def)
qed

lemma reviewer_less:
  fixes cfg ri st
  defines "s \<equiv> node_reviewer ri st"
  defines "n \<equiv> route_after_reviewer cfg s"
  shows "n = END \<or> turns_left cfg n s \<le> turns_left cfg ReviewerRun st
      \<and> place cfg n s < place cfg ReviewerRun st"
proof -
  have same: "allowance cfg s = allowance cfg st" "retry_count s = retry_count st"
    "review_rerun_count s = review_rerun_count st"
    by (simp_all add: allowance_def s_def)
  consider (Again) "n = ReviewRetry" | (Retry) "n = Classifying" | (Fail) "n = FailureHandler" | (End) "n = END"
    using after_reviewer [of cfg s] n_def by auto
  then show ?thesis
  proof cases
    case Again
    then have "review_rerun_count s < REVIEWER_RERUN_MAX cfg"
      by (auto simp: n_def route_after_reviewer_def review_can_rerun_def Let_def split: if_splits)
    with Again same show ?thesis by (simp add: reruns_left_def)
  next
    case Retry
    then have "retry_count s < last_number cfg \<and> unvalidated cfg s = 0"
      by (auto simp: n_def route_after_reviewer_def last_number_def unvalidated_def Let_def split: if_splits)
    with Retry same show ?thesis by (simp add: reruns_left_def)
  next
    case Fail
    then show ?thesis by (simp add: reruns_left_def)
  qed simp
qed

lemma prelude_turns:
  "n \<in> {EngineSelect, RepairInspect, RepairAttempt, GeometryAdmission, BuilderTurn, ReviewerRun,
      FailureHandler, ExecutorRun, END} \<Longrightarrow> turns_left cfg n st \<le> allowance cfg st + 4"
  by (auto simp: at_builder_def first_rung_def unvalidated_def)

fun idle_turns :: "gstate \<Rightarrow> nat" where
  "idle_turns (At n st r) = builder_noop_count st"
| "idle_turns (Ended st m) = builder_noop_count st"
| "idle_turns (Crashed c) = 0"

lemma idle_go [simp]: "idle_turns (go n st r) = builder_noop_count st"
  by (simp add: go_def)

lemma step_less:
  assumes "numbered (pl_settings pl) g" "running g"
    and "VERDICT_BY_LIMITS (pl_settings pl) \<or> idle_turns (graph_step pl w g) < NOOP_LIMIT"
  shows "steps_left (pl_settings pl) (graph_step pl w g) < steps_left (pl_settings pl) g"
proof (cases g)
  case (At n st r)
  let ?c = "pl_settings pl"
  show ?thesis
  proof (cases "gw_owned w")
    case False
    with At ends_here(2) show ?thesis by (simp add: fenced_def)
  next
    case True
    with At have g: "graph_step pl w g = run_node pl w n st r" by (simp add: fenced_def)
    have "steps_left ?c (run_node pl w n st r) < steps_left ?c (At n st r)"
    proof (cases n)
      case Intake
      let ?s = "node_intake (gw_intake w) st"
      have "allowance ?c ?s = allowance ?c st"
        by (simp add: node_intake_def allowance_def split: option.split)
      then show ?thesis
        using go_less [of "route_after_intake ?s" ?c ?s n st None r] Intake
        by (auto simp: route_after_intake_def Let_def)
    next
      case EngineSelect
      show ?thesis
      proof (cases "node_engine_select (pl_catalogue pl) (gw_select w) st")
        case (Inl e)
        with EngineSelect ends_here(2) show ?thesis by simp
      next
        case (Inr s)
        have "allowance ?c s = allowance ?c st" "review_rerun_count s = review_rerun_count st"
          by (rule select_writes [OF Inr], simp add: allowance_def)+
        then show ?thesis
          using go_less [of "route_after_engine_select s" ?c s n st None r] EngineSelect Inr
          by (auto simp: route_after_engine_select_def reruns_left_def)
      qed
    next
      case RepairInspect
      then show ?thesis using same_turns [of ?c RepairAttempt st RepairInspect st None r] by simp
    next
      case RepairAttempt
      then show ?thesis using same_turns [of ?c GeometryAdmission st RepairAttempt st None r] by simp
    next
      case GeometryAdmission
      let ?s = "node_geometry_admission ?c (gw_admission w) st"
      have le: "retry_count st \<le> MAX_BUILDER_RETRIES ?c + 1"
        using assms(1) At GeometryAdmission by (simp add: number_limit_def turn_due_def)
      have "allowance ?c ?s \<le> allowance ?c st"
        using le by (auto simp: node_geometry_admission_def refuse_geometry_def allowance_def
            intro!: diff_le_mono2 split: option.split)
      then show ?thesis
        using go_less [of "route_after_geometry_admission ?s" ?c ?s n st None r] GeometryAdmission
          prelude_turns [of BuilderTurn ?c ?s] prelude_turns [of ExecutorRun ?c ?s]
        by (auto simp: route_after_geometry_admission_def Let_def simp del: turns_left.simps(1,2))
    next
      case BuilderTurn
      define s where "s = fst (node_builder ?c (gw_turn w) st)"
      define left where "left = snd (node_builder ?c (gw_turn w) st)"
      have nb: "node_builder ?c (gw_turn w) st = (s, left)" by (simp add: s_def left_def)
      have step: "run_node pl w n st r = go (route_after_builder ?c s) s left"
        using BuilderTurn nb by simp
      have le: "retry_count st \<le> MAX_BUILDER_RETRIES ?c + 1"
        using assms(1) At BuilderTurn by (simp add: number_limit_def turn_due_def)
      have "VERDICT_BY_LIMITS ?c \<or> builder_noop_count s < NOOP_LIMIT"
        using assms(3) g step by simp
      from builder_less [OF le this [unfolded s_def]] show ?thesis
        unfolding step using go_less [of "route_after_builder ?c s" ?c s n st left r] BuilderTurn
        by (auto simp: s_def simp del: turns_left.simps)
    next
      case ExecutorRun
      show ?thesis
      proof (cases "node_executor ?c (pl_catalogue pl) (gw_measurement w) r st")
        case (Inl f)
        with ExecutorRun ends_here(2) show ?thesis by simp
      next
        case (Inr s)
        have "steps_left ?c (go (route_after_executor ?c (pl_catalogue pl) (pl_request pl)
            (gw_staged w) (gw_manifests w) s) s None) < steps_left ?c (At ExecutorRun st r)"
          by (rule go_less) (use executor_less [OF Inr] in blast)
        with ExecutorRun Inr show ?thesis by simp
      qed
    next
      case Classifying
      then show ?thesis
        by (auto simp: allowance_def unvalidated_def first_rung_def current_rung_def
            intro!: same_turns simp del: steps_left.simps)
    next
      case EngineFallback
      with fallback_less show ?thesis
        by (auto intro!: same_turns simp del: steps_left.simps turns_left.simps)
    next
      case ReviewerRun
      have "steps_left ?c (go (route_after_reviewer ?c (node_reviewer (gw_review w) st))
          (node_reviewer (gw_review w) st) None) < steps_left ?c (At ReviewerRun st r)"
        by (rule go_less) (use reviewer_less [of ?c "gw_review w" st] in blast)
      with ReviewerRun show ?thesis by (simp add: Let_def)
    next
      case InfraRetry
      then show ?thesis by (auto intro!: same_turns simp del: steps_left.simps)
    next
      case GuardReplay
      then show ?thesis by (auto intro!: same_turns simp del: steps_left.simps)
    next
      case ReviewRetry
      then show ?thesis
        by (auto simp: node_review_retry_def allowance_def reruns_left_def intro!: same_turns
            simp del: steps_left.simps)
    next
      case DeliverSound
      then show ?thesis
        by (auto simp: deliver_frame allowance_def reruns_left_def intro!: same_turns
            simp del: steps_left.simps)
    qed (simp_all add: ends_here)
    with At g show ?thesis by simp
  qed
qed (use assms(2) in simp_all)

end
