(* ===== verification/GraphRuns.thy ===== *)
theory GraphRuns
  imports GraphEnds
begin

text \<open>
  The properties of whole runs: how long they are, how their attempts are numbered, what they deliver
  and what they may change; and a run of reviews that never ends.
\<close>

section \<open>Every run ends\<close>

lemma graph_run_ended [simp]: "\<not> running g \<Longrightarrow> graph_run pl ws g = g"
  unfolding graph_run_def by (induction ws) (cases g; simp)+

lemma graph_run_Cons [simp]: "graph_run pl (w # ws) g = graph_run pl ws (graph_step pl w g)"
  by (simp add: graph_run_def)

lemma graph_run_Nil [simp]: "graph_run pl [] g = g"
  by (simp add: graph_run_def)

lemma graph_run_append: "graph_run pl (us @ ws) g = graph_run pl ws (graph_run pl us g)"
  by (simp add: graph_run_def)

lemma run_ends:
  assumes "numbered (pl_settings pl) g"
    and "VERDICT_BY_LIMITS (pl_settings pl) \<or> (\<forall>k. idle_turns (graph_run pl (take k ws) g) < NOOP_LIMIT)"
    and "steps_left (pl_settings pl) g \<le> length ws"
  shows "\<not> running (graph_run pl ws g)"
  using assms
proof (induction ws arbitrary: g)
  case Nil
  show ?case
  proof (cases g)
    case (At n st r)
    with Nil.prems(3) place_bounds(1) [of "pl_settings pl" n st] show ?thesis by simp
  qed simp_all
next
  case (Cons w ws)
  show ?case
  proof (cases "running g")
    case True
    have idle: "VERDICT_BY_LIMITS (pl_settings pl)
        \<or> (\<forall>k. idle_turns (graph_run pl (take k ws) (graph_step pl w g)) < NOOP_LIMIT)"
      using Cons.prems(2) by (metis graph_run_Cons take_Suc_Cons)
    then have "VERDICT_BY_LIMITS (pl_settings pl) \<or> idle_turns (graph_step pl w g) < NOOP_LIMIT"
      by (metis graph_run_Nil take0)
    from step_less [OF Cons.prems(1) True this] Cons.prems(3)
    have "steps_left (pl_settings pl) (graph_step pl w g) \<le> length ws" by simp
    then have "\<not> running (graph_run pl ws (graph_step pl w g))"
      using Cons.prems(1) idle by (intro Cons.IH numbered_step)
    then show ?thesis by simp
  next
    case False
    then have "graph_run pl (w # ws) g = g" by (rule graph_run_ended)
    with False show ?thesis by simp
  qed
qed

definition run_bound :: "settings \<Rightarrow> nat" where
  "run_bound cfg = (5 * GUARD_REPLAYS + 5 * BUILDER_INFRA_RETRY_MAX cfg + 2 * last_number cfg + 5)
     * (12 + 2 * REVIEWER_RERUN_MAX cfg)"

lemma start_bound: "steps_left cfg (graph_start st) \<le> run_bound cfg"
proof -
  have "turns_left cfg Intake st + 1 \<le> 5 * GUARD_REPLAYS + 5 * BUILDER_INFRA_RETRY_MAX cfg + 2 * last_number cfg + 5"
    by (simp add: allowance_def)
  then have "(turns_left cfg Intake st + 1) * width cfg \<le> run_bound cfg"
    unfolding run_bound_def width_def by (rule mult_le_mono1)
  with place_bounds [of cfg Intake st] show ?thesis by (simp add: graph_start_def algebra_simps)
qed


text \<open>
  C8: an attempt's number never passes the ceiling. Whatever retries, replays, engine switches and
  improvement retries a run makes, at every moment the attempt it counts is at most
  \<open>BUILDER_MAX_TOTAL_ATTEMPTS\<close>.
\<close>

theorem attempts_within_ceiling:
  assumes "retry_count st = 0"
    and "graph_run pl ws (graph_start st) \<in> {At n s r, Ended s m}"
  shows "retry_count s \<le> BUILDER_MAX_TOTAL_ATTEMPTS (pl_settings pl)"
proof -
  have "numbered (pl_settings pl) (graph_start st)" using assms(1) by (simp add: graph_start_def)
  from numbered_run [OF this, of ws] assms(2) show ?thesis
    by (auto simp: number_limit_def BUILDER_MAX_TOTAL_ATTEMPTS_def split: if_splits)
qed

section \<open>A run in which every turn fails\<close>

text \<open>The pieces of a concrete run: what the outside answers at each of its steps.\<close>

definition demo_pipeline :: pipeline where
  "demo_pipeline = \<lparr>pl_settings = demo_settings, pl_catalogue = [demo_spec ''snappy''],
     pl_vocabulary = \<lparr>vc_gate_section = (\<lambda>e g. None), vc_axis = (\<lambda>e a. None)\<rparr>,
     pl_request = demo_request\<rparr>"

definition demo_turn :: turn where
  "demo_turn = \<lparr>t_exhausted = False, t_previous = None, t_staging = Staged,
     t_staging_refusal = \<lparr>rf_gate = [], rf_cause = [], rf_text = [], rf_facts = no_facts\<rparr>,
     t_before = ''a'', t_after = ''b'', t_api_failure = [], t_driver_stop = [], t_refusal = None\<rparr>"

definition demo_measurement :: measurement where
  "demo_measurement = \<lparr>x_trips = [], x_runs = None, x_mesh_on_disk = True,
     x_deterministic_build = False, x_finalize_ok = True, x_finalize_trips = [], x_broken = [],
     x_gates = [], x_manifest_loads = True, x_cell_count = None, x_mesh_mode = [],
     x_extent = NoFarField, x_strict = False, x_connected = True, x_solve = NoSolve, x_plan = None,
     x_output = []\<rparr>"

definition demo_review :: review_input where
  "demo_review = \<lparr>ri_evidence_key = [], ri_brief = ''Note: the WAKE behind the car is refined.'',
     ri_levers = [''refinement''], ri_measured = demo_measured,
     ri_outcome = Accepted False [demo_finding\<lparr>rw_wrong_problem := []\<rparr>] False\<rparr>"

definition demo_world :: gworld where
  "demo_world = \<lparr>gw_owned = True, gw_intake = None,
     gw_select = \<lparr>sl_topology = [], sl_declared = [], sl_producing = [], sl_default = ''snappy'',
       sl_measured = None, sl_recommended = []\<rparr>,
     gw_admission = \<lparr>ad_declared = [], ad_measures = False, ad_source_exists = False,
       ad_staged = False, ad_analysed = False, ad_rejections = []\<rparr>,
     gw_turn = demo_turn, gw_measurement = demo_measurement, gw_review = demo_review,
     gw_feedback = [], gw_manifests = (\<lambda>ws. None), gw_order = None, gw_staged = None\<rparr>"

definition failing_world :: gworld where
  "failing_world = demo_world\<lparr>gw_measurement := demo_measurement\<lparr>x_finalize_ok := False\<rparr>\<rparr>"


theorem attempts_within_ceiling_witness:
  "\<exists>s m. graph_run demo_pipeline (replicate 12 failing_world)
       (graph_start (initial_state ''snappy'' ''system'' None)) = Ended s m \<and> retry_count s \<le> 3"
proof -
  let ?g = "graph_run demo_pipeline (replicate 12 failing_world)
    (graph_start (initial_state ''snappy'' ''system'' None))"
  have "(case ?g of Ended s m \<Rightarrow> True | _ \<Rightarrow> False)" by code_simp
  then obtain s m where g: "?g = Ended s m" by (cases ?g) auto
  have "retry_count s \<le> BUILDER_MAX_TOTAL_ATTEMPTS (pl_settings demo_pipeline)"
  proof (rule attempts_within_ceiling)
    show "?g \<in> {At END s None, Ended s m}" using g by simp
  qed (simp add: initial_state_def)
  with g show ?thesis by (simp add: BUILDER_MAX_TOTAL_ATTEMPTS_def demo_pipeline_def demo_settings_def)
qed

section \<open>Reviews without end\<close>

definition noop_world :: gworld where
  "noop_world = failing_world\<lparr>gw_turn := demo_turn\<lparr>t_after := ''a''\<rparr>\<rparr>"

definition tripping_world :: gworld where
  "tripping_world = noop_world\<lparr>gw_measurement := demo_measurement
     \<lparr>x_trips := [\<lparr>trip_where = ''snappy'', trip_rule = None\<rparr>]\<rparr>\<rparr>"

definition endless_prefix :: "gworld list" where
  "endless_prefix = replicate 9 failing_world @ [noop_world] @ replicate 3 tripping_world"

definition in_loop :: "pstate \<Rightarrow> bool" where
  "in_loop st \<longleftrightarrow> retry_count st = 2 \<and> builder_noop_count st = 2 \<and> user_dispute st = None
     \<and> geometry_unsuitable_reason st = [] \<and> openfoam_workspace st \<noteq> [] \<and> builder_stop st = []
     \<and> api_failure st = [] \<and> list_all (\<lambda>h. h_attempt h = 2) (review_history st)"

lemma endless_prefix_loops:
  "case graph_run demo_pipeline endless_prefix (graph_start (initial_state ''snappy'' ''system'' None)) of
     At n s r \<Rightarrow> n = ExecutorRun \<and> r = None \<and> in_loop s | _ \<Rightarrow> False"
  by code_simp

definition loop_findings :: "finding list" where
  "loop_findings =
     (let fs = settle [demo_finding\<lparr>rw_wrong_problem := []\<rparr>] demo_measured;
          js = judge_all (ri_brief demo_review) [''refinement''] demo_measured fs
      in map (recorded_finding js) fs)"

lemma loop_findings_ask:
  "asks_for_rebuild loop_findings" "blocking_findings loop_findings = []"
  by code_simp+

lemma loop_executor:
  assumes "in_loop st"
  obtains xs where "node_executor demo_settings [demo_spec ''snappy''] demo_measurement None st
    = Inr (st\<lparr>executor_success := True, executor_output := [], executor_failed_gate := [],
        executor_failure_cause := [], executor_failure_facts := no_facts, requirement_caveats := [],
        sound_attempts := xs\<rparr>)"
  using assms
  by (simp add: in_loop_def node_executor_def guard_trip_stops_def demo_measurement_def
      attempt_ending_def launched_def judge_mesh_def over_one_job_def judge_extent_def
      record_verdict_def Let_def)

lemma loop_review:
  assumes "executor_success st" "user_dispute st = None" "requirement_caveats st = []"
  obtains h where "node_reviewer demo_review st = st\<lparr>reviewer_verdict := ''FAIL'',
      reviewer_axis_findings := loop_findings, reviewer_rebuild_required := False,
      review_history := review_history st @ [h]\<rparr>" "h_attempt h = retry_count st" "h_verdict h = ''FAIL''"
proof -
  have "reused_review st demo_review = None"
    by (simp add: reused_review_def demo_review_def)
  moreover have "\<not> review_passes (settle [demo_finding\<lparr>rw_wrong_problem := []\<rparr>] demo_measured) demo_measured"
    by code_simp
  ultimately show ?thesis
    using assms that
    by (simp add: node_reviewer_def demo_review_def review_concludes_def loop_findings_def Let_def)
qed

text \<open>A failed review leaves the engine alone, so the node only keeps its record.\<close>

lemma fallback_stays:
  assumes "executor_success st" "requirement_caveats st = []" "reviewer_verdict st = ''FAIL''"
  obtains l r where "node_engine_fallback cfg cat q None None st
    = st\<lparr>ladder_record := l, rung_record := r\<rparr>"
proof -
  have s: "with_staged_passages None (seed_measured_order None st) = st"
    by (simp add: with_staged_passages_def seed_measured_order_def)
  have c: "classify cat st = Some \<lparr>kind = REVIEW, cause = ''review'', stop = Some REVIEW_REBUILD\<rparr>"
    using assms by (simp add: classify_def resolution_caveat_def note_caveats_def)
  have d: "switch_to (decide cfg cat q st rec) = []"
    "decided_on (decide cfg cat q st rec) \<noteq> None" for rec
    by (simp_all add: decide_def c stay_def)
  then have "node_engine_fallback cfg cat q None None st
      = st\<lparr>ladder_record := with_attempt st (classify cat st), rung_record := next_ladder st []\<rparr>"
    by (auto simp: node_engine_fallback_def s Let_def split: option.split)
  then show ?thesis by (rule that)
qed

lemma loop_builder:
  assumes "in_loop st" "executor_success st" "error_source st = ''reviewer_fail''"
    "builder_mode st = ''retry''" "classifier_gate st = []"
  obtains "node_builder demo_settings demo_turn st
    = (st\<lparr>retry_count := 2, openfoam_workspace := attempt_dir 3, builder_noop_count := 2,
         review_rerun_count := 0\<rparr>, None)"
proof -
  have "builder_patch demo_settings demo_turn st
    = (\<lparr>p_workspace = attempt_dir 3, p_retry_count = 2, p_noop_count = 2, p_api_failure = [],
         p_stop = []\<rparr>, None)"
    using assms
    by (simp add: builder_patch_def demo_turn_def in_loop_def noop_verdict_def assess_def
        failure_signature_def repeats_previous_def is_retry_def NOOP_LIMIT_def demo_settings_def
        STOP_REVIEWED_CASE_REPEATS_def Let_def)
  then have "node_builder demo_settings demo_turn st
    = (st\<lparr>retry_count := 2, openfoam_workspace := attempt_dir 3, builder_noop_count := 2,
         review_rerun_count := 0\<rparr>, None)"
    by (simp add: node_builder_def apply_patch_def)
  then show ?thesis by (rule that)
qed

lemma loop_round:
  assumes "in_loop st"
  shows "\<exists>s. graph_run demo_pipeline (replicate 5 demo_world) (At ExecutorRun st None) = At ExecutorRun s None
    \<and> in_loop s \<and> length (review_history s) = length (review_history st) + 1"
proof -
  have step: "graph_step demo_pipeline demo_world (At n s r) = run_node demo_pipeline demo_world n s r" for n s r
    by (simp add: fenced_def demo_world_def)
  have pl: "pl_settings demo_pipeline = demo_settings" "pl_catalogue demo_pipeline = [demo_spec ''snappy'']"
    by (simp_all add: demo_pipeline_def)
  have w: "gw_measurement demo_world = demo_measurement" "gw_review demo_world = demo_review"
    "gw_turn demo_world = demo_turn" "gw_order demo_world = None" "gw_staged demo_world = None"
    by (simp_all add: demo_world_def)
  have l: "user_dispute st = None" "retry_count st = 2" "builder_stop st = []" "api_failure st = []"
    "builder_noop_count st = 2" "geometry_unsuitable_reason st = []"
    "list_all (\<lambda>h. h_attempt h = 2) (review_history st)"
    using assms by (simp_all add: in_loop_def)
  obtain xs where e: "node_executor demo_settings [demo_spec ''snappy''] demo_measurement None st
    = Inr (st\<lparr>executor_success := True, executor_output := [], executor_failed_gate := [],
        executor_failure_cause := [], executor_failure_facts := no_facts, requirement_caveats := [],
        sound_attempts := xs\<rparr>)" (is "_ = Inr ?s1")
    using assms by (rule loop_executor)
  have 1: "run_node demo_pipeline demo_world ExecutorRun st None = At ReviewerRun ?s1 None"
    by (simp add: pl w e go_def route_after_executor_def Let_def)
  obtain h where rv: "node_reviewer demo_review ?s1 = ?s1\<lparr>reviewer_verdict := ''FAIL'',
      reviewer_axis_findings := loop_findings, reviewer_rebuild_required := False,
      review_history := review_history ?s1 @ [h]\<rparr>" (is "_ = ?s2")
    "h_attempt h = retry_count ?s1" "h_verdict h = ''FAIL''"
    by (rule loop_review [of ?s1]) (use l in simp_all)
  have "\<not> concern_retry_spent ?s2"
    using l rv(2) by (auto simp: concern_retry_spent_def list_ex_iff list_all_iff)
  then have 2: "run_node demo_pipeline demo_world ReviewerRun ?s1 None = At Classifying ?s2 None"
    using l loop_findings_ask
    by (simp add: pl w rv(1) go_def route_after_reviewer_def limits_end_the_review_def
        demo_settings_def Let_def)
  define s3 where "s3 = node_classifier (pl_vocabulary demo_pipeline) (gw_feedback demo_world) ?s2"
  have c: "error_source s3 = ''reviewer_fail''" "builder_mode s3 = ''retry''" "classifier_gate s3 = []"
    by (simp_all add: s3_def node_classifier_def)
  have c': "in_loop s3" "executor_success s3" "requirement_caveats s3 = []"
    "reviewer_verdict s3 = ''FAIL''" "review_history s3 = review_history st @ [h]"
    using assms rv(2) l by (simp_all add: s3_def in_loop_def)
  have 3: "run_node demo_pipeline demo_world Classifying ?s2 None = At EngineFallback s3 None"
    by (simp add: s3_def)
  obtain la ru where f: "node_engine_fallback demo_settings [demo_spec ''snappy'']
      (pl_request demo_pipeline) None None s3 = s3\<lparr>ladder_record := la, rung_record := ru\<rparr>" (is "_ = ?s4")
    using c'(2-4) by (rule fallback_stays)
  have 4: "run_node demo_pipeline demo_world EngineFallback s3 None = At BuilderTurn ?s4 None"
    by (simp add: pl w f)
  have "in_loop ?s4" using c'(1) by (simp add: in_loop_def)
  then obtain "node_builder demo_settings demo_turn ?s4 = (?s4\<lparr>retry_count := 2,
      openfoam_workspace := attempt_dir 3, builder_noop_count := 2, review_rerun_count := 0\<rparr>, None)"
    (is "_ = (?s5, None)")
    by (rule loop_builder) (use c c' in simp_all)
  then have 5: "run_node demo_pipeline demo_world BuilderTurn ?s4 None = At ExecutorRun ?s5 None"
    using c'(1) by (simp add: pl w go_def route_after_builder_def in_loop_def)
  have run: "graph_run demo_pipeline (replicate 5 demo_world) (At ExecutorRun st None) = At ExecutorRun ?s5 None"
  proof -
    have "replicate 5 demo_world = [demo_world, demo_world, demo_world, demo_world, demo_world]"
      by (simp add: eval_nat_numeral)
    then show ?thesis by (simp only: graph_run_Cons graph_run_Nil step 1 2 3 4 5)
  qed
  have "in_loop ?s5" "length (review_history ?s5) = length (review_history st) + 1"
    using c' by (simp_all add: in_loop_def)
  with run show ?thesis by blast
qed

lemma loop_rounds:
  "in_loop st \<Longrightarrow> \<exists>s. graph_run demo_pipeline (concat (replicate n (replicate 5 demo_world))) (At ExecutorRun st None)
      = At ExecutorRun s None \<and> in_loop s \<and> length (review_history s) = length (review_history st) + n"
proof (induction n arbitrary: st)
  case (Suc n)
  obtain s where s: "graph_run demo_pipeline (replicate 5 demo_world) (At ExecutorRun st None) = At ExecutorRun s None"
    "in_loop s" "length (review_history s) = length (review_history st) + 1"
    using loop_round [OF Suc.prems] by blast
  obtain k where k: "graph_run demo_pipeline (concat (replicate n (replicate 5 demo_world)))
      (At ExecutorRun s None) = At ExecutorRun k None"
    "in_loop k" "length (review_history k) = length (review_history s) + n"
    using Suc.IH [OF s(2)] by blast
  have "graph_run demo_pipeline (concat (replicate (Suc n) (replicate 5 demo_world)))
      (At ExecutorRun st None) = At ExecutorRun k None"
    by (simp only: replicate_Suc [of n] concat.simps graph_run_append s(1) k(1))
  with s(3) k(2,3) show ?case by auto
qed simp

text \<open>
  C14: with the review deciding, a run can rebuild without end. For every number there is a run of the
  default settings, on its one engine, that has gone through more reviewed rebuilds than that number
  and still counts its attempt as the second: two turns that changed nothing, one of them a replay
  after a guard clock, set the count of idle turns to its limit, no later turn lowers it, and each
  rebuild the review asks for is then counted as the second attempt again.
\<close>

theorem reviews_without_end:
  "\<exists>ws s. graph_run demo_pipeline ws (graph_start (initial_state ''snappy'' ''system'' None))
       = At ExecutorRun s None \<and> n \<le> length (review_history s) \<and> retry_count s = 2
     \<and> list_all (\<lambda>h. h_attempt h = 2) (review_history s)"
proof -
  obtain st where st: "graph_run demo_pipeline endless_prefix
      (graph_start (initial_state ''snappy'' ''system'' None)) = At ExecutorRun st None" "in_loop st"
    using endless_prefix_loops by (auto split: gstate.splits)
  obtain s where "graph_run demo_pipeline (concat (replicate n (replicate 5 demo_world)))
      (At ExecutorRun st None) = At ExecutorRun s None"
    and s: "in_loop s" "length (review_history s) = length (review_history st) + n"
    using loop_rounds [OF st(2)] by blast
  with st(1) have "graph_run demo_pipeline (endless_prefix @ concat (replicate n (replicate 5 demo_world)))
      (graph_start (initial_state ''snappy'' ''system'' None)) = At ExecutorRun s None"
    by (simp only: graph_run_append)
  with s show ?thesis
    by (intro exI [of _ "endless_prefix @ concat (replicate n (replicate 5 demo_world))"] exI [of _ s])
       (simp add: in_loop_def)
qed

end
