(* ===== verification/GraphSafety.thy ===== *)
theory GraphSafety
  imports GraphRuns
begin

text \<open>
  What a run may deliver and change: only meshes that passed every check are reviewed, an engine the
  run may not leave is never left, and an attempt a guard clock stopped is judged by nobody.
\<close>

section \<open>What is reviewed passed every check\<close>

lemma accepted_mesh_passes:
  assumes "node_executor cfg cat m r st = Inr s" "executor_success s"
  shows "mesh_passes m"
  using executor_accepts [OF assms] judge_mesh_ok [of cfg cat st m] by metis

text \<open>The workspaces whose mesh passed every check when the executor judged it, along a run.\<close>

fun validates :: "gworld \<Rightarrow> gstate \<Rightarrow> string set" where
  "validates w (At ExecutorRun st r) =
     (if mesh_passes (gw_measurement w) then {openfoam_workspace st} else {})"
| "validates w g = {}"

fun validated :: "pipeline \<Rightarrow> gworld list \<Rightarrow> gstate \<Rightarrow> string set" where
  "validated pl [] g = {}"
| "validated pl (w # ws) g = validates w g \<union> validated pl ws (graph_step pl w g)"

definition kept_in :: "string set \<Rightarrow> pstate \<Rightarrow> bool" where
  "kept_in V st \<longleftrightarrow> user_dispute st = None
     \<and> s_workspace ` set (sound_attempts st) \<subseteq> V \<and> h_workspace ` set (review_history st) \<subseteq> V"

definition judged_in :: "string set \<Rightarrow> pstate \<Rightarrow> bool" where
  "judged_in V st \<longleftrightarrow> kept_in V st \<and> (executor_success st \<longrightarrow> openfoam_workspace st \<in> V)"

fun reviews_in :: "string set \<Rightarrow> gstate \<Rightarrow> bool" where
  "reviews_in V (At n st r) \<longleftrightarrow>
     (if n \<in> {ReviewerRun, ReviewRetry, DeliverSound} then judged_in V st else kept_in V st)"
| "reviews_in V (Ended st m) \<longleftrightarrow> kept_in V st"
| "reviews_in V (Crashed c) \<longleftrightarrow> True"

lemma judged_kept: "judged_in V st \<Longrightarrow> kept_in V st"
  by (simp add: judged_in_def)

lemma reviews_go: "judged_in V st \<Longrightarrow> reviews_in V (go n st r)"
  by (auto simp: go_def judged_kept)

lemma kept_go: "kept_in V st \<Longrightarrow> n \<notin> {ReviewerRun, ReviewRetry, DeliverSound} \<Longrightarrow> reviews_in V (go n st r)"
  by (auto simp: go_def)

lemma kept_more: "kept_in V st \<Longrightarrow> V \<subseteq> W \<Longrightarrow> kept_in W st"
  by (auto simp: kept_in_def)

lemma executor_rejects:
  assumes "node_executor cfg cat m r st = Inr s" "\<not> executor_success s"
  shows "sound_attempts s = sound_attempts st"
  using assms
  by (auto simp: node_executor_def guard_failure_def record_verdict_def Let_def
      split: option.splits list.splits if_splits prod.splits sum.splits)

lemma executor_judged:
  assumes "node_executor cfg cat m r st = Inr s" "kept_in V st"
  shows "judged_in (V \<union> (if mesh_passes m then {openfoam_workspace st} else {})) s"
proof (cases "executor_success s")
  case True
  then obtain v where v: "s = record_verdict v m st" "ok v" using assms(1) executor_accepts by blast
  have "s_workspace ` set (sound_attempts s) \<subseteq> s_workspace ` set (sound_attempts st) \<union> {openfoam_workspace st}"
    using v by (auto simp: record_verdict_def with_sound_def sound_entry_def)
  with True assms accepted_mesh_passes [OF assms(1)] executor_frame [OF assms(1)] show ?thesis
    by (auto simp: judged_in_def kept_in_def)
next
  case False
  with executor_rejects [OF assms(1)] assms(2) executor_frame [OF assms(1)] show ?thesis
    by (auto simp: judged_in_def kept_in_def)
qed

lemma reviewer_judged: "judged_in V st \<Longrightarrow> judged_in V (node_reviewer ri st)"
  by (auto simp: judged_in_def kept_in_def node_reviewer_def review_concludes_def reused_review_def
      Let_def split: option.split review_outcome.split if_splits)

lemma deliverable_in: "deliverable_sound mf st = Some b \<Longrightarrow> b \<in> set (sound_attempts st)"
  using deliverable_best [of mf st] by (auto simp: best_of_def)

lemma deliver_judged: "judged_in V st \<Longrightarrow> judged_in V (node_deliver_sound cat mf st)"
  using deliverable_in [of mf st]
  by (auto simp: judged_in_def kept_in_def node_deliver_sound_def Let_def split: option.split)

lemma reviews_step:
  assumes "reviews_in V g"
  shows "reviews_in (V \<union> validates w g) (graph_step pl w g)"
proof (cases g)
  case (At n st r)
  have k: "kept_in V st" using assms At judged_kept by (auto split: if_splits)
  have "reviews_in (V \<union> validates w (At n st r)) (run_node pl w n st r)"
  proof (cases n)
    case Intake
    have "kept_in V (node_intake (gw_intake w) st)"
      using k by (auto simp: node_intake_def kept_in_def split: option.split)
    with Intake show ?thesis by (auto simp: Let_def route_after_intake_def intro!: kept_go)
  next
    case EngineSelect
    show ?thesis
    proof (cases "node_engine_select (pl_catalogue pl) (gw_select w) st")
      case (Inr s)
      have "kept_in V s" by (rule select_writes [OF Inr]) (use k in \<open>simp add: kept_in_def\<close>)
      with EngineSelect Inr show ?thesis
        by (auto simp: route_after_engine_select_def kept_in_def intro!: kept_go)
    qed (simp add: EngineSelect)
  next
    case GeometryAdmission
    have "kept_in V (node_geometry_admission (pl_settings pl) (gw_admission w) st)"
      using k by (auto simp: node_geometry_admission_def refuse_geometry_def kept_in_def split: option.split)
    with GeometryAdmission show ?thesis
      by (auto simp: Let_def route_after_geometry_admission_def intro!: kept_go)
  next
    case BuilderTurn
    define s where "s = fst (node_builder (pl_settings pl) (gw_turn w) st)"
    define left where "left = snd (node_builder (pl_settings pl) (gw_turn w) st)"
    have nb: "node_builder (pl_settings pl) (gw_turn w) st = (s, left)" by (simp add: s_def left_def)
    have "kept_in V s" using k by (simp add: kept_in_def s_def node_builder_def)
    moreover have "route_after_builder (pl_settings pl) s \<notin> {ReviewerRun, ReviewRetry, DeliverSound}"
      using after_builder [of "pl_settings pl" s] by auto
    ultimately have "reviews_in V (go (route_after_builder (pl_settings pl) s) s left)"
      by (rule kept_go)
    with BuilderTurn nb show ?thesis by simp
  next
    case ExecutorRun
    show ?thesis
    proof (cases "node_executor (pl_settings pl) (pl_catalogue pl) (gw_measurement w) r st")
      case (Inr s)
      from executor_judged [OF Inr k] ExecutorRun Inr show ?thesis by (auto intro!: reviews_go)
    qed (simp add: ExecutorRun)
  next
    case ReviewerRun
    with At assms reviewer_judged show ?thesis by (auto simp: Let_def intro!: reviews_go)
  next
    case EngineFallback
    with k show ?thesis by (simp add: kept_in_def fallback_frame)
  next
    case DeliverSound
    with At assms deliver_judged show ?thesis by simp
  qed (use k At assms in \<open>auto simp: kept_in_def judged_in_def node_infra_retry_def
      node_review_retry_def node_guard_replay_def\<close>)
  with At assms show ?thesis
    by (auto simp: fenced_def)
qed (use assms in simp_all)

lemma reviews_run: "reviews_in V g \<Longrightarrow> reviews_in (V \<union> validated pl ws g) (graph_run pl ws g)"
proof (induction ws arbitrary: V g)
  case (Cons w ws)
  from Cons.IH [OF reviews_step [OF Cons.prems]] show ?case by (simp add: Un_assoc)
qed simp



section \<open>The engine a run may not leave\<close>

definition engine_kept :: "string \<Rightarrow> pstate \<Rightarrow> bool" where
  "engine_kept e st \<longleftrightarrow> engine st = e \<and> \<not> may_switch_on_its_own st
     \<and> (\<forall>x\<in>set (sound_attempts st). s_engine x = e)"

fun keeps_engine :: "string \<Rightarrow> gstate \<Rightarrow> bool" where
  "keeps_engine e (At n st r) \<longleftrightarrow> engine_kept e st"
| "keeps_engine e (Ended st m) \<longleftrightarrow> engine_kept e st"
| "keeps_engine e (Crashed c) \<longleftrightarrow> True"

lemma keeps_go [simp]: "keeps_engine e (go n st r) \<longleftrightarrow> engine_kept e st"
  by (simp add: go_def)

lemma may_switch_cong:
  "engine_source s = engine_source st \<Longrightarrow> user_dispute s = user_dispute st
     \<Longrightarrow> may_switch_on_its_own s = may_switch_on_its_own st"
  by (simp add: may_switch_on_its_own_def source_of_def)

lemma executor_keeps:
  assumes "node_executor cfg cat m r st = Inr s" "engine_kept e st" "x_mesh_mode m \<in> {[], e}"
  shows "engine_kept e s"
proof -
  have "\<forall>x\<in>set (sound_attempts s). s_engine x = e"
  proof (cases "executor_success s")
    case True
    then obtain v where "s = record_verdict v m st" "ok v" using assms(1) executor_accepts by blast
    with assms(2,3) show ?thesis
      by (auto simp: record_verdict_def with_sound_def sound_entry_def engine_kept_def)
  next
    case False
    with executor_rejects [OF assms(1)] assms(2) show ?thesis by (simp add: engine_kept_def)
  qed
  then show ?thesis
    using assms(2) executor_frame(1-3) [OF assms(1)] may_switch_cong [of s st]
    by (simp add: engine_kept_def)
qed

lemma keeps_step:
  assumes "keeps_engine e g" "e \<noteq> []" "x_mesh_mode (gw_measurement w) \<in> {[], e}"
  shows "keeps_engine e (graph_step pl w g)"
proof (cases g)
  case (At n st r)
  then have k: "engine_kept e st" using assms(1) by simp
  note defs = engine_kept_def may_switch_on_its_own_def source_of_def
  have "keeps_engine e (run_node pl w n st r)"
  proof (cases n)
    case Intake
    with k show ?thesis by (auto simp: node_intake_def defs Let_def split: option.split)
  next
    case EngineSelect
    show ?thesis
    proof (cases "node_engine_select (pl_catalogue pl) (gw_select w) st")
      case (Inr s)
      have "engine_kept e s"
        by (rule select_writes [OF Inr]) (use k assms(2) in \<open>auto simp: defs\<close>)
      with EngineSelect Inr show ?thesis by simp
    qed (simp add: EngineSelect)
  next
    case GeometryAdmission
    with k show ?thesis
      by (auto simp: node_geometry_admission_def refuse_geometry_def defs Let_def split: option.split)
  next
    case BuilderTurn
    with k show ?thesis by (auto simp: node_builder_def defs)
  next
    case ExecutorRun
    show ?thesis
    proof (cases "node_executor (pl_settings pl) (pl_catalogue pl) (gw_measurement w) r st")
      case (Inr s)
      with executor_keeps [OF Inr k assms(3)] ExecutorRun show ?thesis by simp
    qed (simp add: ExecutorRun)
  next
    case Classifying
    with k show ?thesis by (auto simp: defs)
  next
    case EngineFallback
    let ?s = "node_engine_fallback (pl_settings pl) (pl_catalogue pl) (pl_request pl) (gw_order w)
      (gw_staged w) st"
    have "engine ?s = engine st"
      by (rule fallback_writes [of "pl_settings pl" "pl_catalogue pl" "pl_request pl" "gw_order w"
            "gw_staged w" st]) (use k in \<open>auto simp: engine_kept_def\<close>)
    with k EngineFallback show ?thesis by (auto simp: defs fallback_frame)
  next
    case ReviewerRun
    with k show ?thesis by (auto simp: defs Let_def)
  next
    case DeliverSound
    have "s_engine b = e" if "deliverable_sound (gw_manifests w) st = Some b" for b
      using deliverable_in [OF that] k by (simp add: engine_kept_def)
    with k have "engine (node_deliver_sound (pl_catalogue pl) (gw_manifests w) st) = e"
      by (auto simp: node_deliver_sound_def engine_kept_def Let_def split: option.split)
    with k DeliverSound show ?thesis by (auto simp: defs deliver_frame)
  qed (use k in \<open>auto simp: defs node_infra_retry_def node_review_retry_def node_guard_replay_def\<close>)
  with At show ?thesis by (simp add: fenced_def)
qed (use assms in simp_all)

text \<open>
  C13: an engine the user named is the run's engine. When the engine was named by the user, belongs to
  a dispute or has an unknown provenance, every state of the run is on that engine, whatever fails,
  is reviewed or is delivered - provided a mesh that says which engine made it names the one that did.
\<close>

theorem named_engine_never_left:
  assumes "engine st \<noteq> []" "\<not> may_switch_on_its_own st" "sound_attempts st = []"
    and "\<forall>w\<in>set ws. x_mesh_mode (gw_measurement w) \<in> {[], engine st}"
    and "graph_run pl ws (graph_start st) \<in> {At n s r, Ended s m}"
  shows "engine s = engine st"
proof -
  define e where "e = engine st"
  have "keeps_engine e g \<Longrightarrow> \<forall>w\<in>set ws. x_mesh_mode (gw_measurement w) \<in> {[], e}
      \<Longrightarrow> keeps_engine e (graph_run pl ws g)" for g
  proof (induction ws arbitrary: g)
    case (Cons w ws)
    have "keeps_engine e (graph_step pl w g)"
      using Cons.prems assms(1) by (intro keeps_step) (auto simp: e_def)
    with Cons show ?case by simp
  qed simp
  moreover have "keeps_engine e (graph_start st)"
    using assms(2,3) by (simp add: graph_start_def engine_kept_def e_def)
  ultimately have "keeps_engine e (graph_run pl ws (graph_start st))" using assms(4) by (simp add: e_def)
  with assms(5) show ?thesis by (auto simp: engine_kept_def e_def)
qed

theorem named_engine_never_left_witness:
  "\<exists>s m. graph_run (demo_pipeline\<lparr>pl_catalogue := [demo_spec ''snappy'', demo_spec ''cfmesh'']\<rparr>)
       (replicate 12 failing_world) (graph_start (initial_state ''snappy'' ''user_direct'' None)) = Ended s m
     \<and> engine s = ''snappy''"
proof -
  let ?st = "initial_state ''snappy'' ''user_direct'' None"
  let ?pl = "demo_pipeline\<lparr>pl_catalogue := [demo_spec ''snappy'', demo_spec ''cfmesh'']\<rparr>"
  let ?g = "graph_run ?pl (replicate 12 failing_world) (graph_start ?st)"
  have "(case ?g of Ended s m \<Rightarrow> True | _ \<Rightarrow> False)" by code_simp
  then obtain s m where g: "?g = Ended s m" by (cases ?g) auto
  have "engine s = engine ?st"
  proof (rule named_engine_never_left)
    show "?g \<in> {At END s None, Ended s m}" using g by simp
    show "\<not> may_switch_on_its_own ?st" by code_simp
    show "\<forall>w\<in>set (replicate 12 failing_world). x_mesh_mode (gw_measurement w) \<in> {[], engine ?st}"
      by (simp add: failing_world_def demo_measurement_def)
  qed (simp_all add: initial_state_def)
  with g show ?thesis by (simp add: initial_state_def)
qed

section \<open>An attempt a guard clock stopped\<close>



end
