(* ===== verification/DecisionRecord.thy ===== *)
theory DecisionRecord
  imports Measures WorkLimits "HOL-Library.List_Lexorder"
begin

text \<open>
  The why record (\<open>contracts/decision_record.py\<close>): the pure rule functions behind each decision a
  run makes by rule, the replay that decides recorded entries again, and the bounded per-process
  log of cited decisions. An entry's inputs are a record of the keys its rule reads; the stage is
  the kind of its inputs. Sentences for operators are left out.
\<close>

section \<open>Numbers in a total order\<close>

text \<open>A rank is compared as a tuple of numbers without not-a-number, where Python's order is total
  and is this one.\<close>

instantiation number :: linorder
begin

definition less_eq_number :: "number \<Rightarrow> number \<Rightarrow> bool" where
  "less_eq_number x y = (y = NaN \<or> (x \<noteq> NaN \<and> num_le x y))"

definition less_number :: "number \<Rightarrow> number \<Rightarrow> bool" where
  "less_number x y = (x \<le> y \<and> \<not> y \<le> (x :: number))"

instance
proof
  fix x y z :: number
  show "x < y \<longleftrightarrow> x \<le> y \<and> \<not> y \<le> x" by (simp add: less_number_def)
  show "x \<le> x" by (cases x) (simp_all add: less_eq_number_def)
  show "x \<le> y \<Longrightarrow> y \<le> z \<Longrightarrow> x \<le> z"
    by (cases x; cases y; cases z) (simp_all add: less_eq_number_def)
  show "x \<le> y \<Longrightarrow> y \<le> x \<Longrightarrow> x = y"
    by (cases x; cases y) (simp_all add: less_eq_number_def)
  show "x \<le> y \<or> y \<le> x"
    by (cases x; cases y) (auto simp: less_eq_number_def)
qed

end

lemma number_order [simp]:
  "(Fin a \<le> Fin b) = (a \<le> b)" "(Fin a < Fin b) = (a < b)" "Fin a < PInf" "\<not> PInf \<le> Fin a"
  "Fin a \<le> PInf" "\<not> PInf < Fin a"
  by (auto simp: less_eq_number_def less_number_def)

section \<open>Which engine the run was approved with\<close>

record pick_inputs =
  pk_source :: string
  pk_approved :: string
  pk_recommended :: string
  pk_rule :: string
  pk_measured :: bool
  pk_own :: "string list"

definition engine_pick :: "pick_inputs \<Rightarrow> string \<times> string" where
  "engine_pick i =
     (let own = filter (\<lambda>e. e \<noteq> []) (pk_own i) in
      (pk_approved i,
       if pk_source i \<in> {''user_direct'', ''dispute''} then ''ENG-6''
       else if own \<noteq> [] \<and> pk_approved i = hd own then ''ENG-7''
       else if pk_measured i \<and> pk_recommended i \<noteq> [] \<and> pk_approved i = pk_recommended i
       then (if pk_rule i \<in> {''ENG-2'', ''ENG-3''} then pk_rule i else ''ENG-4'')
       else if pk_source i = ''suggested_confirmed'' then ''ENG-9''
       else ''ENG-8''))"

datatype decision_source = SOURCE_RULE | SOURCE_USER_WORD | SOURCE_AI_LEVER | SOURCE_GUARD_CLOCK

definition engine_pick_source :: "string \<Rightarrow> decision_source" where
  "engine_pick_source rule = (if rule \<in> {''ENG-6'', ''ENG-9''} then SOURCE_USER_WORD else SOURCE_RULE)"

section \<open>Whether the run moved to another engine\<close>

definition SWITCH_RULES :: "(string \<times> string) list" where
  "SWITCH_RULES =
     [(''this engine's mesh of this shape came out broken'', ''SW-1''),
      (''this engine could not build a mesh'', ''SW-2''),
      (''the same failure repeated here'', ''SW-3''),
      (''the shared attempts go to the untried engine'', ''SW-4''),
      (''a measured check failed - this engine's own levers are tried first'', ''SW-5''),
      (''a retry here fits and still leaves every untried rung an attempt'', ''SW-6''),
      (''a review never moves the run to another engine'', ''SW-7''),
      (''the engine is not ours to change'', ''SW-8''),
      (''another engine cannot change this failure'', ''SW-9''),
      (''no untried engine delivers the approved mesh'', ''SW-10''),
      (''no untried engine meshes '', ''SW-11''),
      (''no regular attempt is left'', ''SW-12''),
      (''the fallback ladder is switched off'', ''SW-14''),
      (''the last attempt did not fail'', ''SW-15''),
      (''the system's own pick made no usable mesh'', ''SW-16'')]"

definition switch_rule :: "string \<Rightarrow> string" where
  "switch_rule why =
     (let text = dropWhile is_space why in
      case find (\<lambda>(p, r). starts_with p text) SWITCH_RULES of Some (p, r) \<Rightarrow> r | None \<Rightarrow> [])"

definition MOVES_ON :: "(string \<times> string list) list" where
  "MOVES_ON = [(''SW-1'', [''engine'']), (''SW-2'', [''engine'']), (''SW-3'', [''fixable'']),
               (''SW-4'', [''fixable'']), (''SW-16'', [''engine'', ''fixable''])]"

record switch_inputs =
  sw_why :: string
  sw_kind :: string
  sw_from :: string
  sw_to :: string

definition switch_decided :: "switch_inputs \<Rightarrow> string \<times> string" where
  "switch_decided i =
     (let rule = switch_rule (sw_why i) in
      case map_of MOVES_ON rule of
        Some kinds \<Rightarrow>
          if sw_kind i \<notin> set kinds \<or> sw_to i = [] \<or> sw_to i = sw_from i then (sw_to i, [])
          else (sw_to i, rule)
      | None \<Rightarrow> (sw_from i, rule))"

section \<open>Which mesh was delivered\<close>

definition DELIVERY_RULES :: "string list" where
  "DELIVERY_RULES = [''DEL-1'', ''DEL-2'', ''DEL-3'', ''DEL-4'', ''DEL-5'', ''DEL-6'', ''DEL-7'',
                     ''DEL-8'', ''DEL-9'', ''DEL-10'']"

definition DELIVERY_ONLY_ONE :: string where "DELIVERY_ONLY_ONE = ''DEL-0''"

type_synonym rank = "number list"

record ranked =
  rk_attempt :: int
  rk_engine :: string
  rk_rank :: "number option list"

definition ordered_rank :: "number option list \<Rightarrow> rank" where
  "ordered_rank = map (\<lambda>v. or_else v PInf)"

fun first_difference :: "rank \<Rightarrow> rank \<Rightarrow> nat option" where
  "first_difference (x # xs) (y # ys) =
     (if x \<noteq> y then Some 0 else map_option Suc (first_difference xs ys))"
| "first_difference xs ys = None"

definition delivery_rule :: "number option list \<Rightarrow> number option list \<Rightarrow> string" where
  "delivery_rule best runner =
     (case first_difference (ordered_rank best) (ordered_rank runner) of
        Some i \<Rightarrow> if i < length DELIVERY_RULES then DELIVERY_RULES ! i else last DELIVERY_RULES
      | None \<Rightarrow> last DELIVERY_RULES)"

definition delivered :: "ranked list \<Rightarrow> int option \<times> string" where
  "delivered pool =
     (case pool of
        [] \<Rightarrow> (None, [])
      | [c] \<Rightarrow> (Some (rk_attempt c), DELIVERY_ONLY_ONE)
      | _ \<Rightarrow> (let s = sort_key (\<lambda>c. ordered_rank (rk_rank c)) pool
             in (Some (rk_attempt (s ! 0)), delivery_rule (rk_rank (s ! 0)) (rk_rank (s ! 1)))))"

section \<open>Pass, delivered with concerns, or fail\<close>

datatype verdict_outcome = OUTCOME_CLEAN | OUTCOME_CONCERNS | OUTCOME_FAIL | OUTCOME_WRONG_PROBLEM

definition WRONG_PROBLEM_CHECKS :: "(string \<times> string list) list" where
  "WRONG_PROBLEM_CHECKS =
     [(''wrong_side_meshed'', [''port_areas'', ''region_contract'']),
      (''missing_geometry'', [''file_fidelity'']),
      (''wrong_scale'', []),
      (''wrong_flow_setup'', [''domain_extent'', ''port_areas'']),
      (''wrong_boundaries'', [''patch_contract'', ''boundary_types'', ''port_areas'']),
      (''no_flow_path'', []),
      (''shape_changed'', [''file_fidelity'']),
      (''junk_regions'', [''regions_split'']),
      (''requirement_absent'', [])]"

definition WRONG_PROBLEM_GATES :: "string list" where
  "WRONG_PROBLEM_GATES = concat (map snd WRONG_PROBLEM_CHECKS)"

record limit_row =
  row_key :: string
  row_op :: string
  row_limit :: mvalue
  row_measured :: mvalue

record verdict_inputs =
  vi_engine :: string
  vi_topology :: string
  vi_valid :: bool
  vi_failed_gate :: string
  vi_layers_planned :: bool
  vi_gating :: "limit_row list"
  vi_limits :: "limit_row list"
  vi_review_notes :: nat

text \<open>\<open>None\<close> when nothing finite was measured: such a row decides nothing.\<close>

definition limit_met :: "mvalue \<Rightarrow> string \<Rightarrow> mvalue \<Rightarrow> bool option" where
  "limit_met v op bar =
     (if v = MNone \<or> \<not> finite_value v then None
      else if op = ''empty'' then Some (\<not> py_true v)
      else if op = ''=='' then Some (py_eq v bar)
      else case v of
        MBool _ \<Rightarrow> None
      | _ \<Rightarrow>
        (case (as_number v, as_number bar) of
           (Some m, Some l) \<Rightarrow>
             if op = ''<='' then Some (num_le m l)
             else if op = ''>='' then Some (num_le l m)
             else if op = ''<'' then Some (num_lt m l)
             else if op = ''>'' then Some (num_lt l m)
             else None
         | _ \<Rightarrow> None))"

definition row_missed :: "limit_row \<Rightarrow> bool" where
  "row_missed r = (limit_met (row_measured r) (row_op r) (row_limit r) = Some False)"

definition missed_limits :: "verdict_inputs \<Rightarrow> limit_row list" where
  "missed_limits i = filter row_missed (vi_limits i)"

definition failed_gating :: "verdict_inputs \<Rightarrow> limit_row list" where
  "failed_gating i = filter row_missed (vi_gating i)"

definition verdict :: "verdict_inputs \<Rightarrow> verdict_outcome \<times> string" where
  "verdict i =
     (if \<not> vi_valid i \<or> failed_gating i \<noteq> []
      then if vi_failed_gate i \<in> set WRONG_PROBLEM_GATES
           then (OUTCOME_WRONG_PROBLEM, ''VER-4'') else (OUTCOME_FAIL, ''VER-1'')
      else if missed_limits i \<noteq> [] then (OUTCOME_CONCERNS, ''VER-2'')
      else (OUTCOME_CLEAN, ''VER-3''))"

section \<open>The record and its replay\<close>

fun time_rule_id :: "time_rule \<Rightarrow> string" where
  "time_rule_id TIME_PLANNED_WORK = ''TIME-1''"
| "time_rule_id TIME_GUARD = ''TIME-2''"
| "time_rule_id TIME_TRIP = ''TIME-3''"
| "time_rule_id TIME_WAIT = ''TIME-4''"
| "time_rule_id TIME_JOB_GUARD = ''TIME-5''"
| "time_rule_id TIME_REPAIR_CLOCK = ''TIME-6''"
| "time_rule_id TIME_REPAIR_WORK = ''TIME-7''"
| "time_rule_id TIME_KEEP_VALID = ''TIME-8''"

datatype decision_inputs =
    PickInputs pick_inputs | SwitchInputs switch_inputs | DeliveredInputs "ranked list"
  | VerdictInputs verdict_inputs | WorkLimitInputs work_record | GuardInputs nat "nat option"
  | CitedInputs string json_obj

datatype decision_value =
    EngineValue string | AttemptValue "int option" | OutcomeValue verdict_outcome
  | SecondsValue int | TripValue trip_outcome | CitedValue string

record decision_entry =
  en_inputs :: decision_inputs
  en_value :: decision_value
  en_rule :: string
  en_also :: "string list"
  en_source :: decision_source

fun replayer :: "decision_inputs \<Rightarrow> (decision_value \<times> string) option" where
  "replayer (PickInputs i) = Some (map_prod EngineValue id (engine_pick i))"
| "replayer (SwitchInputs i) = Some (map_prod EngineValue id (switch_decided i))"
| "replayer (DeliveredInputs pool) = Some (map_prod AttemptValue id (delivered pool))"
| "replayer (VerdictInputs i) = Some (map_prod OutcomeValue id (verdict i))"
| "replayer (WorkLimitInputs r) = Some (map_prod SecondsValue time_rule_id (work_limit r))"
| "replayer (GuardInputs n allowed) = Some (map_prod TripValue time_rule_id (after_trip n allowed))"
| "replayer (CitedInputs stage obj) = None"

definition replay_agrees :: "decision_entry \<Rightarrow> bool" where
  "replay_agrees e =
     (case replayer (en_inputs e) of None \<Rightarrow> True | Some d \<Rightarrow> d = (en_value e, en_rule e))"

text \<open>The positions of the entries whose replay disagrees with them.\<close>

definition replay :: "decision_entry list \<Rightarrow> nat list" where
  "replay es = filter (\<lambda>i. \<not> replay_agrees (es ! i)) [0..<length es]"

definition cited_rules :: "decision_entry list \<Rightarrow> string list" where
  "cited_rules es = concat (map (\<lambda>e. en_rule e # en_also e) es)"

lemma replay_empty_iff: "replay es = [] \<longleftrightarrow> (\<forall>e \<in> set es. replay_agrees e)"
  by (fastforce simp: replay_def filter_empty_conv in_set_conv_nth)

section \<open>Decisions cited as they are made\<close>

text \<open>\<open>_CITED\<close> is ordered from the least to the most recently cited job.\<close>

type_synonym cited_log = "(string \<times> decision_entry list) list"

definition PER_JOB :: nat where "PER_JOB = 400"
definition CITED_JOBS :: nat where "CITED_JOBS = 64"

definition cite :: "string \<Rightarrow> decision_entry \<Rightarrow> cited_log \<Rightarrow> cited_log" where
  "cite job e clog =
     (if job = [] then clog
      else let old = or_else (map_of clog job) [];
               kept = (if length old < PER_JOB then old @ [e] else old);
               moved = AList.delete job clog @ [(job, kept)]
           in drop (length moved - CITED_JOBS) moved)"

definition cited_for :: "string \<Rightarrow> cited_log \<Rightarrow> decision_entry list" where
  "cited_for job clog = or_else (map_of clog job) []"

definition cited_log_ok :: "cited_log \<Rightarrow> bool" where
  "cited_log_ok clog =
     (distinct (map fst clog) \<and> length clog \<le> CITED_JOBS \<and> (\<forall>(j, es) \<in> set clog. length es \<le> PER_JOB))"

lemma newest_kept_ok:
  assumes "distinct (map fst m)" "\<forall>(j, es) \<in> set m. length es \<le> PER_JOB"
  shows "cited_log_ok (drop (length m - CITED_JOBS) m)"
  using assms by (auto simp: cited_log_ok_def drop_map [symmetric] dest: in_set_dropD)

lemma cite_ok: "cited_log_ok clog \<Longrightarrow> cited_log_ok (cite job e clog)"
proof -
  assume ok: "cited_log_ok clog"
  let ?old = "or_else (map_of clog job) []"
  let ?kept = "if length ?old < PER_JOB then ?old @ [e] else ?old"
  let ?moved = "AList.delete job clog @ [(job, ?kept)]"
  have old: "length ?old \<le> PER_JOB"
    using ok by (auto simp: cited_log_ok_def or_else_def PER_JOB_def split: option.split dest!: map_of_SomeD)
  have "distinct (map fst ?moved)"
    using ok by (simp add: cited_log_ok_def distinct_delete delete_keys [symmetric] del: delete_keys)
                (simp add: AList.delete_eq image_iff)
  moreover have "\<forall>(j, es) \<in> set ?moved. length es \<le> PER_JOB"
    using ok old by (auto simp: cited_log_ok_def AList.delete_eq)
  ultimately have m: "distinct (map fst ?moved)" "\<forall>(j, es) \<in> set ?moved. length es \<le> PER_JOB" by blast+
  from newest_kept_ok [OF m] show ?thesis
    using ok by (simp add: cite_def Let_def)
qed

text \<open>A job's cited decisions are kept in the order they were made, up to the cap.\<close>

lemma cite_appends:
  assumes "job \<noteq> []" "length (cited_for job clog) < PER_JOB"
  shows "cited_for job (cite job e clog) = cited_for job clog @ [e]"
proof -
  let ?moved = "AList.delete job clog @ [(job, cited_for job clog @ [e])]"
  have len: "length ?moved - CITED_JOBS \<le> length (AList.delete job clog)"
    by (simp add: CITED_JOBS_def)
  have none: "job \<notin> fst ` set (drop n (AList.delete job clog))" for n
    by (auto dest!: in_set_dropD simp: AList.delete_eq)
  have "map_of (drop n (AList.delete job clog) @ [(job, x)]) job = Some x" for n x
  proof -
    have "map_of (drop n (AList.delete job clog)) job = None"
      using none [of n] by (simp add: map_of_eq_None_iff)
    then show ?thesis by (simp add: map_add_def)
  qed
  with len show ?thesis
    using assms by (simp add: cite_def cited_for_def Let_def)
qed

section \<open>Ranks\<close>

lemma first_difference_None:
  "first_difference xs ys = None \<Longrightarrow> length xs = length ys \<Longrightarrow> xs = ys"
  by (induction xs ys rule: first_difference.induct) (auto split: if_splits)

text \<open>The first position where two ranks differ is the one that orders them.\<close>

lemma first_difference_Some:
  assumes "first_difference xs ys = Some i"
  shows "i < length xs \<and> i < length ys \<and> take i xs = take i ys \<and> xs ! i \<noteq> ys ! i
     \<and> (xs < ys \<longleftrightarrow> xs ! i < ys ! i)"
  using assms
  by (induction xs ys arbitrary: i rule: first_difference.induct) (auto split: if_splits)

lemma arg_min_list_least:
  fixes f :: "'a \<Rightarrow> 'b::linorder"
  shows "x \<in> set xs \<Longrightarrow> f (arg_min_list f xs) \<le> f x"
  by (induction f xs rule: arg_min_list.induct) (auto simp: Let_def)

text \<open>A stable sort by a key puts the first least element first, and sorts the rest.\<close>

lemma insort_key_least:
  fixes f :: "'a \<Rightarrow> 'b::linorder"
  assumes "\<forall>y \<in> set ys. f x \<le> f y"
  shows "insort_key f x ys = x # ys"
  using assms by (cases ys) auto

lemma sort_key_least:
  fixes f :: "'a \<Rightarrow> 'b::linorder"
  assumes "xs \<noteq> []"
  shows "sort_key f xs = arg_min_list f xs # sort_key f (remove1 (arg_min_list f xs) xs)"
  using assms
proof (induction f xs rule: arg_min_list.induct)
  case (1 f x)
  then show ?case by simp
next
  case (2 f x y zs)
  let ?m = "arg_min_list f (y # zs)"
  have m: "\<forall>z \<in> set (y # zs). f ?m \<le> f z" by (simp add: arg_min_list_least)
  show ?case
  proof (cases "f x \<le> f ?m")
    case True
    then have "\<forall>z \<in> set (sort_key f (y # zs)). f x \<le> f z" using m True order_trans
      by (metis set_sort)
    then have "insort_key f x (sort_key f (y # zs)) = x # sort_key f (y # zs)"
      by (rule insort_key_least)
    moreover have "sort_key f (x # y # zs) = insort_key f x (sort_key f (y # zs))" by simp
    ultimately show ?thesis using True by (simp add: Let_def)
  next
    case False
    then have ne: "x \<noteq> ?m" by auto
    have "sort_key f (x # y # zs) = insort_key f x (sort_key f (y # zs))" by simp
    also have "\<dots> = insort_key f x (?m # sort_key f (remove1 ?m (y # zs)))"
      using 2 by simp
    also have "\<dots> = ?m # insort_key f x (sort_key f (remove1 ?m (y # zs)))"
      using False by simp
    also have "\<dots> = ?m # sort_key f (remove1 ?m (x # y # zs))" using ne by simp
    finally show ?thesis using False by (simp add: Let_def)
  qed
qed simp

end
