(* ===== verification/VerdictLimits.thy ===== *)
theory VerdictLimits
  imports DecisionRecord
begin

text \<open>
  The measured limits a delivered mesh is judged against (\<open>engines/verdict_limits.py\<close>, the element
  rows of \<open>engines/fea_quality.py\<close> and the measured validity of \<open>engines/fea_review.py\<close>): the
  production limits per engine and flow, an engine's gating rows read again from the manifest, and
  the inputs the verdict rule reads. The gate the executor ran and the verdict are shown to agree.
\<close>

section \<open>The production limits\<close>

record production_limit =
  pl_key :: string
  pl_op :: string
  pl_limit :: mvalue
  pl_engines :: "string list"
  pl_topologies :: "string list"
  pl_needs_layers :: bool

definition OPENFOAM_HEX :: "string list" where
  "OPENFOAM_HEX = [''snappy'', ''cfmesh'', ''snappy_multiregion'']"
definition ONE_REGION :: "string list" where
  "ONE_REGION = [''snappy'', ''cfmesh'', ''gmsh'', ''vmtk'']"
definition PASSAGE_MEASURED :: "string list" where
  "PASSAGE_MEASURED = [''snappy'', ''cfmesh'', ''gmsh'', ''vmtk'']"
definition ALL_FLOW :: "string list" where
  "ALL_FLOW = [''snappy'', ''cfmesh'', ''snappy_multiregion'', ''snapgrid'', ''gmsh'', ''vmtk'']"
definition CFD_FLOWS :: "string list" where
  "CFD_FLOWS = [''external'', ''internal'']"

abbreviation plimit ::
  "string \<Rightarrow> string \<Rightarrow> mvalue \<Rightarrow> string list \<Rightarrow> string list \<Rightarrow> bool \<Rightarrow> production_limit"
where
  "plimit k op l es ts n \<equiv> \<lparr>pl_key = k, pl_op = op, pl_limit = l, pl_engines = es,
     pl_topologies = ts, pl_needs_layers = n\<rparr>"

definition PRODUCTION_LIMITS :: "production_limit list" where
  "PRODUCTION_LIMITS =
     [plimit ''max_non_ortho'' ''<='' (MFloat (Fin 70)) OPENFOAM_HEX [] False,
      plimit ''max_non_ortho'' ''<='' (MFloat (Fin 85)) [''gmsh''] CFD_FLOWS False,
      plimit ''skew_fraction'' ''<='' (MFloat (Fin (5 / 10000))) [''snappy'', ''cfmesh''] [] False,
      plimit ''layer_coverage_pct'' ''>='' (MFloat (Fin 80))
        [''snappy'', ''cfmesh'', ''snappy_multiregion'', ''vmtk''] [] True,
      plimit ''layers_short'' ''<='' (MInt 0) [''cfmesh''] [] True,
      plimit ''regions'' ''<='' (MInt 1) ONE_REGION [] False,
      plimit ''passage_cells_across'' ''>='' MNone PASSAGE_MEASURED [''internal''] False,
      plimit ''requirement_near_misses'' ''<='' (MInt 0) ALL_FLOW [] False,
      plimit ''size_concerns'' ''<='' (MInt 0) ALL_FLOW [] False]"

definition limit_applies :: "production_limit \<Rightarrow> string \<Rightarrow> string \<Rightarrow> bool \<Rightarrow> bool" where
  "limit_applies l e topology layers_planned =
     (e \<in> set (pl_engines l) \<and> (pl_topologies l = [] \<or> topology \<in> set (pl_topologies l))
      \<and> (layers_planned \<or> \<not> pl_needs_layers l))"

definition limits_for :: "string \<Rightarrow> string \<Rightarrow> bool \<Rightarrow> production_limit list" where
  "limits_for e topology layers_planned =
     filter (\<lambda>l. limit_applies l e topology layers_planned) PRODUCTION_LIMITS"

section \<open>The measured numbers\<close>

text \<open>\<open>max(0.0, asked - built)\<close>; a difference that is not a number leaves the zero.\<close>

fun shortfall :: "number \<Rightarrow> number \<Rightarrow> number" where
  "shortfall (Fin a) (Fin b) = Fin (max 0 (a - b))"
| "shortfall PInf (Fin b) = PInf"
| "shortfall PInf NInf = PInf"
| "shortfall (Fin a) NInf = PInf"
| "shortfall x y = Fin 0"

definition layers_short :: "manifest \<Rightarrow> mvalue" where
  "layers_short m =
     (case (plain_num (num_at (mf_quality m) ''layers_requested''),
            plain_num (num_at (mf_quality m) ''layers_in_meshdict'')) of
        (Some a, Some b) \<Rightarrow> MFloat (shortfall a b)
      | _ \<Rightarrow> MNone)"

definition rat_value :: "rat option \<Rightarrow> mvalue" where
  "rat_value x = (case x of None \<Rightarrow> MNone | Some r \<Rightarrow> MFloat (Fin r))"

definition passage_reading :: "manifest \<Rightarrow> mvalue \<times> mvalue" where
  "passage_reading m =
     (let v = judge_resolution m; fl = MFloat (Fin (rv_floor v)) in
      case rv_scope v of
        ScopeUnmeasured \<Rightarrow> (MNone, fl)
      | ScopeNarrowest \<Rightarrow> (rat_value (rv_cells v), fl)
      | ScopeMain \<Rightarrow>
          (case plain_num (rv_side v) of
             Some x \<Rightarrow> (MFloat x, fl)
           | None \<Rightarrow> (rat_value (rv_cells v), fl)))"

definition measured_number :: "string \<Rightarrow> manifest \<Rightarrow> int \<Rightarrow> int \<Rightarrow> mvalue" where
  "measured_number key m near_misses size_concerns =
     (if key = ''layers_short'' then layers_short m
      else if key = ''requirement_near_misses'' then MInt near_misses
      else if key = ''size_concerns'' then MInt size_concerns
      else num_at (mf_quality m) key)"

section \<open>The engine's own rows\<close>

definition FEA_NOTE_ONLY :: "string list" where
  "FEA_NOTE_ONLY = [''elements_under_floor'', ''max_non_ortho'']"

definition fea_planned :: "manifest \<Rightarrow> bool" where
  "fea_planned m = (case mf_fea m of Some f \<Rightarrow> fb_plan f | None \<Rightarrow> False)"

definition gating_rows :: "string \<Rightarrow> manifest \<Rightarrow> limit_row list" where
  "gating_rows e m =
     (let skip = (if fea_planned m then FEA_NOTE_ONLY else []); q = measurements_from_manifest m in
      map (\<lambda>c. \<lparr>row_key = cr_key c, row_op = cr_op c, row_limit = cr_threshold c,
               row_measured = num_at q (cr_key c)\<rparr>)
        (filter (\<lambda>c. cr_gating c \<and> cr_key c \<notin> set BUILD_TIME_KEYS \<and> cr_key c \<notin> set skip)
          (criteria_for e)))"

definition declared_advisory :: "string \<Rightarrow> manifest \<Rightarrow> limit_row list" where
  "declared_advisory e m =
     map (\<lambda>c. \<lparr>row_key = cr_key c, row_op = cr_op c, row_limit = cr_threshold c,
              row_measured = num_at (mf_quality m) (cr_key c)\<rparr>)
       (filter (\<lambda>c. \<not> cr_gating c \<and> cr_op c = ''empty'') (criteria_for e))"

section \<open>The rows of an FEA mesh\<close>

definition QUADRATIC_SCALED_JACOBIAN :: rat where "QUADRATIC_SCALED_JACOBIAN = 1 / 100"
definition FEA_WALL_FLOOR :: rat where "FEA_WALL_FLOOR = 18 / 10"

text \<open>\<open>fea_quality.limits_for\<close>: the order is what the manifest says, else 1.\<close>

definition fea_element_limits :: "mvalue \<Rightarrow> (string \<times> string \<times> rat) list" where
  "fea_element_limits order =
     (let quadratic = (case order of MInt n \<Rightarrow> 2 \<le> (if n = 0 then 1 else n)
                       | MFloat (Fin r) \<Rightarrow> 2 \<le> r | _ \<Rightarrow> False)
      in [(''fea_min_scaled_jacobian'', ''>='', if quadratic then QUADRATIC_SCALED_JACOBIAN else 2 / 10),
          (''fea_max_jacobian_ratio'', ''<='', 30),
          (''fea_max_aspect_ratio'', ''<='', 20),
          (''fea_min_dihedral_deg'', ''>='', 5),
          (''fea_max_dihedral_deg'', ''<='', 170)])"

definition fea_limits :: "manifest \<Rightarrow> limit_row list" where
  "fea_limits m =
     (case mf_fea m of
        None \<Rightarrow> []
      | Some f \<Rightarrow>
          if \<not> fb_plan f then []
          else
            let q = mf_quality m;
                row = (\<lambda>k op l v. \<lparr>row_key = k, row_op = op, row_limit = l, row_measured = v\<rparr>)
            in [row ''elements_under_floor'' ''=='' (MInt 0) (num_at q ''elements_under_floor''),
                row ''through_wall_min'' ''>='' (MFloat (Fin FEA_WALL_FLOOR)) (fb_through_wall f)]
             @ map (\<lambda>(k, op, l). row k op (MFloat (Fin l)) (num_at q k))
                 (fea_element_limits (num_at q ''element_order''))
             @ [row ''fea_rules_short'' ''<='' (MInt 0) (num_at q ''fea_rules_short'')]
             @ (if fb_coarsened f then [row ''fea_resolution_short'' ''empty'' MNone (MTexts (fb_short f))]
                else [])
             @ (if py_true (fb_set_aside f) \<and> fb_places f \<noteq> []
                   \<and> (case fb_cusps f of None \<Rightarrow> True | Some v \<Rightarrow> py_true v)
                then [row ''fea_cusps'' ''empty'' MNone (MTexts (fb_places f))] else [])
             @ (if py_true (fb_micro f) \<and> fb_micro_places f \<noteq> []
                then [row ''fea_micro_details'' ''empty'' MNone (MTexts (fb_micro_places f))] else [])
             @ (if (case fb_bonded_checked f of None \<Rightarrow> False | Some v \<Rightarrow> py_true v \<or> v = MNone)
                   \<or> fb_open_bonded f \<noteq> []
                then [row ''fea_open_bonded_pairs'' ''empty'' MNone
                        (if (case fb_bonded_checked f of None \<Rightarrow> True | Some v \<Rightarrow> v = MNone)
                            \<and> fb_open_bonded f = []
                         then MNone else MTexts (fb_open_bonded f))]
                else []))"

text \<open>\<open>fea_review.measured_valid\<close>: true with no inverted element and nothing fatal, \<open>None\<close> when the
  elements were never checked.\<close>

definition measured_valid :: "manifest \<Rightarrow> bool option" where
  "measured_valid m =
     (let top = plain_num (num_at (mf_quality m) ''fea_inverted'');
          inv = (case top of Some x \<Rightarrow> Some x
                 | None \<Rightarrow> (case mf_fea m of Some f \<Rightarrow> plain_num (fb_inverted f) | None \<Rightarrow> None))
      in if py_true (num_at (mf_quality m) ''fatal'') then Some False
         else map_option (\<lambda>x. num_eq x (Fin 0)) inv)"

section \<open>The inputs of the verdict\<close>

definition inputs_for ::
  "string \<Rightarrow> string \<Rightarrow> manifest \<Rightarrow> bool \<Rightarrow> string \<Rightarrow> bool \<Rightarrow> int \<Rightarrow> int \<Rightarrow> nat \<Rightarrow> verdict_inputs"
where
  "inputs_for e topology m valid failed_gate layers_planned near_misses size_concerns notes =
     \<lparr>vi_engine = e, vi_topology = topology, vi_valid = valid, vi_failed_gate = failed_gate,
      vi_layers_planned = layers_planned,
      vi_gating = (if valid then gating_rows e m else []),
      vi_limits =
        map (\<lambda>l. if pl_key l = ''passage_cells_across''
                 then \<lparr>row_key = pl_key l, row_op = pl_op l, row_limit = snd (passage_reading m),
                        row_measured = fst (passage_reading m)\<rparr>
                 else \<lparr>row_key = pl_key l, row_op = pl_op l, row_limit = pl_limit l,
                        row_measured = measured_number (pl_key l) m near_misses size_concerns\<rparr>)
          (limits_for e topology layers_planned)
        @ declared_advisory e m @ fea_limits m,
      vi_review_notes = notes\<rparr>"

section \<open>The gate and the verdict agree\<close>

lemma met_criterion_not_missed:
  assumes "evaluate_criterion c q = Met"
  shows "limit_met (num_at q (cr_key c)) (cr_op c) (cr_threshold c) \<noteq> Some False"
proof -
  let ?v = "num_at q (cr_key c)"
  show ?thesis
  proof (cases "?v = MNone \<or> \<not> finite_value ?v")
    case True
    then show ?thesis by (simp add: limit_met_def)
  next
    case False
    with assms show ?thesis
      by (auto simp: evaluate_criterion_def limit_met_def judged_of_def compare_with_def Let_def
          split: if_splits option.splits mvalue.splits)
  qed
qed

text \<open>
  C7: the executor's quality gate and the measured verdict never disagree about validity. A mesh
  whose declared bars the gate found met has no failed gating row when the verdict reads the same
  manifest again, so a validated mesh is delivered, clean or with the limits it misses listed; and
  what a review wrote is no input of the verdict.
\<close>

theorem gate_and_verdict_agree:
  assumes "gate_declared_criteria e (Some m) = BarsMet"
  shows "failed_gating (inputs_for e topology m valid gate layers near sizes notes) = []
     \<and> (let i = inputs_for e topology m True gate layers near sizes notes in
        verdict i = (if missed_limits i = [] then (OUTCOME_CLEAN, ''VER-3'') else (OUTCOME_CONCERNS, ''VER-2''))
        \<and> verdict i = verdict (inputs_for e topology m True gate' layers near sizes notes'))"
proof -
  have "\<not> row_missed r" if "r \<in> set (gating_rows e m)" for r
    using that assms met_criterion_not_missed
    by (auto simp: gating_rows_def row_missed_def gate_passes_iff Let_def)
  then have g: "failed_gating (inputs_for e topology m v gt layers near sizes n) = []" for v gt n
    by (auto simp: failed_gating_def inputs_for_def filter_empty_conv)
  have "missed_limits (inputs_for e topology m True gate layers near sizes notes)
      = missed_limits (inputs_for e topology m True gate' layers near sizes notes')"
    by (simp add: missed_limits_def inputs_for_def)
  with g show ?thesis
    by (simp add: verdict_def Let_def) (simp add: inputs_for_def)
qed

definition demo_manifest :: manifest where
  "demo_manifest = \<lparr>mf_mode = ''snappy'', mf_topology = ''external'', mf_params = [],
     mf_patch_types = [(''body'', ''wall''), (''ground'', ''wall''), (''far'', ''farfield'')],
     mf_face_counts = [(''body'', 1200), (''ground'', 400), (''far'', 900)],
     mf_quality = [''fatal'' \<mapsto> MTexts [], ''skew_fraction'' \<mapsto> MFloat (Fin (1 / 10000)),
        ''max_non_ortho'' \<mapsto> MFloat (Fin (742 / 10)), ''layer_coverage_pct'' \<mapsto> MFloat (Fin 91),
        ''max_skewness'' \<mapsto> MFloat (Fin 3), ''regions'' \<mapsto> MInt 1],
     mf_passage_p05 = MNone, mf_passage_flow = None, mf_wake = True, mf_faces_complete = MNone, mf_fea = None\<rparr>"

theorem gate_and_verdict_agree_witness:
  "failed_gating (inputs_for ''snappy'' ''external'' demo_manifest True [] True 0 0 3) = []
   \<and> verdict (inputs_for ''snappy'' ''external'' demo_manifest True [] True 0 0 3)
       = (OUTCOME_CONCERNS, ''VER-2'')"
proof -
  have g: "gate_declared_criteria ''snappy'' (Some demo_manifest) = BarsMet" by code_simp
  have m: "missed_limits (inputs_for ''snappy'' ''external'' demo_manifest True [] True 0 0 3) \<noteq> []"
    by code_simp
  from gate_and_verdict_agree [OF g, of "''external''" True "[]" True 0 0 3] m show ?thesis
    by (simp add: Let_def)
qed

end
