(* ===== verification/FinalResult.thy ===== *)
theory FinalResult
  imports VerdictLimits Review Fallback Errors
begin

text \<open>
  The terminal status a finished run is entitled to and the record of it
  (\<open>application/final_result.py\<close>, \<open>contracts/review_outcome.py\<close>, \<open>application/artifact_policy.py\<close>,
  and the terminal assembly of \<open>application/pipeline_run.py\<close> and \<open>terminal_finalize.py\<close>).

  A caveat authored at the end of a run is a constructor per kind. Whether the delivered body's size
  is believable (\<open>contracts/unit_plausibility.py\<close>) is a given fact of the run. The sentences told to
  the user are left out; where one being empty decides something, its emptiness is what is kept.
  Timestamps, identifiers and the fields copied through unread are left to the record's own theory.
\<close>

section \<open>The facts a status depends on\<close>

record run_facts =
  rf_catalogue :: catalogue
  rf_request :: request
  rf_purpose :: string
  rf_topology :: string
  rf_manifest :: "manifest option"
  rf_size_implausible :: bool

definition plan_reqs :: "run_facts \<Rightarrow> pstate \<Rightarrow> requirement list" where
  "plan_reqs rf st =
     (case get_spec (rf_catalogue rf) (approved_engine st) of
        Some s \<Rightarrow> plan_requirements (rf_request rf) s
      | None \<Rightarrow> [])"

record RunOutcome =
  o_api_failure :: string
  o_verdict :: string
  o_success :: bool
  o_retry_count :: nat
  o_failed_gate :: string
  o_engine :: string
  o_topology :: string
  o_purpose :: string
  o_is_dispute :: bool
  o_findings :: "finding list"
  o_review_reruns :: nat
  o_manifest :: "manifest option"
  o_caveats :: "caveat list"
  o_layers_planned :: bool
  o_size_implausible :: bool

definition MARKER_OPEN :: string where "MARKER_OPEN = ''<<API_FAILURE:''"

definition unwrapped :: "string \<Rightarrow> string" where
  "unwrapped raw =
     (if starts_with MARKER_OPEN raw \<and> ends_with ''>>'' raw
      then take (length raw - 2 - length MARKER_OPEN) (drop (length MARKER_OPEN) raw) else raw)"

definition from_graph_state :: "run_facts \<Rightarrow> pstate \<Rightarrow> RunOutcome" where
  "from_graph_state rf st =
     \<lparr>o_api_failure = unwrapped (api_failure st), o_verdict = reviewer_verdict st,
      o_success = executor_success st, o_retry_count = retry_count st,
      o_failed_gate = executor_failed_gate st, o_engine = engine st, o_topology = rf_topology rf,
      o_purpose = rf_purpose rf, o_is_dispute = (user_dispute st \<noteq> None),
      o_findings = reviewer_axis_findings st, o_review_reruns = review_rerun_count st,
      o_manifest = rf_manifest rf, o_caveats = requirement_caveats st,
      o_layers_planned = (REQ_PRISM_LAYERS \<in> set (plan_reqs rf st)),
      o_size_implausible = rf_size_implausible rf\<rparr>"

text \<open>\<open>_bare_marker\<close>: the marker without the router's wrapper and surrounding blanks.\<close>

definition result_marker :: "string \<Rightarrow> string" where
  "result_marker s =
     (let raw = strip s in
      if starts_with MARKER_OPEN raw \<and> ends_with ''>>'' raw then strip (unwrapped raw) else raw)"

section \<open>The caveats a delivery carries\<close>

datatype delivery_caveat =
    NearMiss caveat
  | ReviewConcerns "finding list"
  | ReviewInconclusive string nat
  | NarrowPassages "rat option" mvalue
  | PhysicalScale
  | MeasuredVerdict verdict_outcome string "limit_row list"
  | ReviewerNotes "string list" "string list" string

fun caveat_kind :: "delivery_caveat \<Rightarrow> string" where
  "caveat_kind (NearMiss c) = c_kind c"
| "caveat_kind (ReviewConcerns items) = ''review_concerns''"
| "caveat_kind (ReviewInconclusive m n) = ''review_inconclusive''"
| "caveat_kind (NarrowPassages c s) = ''narrow_passages''"
| "caveat_kind PhysicalScale = ''physical_scale''"
| "caveat_kind (MeasuredVerdict out r rows) = ''measured_verdict''"
| "caveat_kind (ReviewerNotes items settled v) = ''reviewer_notes''"

definition is_fea :: "string \<Rightarrow> bool" where
  "is_fea purpose = (strip purpose = FEA_PURPOSE)"

definition concluded_on_valid_mesh :: "RunOutcome \<Rightarrow> bool" where
  "concluded_on_valid_mesh out =
     (o_api_failure out = [] \<and> o_success out \<and> o_failed_gate out = []
      \<and> o_verdict out \<in> {''PASS'', ''FAIL''})"

definition limits_decide_for :: "settings \<Rightarrow> RunOutcome \<Rightarrow> bool" where
  "limits_decide_for cfg out = (VERDICT_BY_LIMITS cfg \<or> is_fea (o_purpose out))"

definition review_inconclusive_caveat :: "RunOutcome \<Rightarrow> delivery_caveat option" where
  "review_inconclusive_caveat out =
     (let bare = result_marker (o_api_failure out)
      in if \<not> starts_with ''reviewer_'' bare then None
         else if \<not> o_success out \<or> o_failed_gate out \<noteq> [] \<or> o_is_dispute out then None
         else Some (ReviewInconclusive bare (o_review_reruns out)))"

definition fea_measured_valid :: "RunOutcome \<Rightarrow> bool" where
  "fea_measured_valid out =
     (is_fea (o_purpose out)
      \<and> (case o_manifest out of Some m \<Rightarrow> measured_valid m = Some True | None \<Rightarrow> False))"

definition review_blocking :: "settings \<Rightarrow> RunOutcome \<Rightarrow> finding list" where
  "review_blocking cfg out =
     (if VERDICT_BY_LIMITS cfg then []
      else if \<not> concluded_on_valid_mesh out \<or> o_verdict out \<noteq> ''FAIL'' then []
      else if fea_measured_valid out then []
      else blocking_findings (o_findings out))"

definition review_points :: "RunOutcome \<Rightarrow> finding list" where
  "review_points out = filter (\<lambda>f. f_passed f = Some False) (o_findings out)"

definition review_concerns_caveat :: "settings \<Rightarrow> RunOutcome \<Rightarrow> delivery_caveat option" where
  "review_concerns_caveat cfg out =
     (if limits_decide_for cfg out then None
      else if \<not> concluded_on_valid_mesh out \<or> o_verdict out \<noteq> ''FAIL'' then None
      else if review_blocking cfg out \<noteq> [] then None
      else if review_points out = [] then None
      else Some (ReviewConcerns (review_points out)))"

definition narrow_passage_caveat :: "RunOutcome \<Rightarrow> delivery_caveat option" where
  "narrow_passage_caveat out =
     (if \<not> o_success out \<or> o_failed_gate out \<noteq> [] then None
      else case o_manifest out of
        None \<Rightarrow> None
      | Some m \<Rightarrow>
          let v = judge_resolution m in
          if rv_ok v \<and> rv_scope v = ScopeMain then Some (NarrowPassages (rv_cells v) (rv_side v)) else None)"

definition physical_scale_caveat :: "RunOutcome \<Rightarrow> delivery_caveat option" where
  "physical_scale_caveat out =
     (if \<not> o_success out \<or> o_failed_gate out \<noteq> [] \<or> \<not> o_size_implausible out then None
      else Some PhysicalScale)"

section \<open>The verdict by measured limits\<close>

definition topology_of :: "string \<Rightarrow> string" where
  "topology_of purpose =
     (if purpose = ''external_cfd'' then ''external''
      else if purpose = ''internal_cfd'' then ''internal'' else [])"

definition no_manifest :: manifest where
  "no_manifest = \<lparr>mf_mode = [], mf_topology = [], mf_params = [], mf_patch_types = [],
     mf_face_counts = [], mf_quality = Map.empty, mf_passage_p05 = MNone, mf_passage_flow = None,
     mf_wake = False, mf_faces_complete = MNone, mf_fea = None\<rparr>"

definition near_misses :: "caveat list \<Rightarrow> int" where
  "near_misses cs = int (length (filter (\<lambda>c. c_kind c \<notin> set NOTE_KINDS) cs))"

definition measured_inputs :: "RunOutcome \<Rightarrow> verdict_inputs" where
  "measured_inputs out =
     inputs_for (o_engine out)
       (if o_topology out \<noteq> [] then o_topology out else topology_of (o_purpose out))
       (or_else (o_manifest out) no_manifest)
       (o_success out \<and> o_failed_gate out = []) (o_failed_gate out) (o_layers_planned out)
       (near_misses (o_caveats out))
       (if physical_scale_caveat out \<noteq> None then 1 else 0)
       (length (review_points out))"

definition measured_verdict :: "RunOutcome \<Rightarrow> verdict_outcome \<times> string" where
  "measured_verdict out = verdict (measured_inputs out)"

definition limits_apply :: "RunOutcome \<Rightarrow> bool" where
  "limits_apply out =
     (o_success out \<and> o_failed_gate out = []
      \<and> (o_api_failure out = [] \<or> review_inconclusive_caveat out \<noteq> None))"

definition limits_failure_checks :: "RunOutcome \<Rightarrow> limit_row list" where
  "limits_failure_checks out =
     (let i = measured_inputs out in
      if failed_gating i \<noteq> [] then failed_gating i else missed_limits i)"

definition delivers :: "verdict_outcome \<Rightarrow> bool" where
  "delivers v = (v \<in> {OUTCOME_CLEAN, OUTCOME_CONCERNS})"

definition measured_verdict_caveat :: "settings \<Rightarrow> RunOutcome \<Rightarrow> delivery_caveat option" where
  "measured_verdict_caveat cfg out =
     (if \<not> limits_decide_for cfg out \<or> \<not> limits_apply out then None
      else let v = measured_verdict out in
           if delivers (fst v)
           then Some (MeasuredVerdict (fst v) (snd v) (missed_limits (measured_inputs out))) else None)"

section \<open>The reviewer's points as notes\<close>

definition SETTLED_BY :: "(string \<times> string list) list" where
  "SETTLED_BY =
     [(''prism_layer_coverage'', [''layer_coverage_pct'', ''layer_coverage'']),
      (''near_wall_layers_generated'', [''layer_coverage_pct'', ''layer_coverage'', ''thin_layers_short'']),
      (''element_quality_distribution'', [''fatal'', ''max_non_ortho'', ''skew_fraction'', ''min_sicn'',
          ''min_quality'', ''sicn_low_fraction'']),
      (''fea_element_validity'', [''elements_under_floor'', ''min_sicn'', ''fea_inverted'']),
      (''region_split_completeness'', [''regions_missing'']),
      (''interface_continuity'', [''interface_ok'']),
      (''conformal_interface'', [''interface_ok'']),
      (''passage_near_wall_resolution'', [''passage_cells_across'', ''resolution_short'']),
      (''fea_detail'', [''through_wall_min'', ''fea_resolution_short'']),
      (''fea_faces_named'', [''fea_faces.complete''])]"

definition verdict_rows :: "RunOutcome \<Rightarrow> string \<rightharpoonup> limit_row" where
  "verdict_rows out =
     (let i = measured_inputs out in
      map_of (rev (map (\<lambda>r. (row_key r, r)) (filter (\<lambda>r. row_key r \<noteq> []) (vi_gating i @ vi_limits i)))))"

text \<open>What one measurement says: nothing, that the property is there, or that it may not be.\<close>

definition measurement_says :: "RunOutcome \<Rightarrow> string \<Rightarrow> bool option" where
  "measurement_says out key =
     (if key = ''fea_faces.complete''
      then (case or_else (map_option mf_faces_complete (o_manifest out)) MNone of
              MNone \<Rightarrow> None | v \<Rightarrow> Some (v = MBool True))
      else case verdict_rows out key of
        None \<Rightarrow> None
      | Some r \<Rightarrow> if row_measured r = MNone then None
                  else Some (limit_met (row_measured r) (row_op r) (row_limit r) = Some True))"

definition point_settled :: "RunOutcome \<Rightarrow> string \<Rightarrow> bool" where
  "point_settled out axis =
     (let said = map (measurement_says out) (or_else (map_of SETTLED_BY axis) []) in
      Some False \<notin> set said \<and> Some True \<in> set said)"

definition reviewer_notes_caveat :: "settings \<Rightarrow> RunOutcome \<Rightarrow> delivery_caveat option" where
  "reviewer_notes_caveat cfg out =
     (if \<not> limits_decide_for cfg out \<or> \<not> concluded_on_valid_mesh out then None
      else
        let points = map axis_key (review_points out);
            settled = filter (point_settled out) points;
            items = filter (\<lambda>a. \<not> point_settled out a) points
        in if points = [] then None else Some (ReviewerNotes items settled (o_verdict out)))"

definition recorded_review_verdict :: "settings \<Rightarrow> RunOutcome \<Rightarrow> string" where
  "recorded_review_verdict cfg out =
     (if limits_decide_for cfg out \<and> concluded_on_valid_mesh out \<and> delivers (fst (measured_verdict out))
      then ''PASS'' else o_verdict out)"

section \<open>The status\<close>

record StatusDecision =
  d_status :: JobStatus
  d_reason :: "FailedReason option"
  d_limits_failed :: "limit_row list"

definition decided_success :: StatusDecision where
  "decided_success = \<lparr>d_status = JS_succeeded, d_reason = None, d_limits_failed = []\<rparr>"

definition decided_failure :: "FailedReason \<Rightarrow> limit_row list \<Rightarrow> StatusDecision" where
  "decided_failure r rows = \<lparr>d_status = JS_failed, d_reason = Some r, d_limits_failed = rows\<rparr>"

definition derive_terminal_status :: "settings \<Rightarrow> RunOutcome \<Rightarrow> StatusDecision" where
  "derive_terminal_status cfg out =
     (if limits_decide_for cfg out \<and> limits_apply out
      then if delivers (fst (measured_verdict out)) then decided_success
           else decided_failure FR_mesh_generation (limits_failure_checks out)
      else if o_api_failure out \<noteq> [] \<and> review_inconclusive_caveat out \<noteq> None then decided_success
      else if o_api_failure out \<noteq> []
      then decided_failure
             (or_else (FailedReason_of (failed_reason_for (classify_api_failure (o_api_failure out))))
               FR_api_failure) []
      else if o_verdict out = ''PASS'' \<and> o_success out then decided_success
      else if review_concerns_caveat cfg out \<noteq> None then decided_success
      else decided_failure (if o_success out then FR_reviewer_rejected else FR_mesh_generation) [])"

definition d_succeeded :: "StatusDecision \<Rightarrow> bool" where
  "d_succeeded d = (d_reason d = None \<and> d_status d = JS_succeeded)"

text \<open>The delivery's outcome: \<open>None\<close> where none was made, else whether it succeeded and why not.\<close>

definition apply_delivery ::
  "StatusDecision \<Rightarrow> (bool \<times> FailedReason option) option \<Rightarrow> StatusDecision"
where
  "apply_delivery d delivery =
     (case delivery of
        None \<Rightarrow> d
      | Some (ok, why_not) \<Rightarrow>
          if ok then d else \<lparr>d_status = JS_failed, d_reason = why_not, d_limits_failed = []\<rparr>)"

end
