(* ===== verification/ResultBuild.thy ===== *)
theory ResultBuild
  imports FinalResult Json
begin

text \<open>
  The record of a finished run (\<open>build_final_result\<close> and what it rests on in
  \<open>application/final_result.py\<close>, \<open>application/artifact_policy.py\<close>) and the terminal assembly that
  calls it with the caveats the status was granted on (\<open>application/pipeline_run.py\<close>,
  \<open>application/terminal_finalize.py\<close>). The constructor's and the builder's refusals are an \<open>Inl\<close>.
  The sentences told with an account (\<open>contracts/failure_cause.describe\<close>) are given; a known cause
  always has one.
\<close>

datatype TerminalStatus = TS_succeeded | TS_failed | TS_cancelled
datatype ReviewVerdict = RV_passed | RV_failed
datatype ReviewExecution = RE_not_reached | RE_completed | RE_failed_to_complete

datatype FailureCategory =
    FC_incompatible_requirements | FC_authoring_failed | FC_native_execution_failed
  | FC_required_output_missing | FC_gate_failed | FC_input_rejected | FC_review_rejected
  | FC_attempts_exhausted | FC_delivery_failed | FC_timed_out | FC_internal_pipeline_failure
  | FC_worker_lost | FC_never_started

fun FailureCategory_value :: "FailureCategory \<Rightarrow> string" where
  "FailureCategory_value FC_incompatible_requirements = ''incompatible_requirements''"
| "FailureCategory_value FC_authoring_failed = ''authoring_failed''"
| "FailureCategory_value FC_native_execution_failed = ''native_execution_failed''"
| "FailureCategory_value FC_required_output_missing = ''required_output_missing''"
| "FailureCategory_value FC_gate_failed = ''gate_failed''"
| "FailureCategory_value FC_input_rejected = ''input_rejected''"
| "FailureCategory_value FC_review_rejected = ''review_rejected''"
| "FailureCategory_value FC_attempts_exhausted = ''attempts_exhausted''"
| "FailureCategory_value FC_delivery_failed = ''delivery_failed''"
| "FailureCategory_value FC_timed_out = ''timed_out''"
| "FailureCategory_value FC_internal_pipeline_failure = ''internal_pipeline_failure''"
| "FailureCategory_value FC_worker_lost = ''worker_lost''"
| "FailureCategory_value FC_never_started = ''never_started''"

section \<open>The record\<close>

record 'c FinalResult =
  fr_schema_version :: int
  fr_job_id :: string
  fr_owner_id :: string
  fr_status :: TerminalStatus
  fr_engine :: string
  fr_purpose :: string
  fr_dimensionality :: string
  fr_requested_fidelity :: "string option"
  fr_effective_fidelity :: string
  fr_fidelity_source :: string
  fr_fidelity_policy :: string
  fr_snapshot_id :: string
  fr_executor_success :: bool
  fr_verdict :: "ReviewVerdict option"
  fr_execution :: ReviewExecution
  fr_failed_gate :: string
  fr_patch_ok :: "bool option"
  fr_outcome_code :: string
  fr_category :: "string option"
  fr_attempts :: int
  fr_attempts_max :: int
  fr_required_ready :: bool
  fr_delivered :: "string list"
  fr_caveats :: "'c list"
  fr_engine_ladder :: "(string \<times> json) list"
  fr_repair_lineage :: "(string \<times> json) list"
  fr_warnings :: "string list"
  fr_missing :: "string list"
  fr_finalized_at :: string
  fr_cause :: string
  fr_detail :: string
  fr_next_step :: string
  fr_retry_skipped :: bool
  fr_review_parked :: int
  fr_review_left :: "(string \<times> json) list"
  fr_truncated :: int
  fr_remarks :: "string list"

definition FINAL_RESULT_SCHEMA_VERSION :: int where "FINAL_RESULT_SCHEMA_VERSION = 5"

text \<open>\<open>__post_init__\<close>: a verdict is present exactly when the review concluded.\<close>

definition constructed :: "'c FinalResult \<Rightarrow> string + 'c FinalResult" where
  "constructed fr =
     (if (fr_verdict fr \<noteq> None) \<noteq> (fr_execution fr = RE_completed)
      then Inl ''reviewer_verdict must be present exactly when review_execution == completed''
      else Inr fr)"

section \<open>What a run must deliver\<close>

definition engine_names :: "string list" where
  "engine_names = [''cfmesh'', ''gmsh'', ''snapgrid'', ''snappy'', ''snappy_multiregion'', ''vmtk'']"

definition required_output_classes :: "string \<Rightarrow> string \<Rightarrow> string list" where
  "required_output_classes e purpose =
     (if lower (strip e) \<notin> set engine_names then []
      else if is_fea purpose then [''mesh_bundle''] else [''mesh_bundle'', ''viewer_data''])"

definition required_ready :: "string \<Rightarrow> string list \<Rightarrow> string \<Rightarrow> bool" where
  "required_ready e classes purpose =
     (let req = required_output_classes e purpose in req \<noteq> [] \<and> set req \<subseteq> set classes)"

definition optional_warnings :: "string list \<Rightarrow> string list" where
  "optional_warnings classes = filter (\<lambda>c. c \<notin> set classes) [''mesh'']"

section \<open>The failure's category and account\<close>

definition GEOMETRY_INPUT_GATE :: string where "GEOMETRY_INPUT_GATE = ''geometry''"

definition derive_failure_category ::
  "bool \<Rightarrow> ReviewVerdict option \<Rightarrow> ReviewExecution \<Rightarrow> string \<Rightarrow> string \<Rightarrow> bool \<Rightarrow> int \<Rightarrow> int \<Rightarrow> bool
     \<Rightarrow> FailureCategory"
where
  "derive_failure_category success rv execution gate api ready attempts attempts_max timed_out =
     (if execution = RE_failed_to_complete \<and> \<not> timed_out then FC_internal_pipeline_failure
      else if gate = GEOMETRY_INPUT_GATE then FC_input_rejected
      else if gate \<noteq> [] then FC_gate_failed
      else if execution = RE_completed \<and> rv = Some RV_failed then FC_review_rejected
      else if success \<and> rv = Some RV_passed \<and> \<not> ready then FC_delivery_failed
      else if timed_out then FC_timed_out
      else if api \<noteq> [] then FC_internal_pipeline_failure
      else if \<not> success
      then (if attempts_max \<noteq> 0 \<and> attempts_max \<le> attempts then FC_attempts_exhausted
            else FC_native_execution_failed)
      else FC_internal_pipeline_failure)"

text \<open>\<open>clean_reason\<close>: blanks folded, the machine tags at the front dropped, 600 characters at most.\<close>

lemma length_strip_le: "length (strip s) \<le> length s"
  unfolding strip_def
  by (metis length_dropWhile_le length_rev order_trans)

function drop_tags :: "string \<Rightarrow> string" where
  "drop_tags t =
     (if t \<noteq> [] \<and> hd t = CHR ''['' \<and> CHR '']'' \<in> set t
      then drop_tags (strip (tl (dropWhile (\<lambda>c. c \<noteq> CHR '']'') t))) else t)"
  by pat_completeness auto

termination
proof (relation "measure length")
  fix t :: string
  let ?rest = "dropWhile (\<lambda>c. c \<noteq> CHR '']'') t"
  assume "t \<noteq> [] \<and> hd t = CHR ''['' \<and> CHR '']'' \<in> set t"
  then have pos: "0 < length t" by simp
  have rest: "length (tl ?rest) \<le> length t - 1"
    using diff_le_mono [OF length_dropWhile_le [of "\<lambda>c. c \<noteq> CHR '']''" t], of 1] by simp
  have "length (strip (tl ?rest)) \<le> length t - 1"
    by (rule order_trans [OF length_strip_le rest])
  also have "\<dots> < length t" using pos by simp
  finally show "(strip (tl ?rest), t) \<in> measure length" by simp
qed simp

declare drop_tags.simps [simp del]

definition clean_reason :: "string \<Rightarrow> string" where
  "clean_reason s = rstrip_char (CHR ''.'') (take 600 (drop_tags (unwords (split_words [] s))))"

record admission_facts =
  af_phases :: "string list"
  af_reason :: string
  af_declared_reason :: string
  af_by_design :: bool

text \<open>The category, the cause, and whether the account says what failed.\<close>

definition cause_account :: "string \<Rightarrow> string \<Rightarrow> string \<times> bool" where
  "cause_account failed_gate failure_cause =
     (case (case as_cause failure_cause of None \<Rightarrow> SEAM_CAUSES failed_gate | c \<Rightarrow> c) of
        None \<Rightarrow> ([], False)
      | Some c \<Rightarrow> (cause_value c, True))"

definition admission_account :: "admission_facts \<Rightarrow> FailureCategory \<times> string \<times> bool" where
  "admission_account f =
     (let reason = clean_reason (af_reason f); declared_reason = clean_reason (af_declared_reason f) in
      if af_by_design f \<and> declared_reason \<noteq> []
      then (FC_incompatible_requirements, cause_value GEOMETRY_REJECTED, True)
      else if af_phases f \<noteq> [] \<and> ''measured'' \<notin> set (af_phases f)
      then (FC_incompatible_requirements, [], True)
      else if reason = [] then (FC_input_rejected, [], False)
      else (FC_input_rejected, cause_value GEOMETRY_REJECTED, True))"

section \<open>Building the record\<close>

record build_input =
  b_job :: string
  b_owner :: string
  b_status :: TerminalStatus
  b_engine :: string
  b_purpose :: string
  b_dimensionality :: string
  b_snapshot_id :: string
  b_requested_fidelity :: "string option"
  b_effective_fidelity :: string
  b_fidelity_source :: string
  b_fidelity_policy :: string
  b_success :: bool
  b_verdict :: string
  b_failed_gate :: string
  b_api_failure :: string
  b_attempts :: int
  b_attempts_made :: "int option"
  b_attempts_max :: int
  b_required_ready :: bool
  b_delivered :: "string list"
  b_warnings :: "string list"
  b_timed_out :: bool
  b_caveats :: "delivery_caveat list"
  b_failure_cause :: string
  b_failure_facts :: facts
  b_admission :: admission_facts
  b_blocking :: "finding list"
  b_now :: string
  b_sentences :: "string \<times> string"

definition upper_char :: "char \<Rightarrow> char" where
  "upper_char c = (let n = of_char c :: nat in if 97 \<le> n \<and> n \<le> 122 then char_of (n - 32) else c)"

definition review_state :: "build_input \<Rightarrow> ReviewExecution \<times> ReviewVerdict option" where
  "review_state b =
     (let v = map upper_char (strip (b_verdict b));
          marker = starts_with ''reviewer_'' (result_marker (b_api_failure b))
      in if b_api_failure b \<noteq> [] \<and> (marker \<or> v \<in> {''PASS'', ''FAIL''})
         then (RE_failed_to_complete, None)
         else if v \<noteq> [] \<and> (b_failed_gate b \<noteq> [] \<or> \<not> b_success b) then (RE_not_reached, None)
         else if v = ''FAIL'' then (RE_completed, Some RV_failed)
         else if v = ''PASS'' then (RE_completed, Some RV_passed)
         else (RE_not_reached, None))"

definition shown_attempts :: "build_input \<Rightarrow> int" where
  "shown_attempts b = (case b_attempts_made b of None \<Rightarrow> b_attempts b | Some n \<Rightarrow> max 0 n)"

definition base_result :: "build_input \<Rightarrow> delivery_caveat FinalResult" where
  "base_result b =
     \<lparr>fr_schema_version = FINAL_RESULT_SCHEMA_VERSION, fr_job_id = b_job b, fr_owner_id = b_owner b,
      fr_status = b_status b, fr_engine = b_engine b, fr_purpose = b_purpose b,
      fr_dimensionality = b_dimensionality b, fr_requested_fidelity = b_requested_fidelity b,
      fr_effective_fidelity = b_effective_fidelity b, fr_fidelity_source = b_fidelity_source b,
      fr_fidelity_policy = b_fidelity_policy b, fr_snapshot_id = b_snapshot_id b,
      fr_executor_success = b_success b, fr_verdict = snd (review_state b),
      fr_execution = fst (review_state b), fr_failed_gate = b_failed_gate b,
      fr_patch_ok = (if b_failed_gate b \<noteq> [] then Some (b_failed_gate b \<noteq> ''patch_contract'')
                     else if b_success b then Some True else None),
      fr_outcome_code = [], fr_category = None, fr_attempts = shown_attempts b,
      fr_attempts_max = b_attempts_max b, fr_required_ready = False, fr_delivered = [],
      fr_caveats = [], fr_engine_ladder = [], fr_repair_lineage = [], fr_warnings = b_warnings b,
      fr_missing = required_output_classes (b_engine b) [], fr_finalized_at = b_now b, fr_cause = [],
      fr_detail = [], fr_next_step = [], fr_retry_skipped = False, fr_review_parked = 0,
      fr_review_left = [], fr_truncated = 0, fr_remarks = []\<rparr>"

definition CONCERN_KINDS :: "string list" where
  "CONCERN_KINDS = [''layer_coverage'', ''review_concerns'', ''measured_verdict'']"

definition build_success :: "build_input \<Rightarrow> string + delivery_caveat FinalResult" where
  "build_success b =
     (if snd (review_state b) = Some RV_failed \<and> \<not> list_ex (\<lambda>c. caveat_kind c \<in> set CONCERN_KINDS) (b_caveats b)
      then Inl ''succeeded with a FAIL review verdict requires a caveat''
      else if fst (review_state b) = RE_failed_to_complete
              \<and> \<not> list_ex (\<lambda>c. caveat_kind c = ''review_inconclusive'') (b_caveats b)
      then Inl ''succeeded with a review that did not finish requires a caveat''
      else constructed ((base_result b)
        \<lparr>fr_caveats := b_caveats b, fr_executor_success := True, fr_failed_gate := [],
         fr_patch_ok := Some True, fr_outcome_code := ''success'',
         fr_required_ready := b_required_ready b, fr_delivered := b_delivered b, fr_missing := []\<rparr>))"

text \<open>The category, the cause, the facts the retry policy reads with it, and whether sentences are told.\<close>

definition failure_account :: "build_input \<Rightarrow> FailureCategory \<times> string \<times> facts \<times> bool" where
  "failure_account b =
     (let cat = derive_failure_category (b_success b) (snd (review_state b)) (fst (review_state b))
                  (b_failed_gate b) (b_api_failure b) (b_required_ready b) (b_attempts b)
                  (b_attempts_max b) (b_timed_out b)
      in if cat = FC_gate_failed
         then (case cause_account (b_failed_gate b) (b_failure_cause b) of
                 (c, told) \<Rightarrow> (cat, c, b_failure_facts b, told))
         else if cat = FC_review_rejected \<and> b_blocking b \<noteq> [] then (cat, [], b_failure_facts b, True)
         else if cat = FC_input_rejected
         then (case admission_account (b_admission b) of
                 (cat', c, told) \<Rightarrow> (cat', c, b_failure_facts b, told))
         else if cat = FC_internal_pipeline_failure \<and> fst (review_state b) = RE_failed_to_complete
                 \<and> starts_with ''reviewer_'' (result_marker (b_api_failure b))
         then (cat, cause_value REVIEW_INCOMPLETE, no_facts, True)
         else (cat, [], b_failure_facts b, False))"

definition build_failure :: "build_input \<Rightarrow> string + delivery_caveat FinalResult" where
  "build_failure b =
     (case failure_account b of
        (cat, c, f, told) \<Rightarrow>
          constructed ((base_result b)
            \<lparr>fr_outcome_code := FailureCategory_value cat,
             fr_category := Some (FailureCategory_value cat), fr_cause := c,
             fr_detail := (if told then fst (b_sentences b) else []),
             fr_next_step := (if told then snd (b_sentences b) else []),
             fr_retry_skipped := (c \<noteq> [] \<and> \<not> retry_can_help c f)\<rparr>))"

definition build_final_result :: "build_input \<Rightarrow> string + delivery_caveat FinalResult" where
  "build_final_result b = (if b_status b = TS_succeeded then build_success b else build_failure b)"

definition build_cancelled_result ::
  "string \<Rightarrow> string \<Rightarrow> string \<Rightarrow> string \<Rightarrow> string \<Rightarrow> string \<Rightarrow> int \<Rightarrow> string
     \<Rightarrow> string + delivery_caveat FinalResult"
where
  "build_cancelled_result job owner e purpose dims snapshot attempts now =
     constructed \<lparr>fr_schema_version = FINAL_RESULT_SCHEMA_VERSION, fr_job_id = job, fr_owner_id = owner,
      fr_status = TS_cancelled, fr_engine = e, fr_purpose = purpose, fr_dimensionality = dims,
      fr_requested_fidelity = None, fr_effective_fidelity = [], fr_fidelity_source = [],
      fr_fidelity_policy = [], fr_snapshot_id = snapshot, fr_executor_success = False, fr_verdict = None,
      fr_execution = RE_not_reached, fr_failed_gate = [], fr_patch_ok = None,
      fr_outcome_code = ''cancelled'', fr_category = None, fr_attempts = max attempts 0,
      fr_attempts_max = 0, fr_required_ready = False, fr_delivered = [], fr_caveats = [],
      fr_engine_ladder = [], fr_repair_lineage = [], fr_warnings = [],
      fr_missing = required_output_classes e [], fr_finalized_at = now, fr_cause = [], fr_detail = [],
      fr_next_step = [], fr_retry_skipped = False, fr_review_parked = 0, fr_review_left = [],
      fr_truncated = 0, fr_remarks = []\<rparr>"

text \<open>The record of a job the reaper, or the refusal before execution, failed.\<close>

definition reaped_result ::
  "FailureCategory \<Rightarrow> string \<Rightarrow> string \<Rightarrow> int \<Rightarrow> int \<Rightarrow> string \<Rightarrow> string + delivery_caveat FinalResult"
where
  "reaped_result cat job owner attempts attempts_max now =
     constructed \<lparr>fr_schema_version = FINAL_RESULT_SCHEMA_VERSION, fr_job_id = job, fr_owner_id = owner,
      fr_status = TS_failed, fr_engine = [], fr_purpose = [], fr_dimensionality = [],
      fr_requested_fidelity = None, fr_effective_fidelity = [], fr_fidelity_source = [],
      fr_fidelity_policy = [], fr_snapshot_id = [], fr_executor_success = False, fr_verdict = None,
      fr_execution = RE_not_reached, fr_failed_gate = [], fr_patch_ok = None,
      fr_outcome_code = FailureCategory_value cat, fr_category = Some (FailureCategory_value cat),
      fr_attempts = max 0 attempts, fr_attempts_max = max 0 attempts_max, fr_required_ready = False,
      fr_delivered = [], fr_caveats = [], fr_engine_ladder = [], fr_repair_lineage = [],
      fr_warnings = [], fr_missing = [], fr_finalized_at = now, fr_cause = [], fr_detail = [],
      fr_next_step = [], fr_retry_skipped = False, fr_review_parked = 0, fr_review_left = [],
      fr_truncated = 0, fr_remarks = []\<rparr>"

end
