(* ===== verification/ResultRecord.thy ===== *)
theory ResultRecord
  imports ResultBuild
begin

text \<open>
  The stored form of a run's record: \<open>FinalResult.to_dict\<close> and \<open>from_dict\<close> of
  \<open>application/final_result.py\<close>. A caveat is the JSON object it is stored as. \<open>from_dict\<close> raises on an
  unreadable version, a missing key, a value no enumeration has, and a verdict that does not fit the
  review's state; a stored value of another type than its field has is a separate refusal here.
\<close>

fun status_value :: "TerminalStatus \<Rightarrow> string" where
  "status_value TS_succeeded = ''succeeded''"
| "status_value TS_failed = ''failed''"
| "status_value TS_cancelled = ''cancelled''"

fun verdict_value :: "ReviewVerdict \<Rightarrow> string" where
  "verdict_value RV_passed = ''passed''"
| "verdict_value RV_failed = ''failed''"

fun execution_value :: "ReviewExecution \<Rightarrow> string" where
  "execution_value RE_not_reached = ''not_reached''"
| "execution_value RE_completed = ''completed''"
| "execution_value RE_failed_to_complete = ''failed_to_complete''"

definition status_of :: "string \<Rightarrow> TerminalStatus option" where
  "status_of v = map_of (map (\<lambda>x. (status_value x, x)) [TS_succeeded, TS_failed, TS_cancelled]) v"

definition verdict_of :: "string \<Rightarrow> ReviewVerdict option" where
  "verdict_of v = map_of (map (\<lambda>x. (verdict_value x, x)) [RV_passed, RV_failed]) v"

definition execution_of :: "string \<Rightarrow> ReviewExecution option" where
  "execution_of v =
     map_of (map (\<lambda>x. (execution_value x, x)) [RE_not_reached, RE_completed, RE_failed_to_complete]) v"

type_synonym stored_result = "(string \<times> json) list"

fun optional_json :: "('a \<Rightarrow> json) \<Rightarrow> 'a option \<Rightarrow> json" where
  "optional_json f None = JNull"
| "optional_json f (Some x) = f x"

definition to_dict :: "json FinalResult \<Rightarrow> stored_result" where
  "to_dict fr =
     [(''schema_version'', JNum (fr_schema_version fr)),
      (''job_id'', JStr (fr_job_id fr)),
      (''owner_id'', JStr (fr_owner_id fr)),
      (''status'', JStr (status_value (fr_status fr))),
      (''engine'', JStr (fr_engine fr)),
      (''purpose'', JStr (fr_purpose fr)),
      (''dimensionality'', JStr (fr_dimensionality fr)),
      (''requested_mesh_fidelity'', optional_json JStr (fr_requested_fidelity fr)),
      (''effective_mesh_fidelity'', JStr (fr_effective_fidelity fr)),
      (''mesh_fidelity_source'', JStr (fr_fidelity_source fr)),
      (''fidelity_policy_version'', JStr (fr_fidelity_policy fr)),
      (''approved_snapshot_id'', JStr (fr_snapshot_id fr)),
      (''executor_success'', JBool (fr_executor_success fr)),
      (''reviewer_verdict'', optional_json (\<lambda>v. JStr (verdict_value v)) (fr_verdict fr)),
      (''review_execution'', JStr (execution_value (fr_execution fr))),
      (''failed_gate'', JStr (fr_failed_gate fr)),
      (''patch_contract_ok'', optional_json JBool (fr_patch_ok fr)),
      (''outcome_code'', JStr (fr_outcome_code fr)),
      (''failure_category'', optional_json JStr (fr_category fr)),
      (''attempts'', JNum (fr_attempts fr)),
      (''attempts_max'', JNum (fr_attempts_max fr)),
      (''required_ready'', JBool (fr_required_ready fr)),
      (''delivered_types'', JArr (map JStr (fr_delivered fr))),
      (''requirement_caveats'', JArr (fr_caveats fr)),
      (''engine_ladder'', JObj (fr_engine_ladder fr)),
      (''repair_lineage'', JObj (fr_repair_lineage fr)),
      (''optional_warnings'', JArr (map JStr (fr_warnings fr))),
      (''missing_outputs'', JArr (map JStr (fr_missing fr))),
      (''finalized_at'', JStr (fr_finalized_at fr)),
      (''failure_cause'', JStr (fr_cause fr)),
      (''failure_detail'', JStr (fr_detail fr)),
      (''failure_next_step'', JStr (fr_next_step fr)),
      (''retry_skipped'', JBool (fr_retry_skipped fr)),
      (''review_parked'', JNum (fr_review_parked fr)),
      (''review_left'', JObj (fr_review_left fr)),
      (''review_truncated'', JNum (fr_truncated fr)),
      (''notes_remarks'', JArr (map JStr (fr_remarks fr)))]"

section \<open>Reading it back\<close>

datatype read_error = Unreadable | MissingKey string | BadValue string | IllTyped string

definition and_then :: "read_error + 'a \<Rightarrow> ('a \<Rightarrow> read_error + 'b) \<Rightarrow> read_error + 'b" where
  "and_then x f = (case x of Inl e \<Rightarrow> Inl e | Inr a \<Rightarrow> f a)"

lemma and_then_simps [simp]: "and_then (Inl e) f = Inl e" "and_then (Inr a) f = f a"
  by (simp_all add: and_then_def)

definition got :: "stored_result \<Rightarrow> string \<Rightarrow> json \<Rightarrow> json" where
  "got d k dflt = or_else (map_of d k) dflt"

definition read_str :: "stored_result \<Rightarrow> string \<Rightarrow> read_error + string" where
  "read_str d k = (case got d k (JStr []) of JStr s \<Rightarrow> Inr s | _ \<Rightarrow> Inl (IllTyped k))"

definition read_opt_str :: "stored_result \<Rightarrow> string \<Rightarrow> read_error + string option" where
  "read_opt_str d k =
     (case got d k JNull of JNull \<Rightarrow> Inr None | JStr s \<Rightarrow> Inr (Some s) | _ \<Rightarrow> Inl (IllTyped k))"

definition read_opt_bool :: "stored_result \<Rightarrow> string \<Rightarrow> read_error + bool option" where
  "read_opt_bool d k =
     (case got d k JNull of JNull \<Rightarrow> Inr None | JBool b \<Rightarrow> Inr (Some b) | _ \<Rightarrow> Inl (IllTyped k))"

definition read_bool :: "stored_result \<Rightarrow> string \<Rightarrow> bool" where
  "read_bool d k = truthy (got d k (JBool False))"

text \<open>\<open>str(d.get(k) or "")\<close>.\<close>

definition read_text :: "stored_result \<Rightarrow> string \<Rightarrow> read_error + string" where
  "read_text d k =
     (let v = got d k JNull in
      if \<not> truthy v then Inr [] else case v of JStr s \<Rightarrow> Inr s | _ \<Rightarrow> Inl (IllTyped k))"

fun int_of_json :: "string \<Rightarrow> json \<Rightarrow> read_error + int" where
  "int_of_json k (JNum n) = Inr n"
| "int_of_json k (JBool b) = Inr (if b then 1 else 0)"
| "int_of_json k (JStr s) = (case parse_int s of Some n \<Rightarrow> Inr n | None \<Rightarrow> Inl (BadValue k))"
| "int_of_json k _ = Inl (BadValue k)"

definition read_int :: "stored_result \<Rightarrow> string \<Rightarrow> read_error + int" where
  "read_int d k = int_of_json k (got d k (JNum 0))"

definition read_count :: "stored_result \<Rightarrow> string \<Rightarrow> read_error + int" where
  "read_count d k = (let v = got d k (JNum 0) in if truthy v then int_of_json k v else Inr 0)"

fun strings_of :: "json list \<Rightarrow> string list option" where
  "strings_of [] = Some []"
| "strings_of (JStr s # js) = map_option (Cons s) (strings_of js)"
| "strings_of _ = None"

definition read_strs :: "stored_result \<Rightarrow> string \<Rightarrow> read_error + string list" where
  "read_strs d k =
     (case got d k (JArr []) of
        JArr js \<Rightarrow> (case strings_of js of Some xs \<Rightarrow> Inr xs | None \<Rightarrow> Inl (IllTyped k))
      | _ \<Rightarrow> Inl (IllTyped k))"

definition read_objs :: "stored_result \<Rightarrow> string \<Rightarrow> read_error + json list" where
  "read_objs d k =
     (let v = got d k JNull in
      if \<not> truthy v then Inr [] else case v of JArr js \<Rightarrow> Inr js | _ \<Rightarrow> Inl (IllTyped k))"

definition read_dict :: "stored_result \<Rightarrow> string \<Rightarrow> (string \<times> json) list" where
  "read_dict d k = (case got d k JNull of JObj m \<Rightarrow> m | _ \<Rightarrow> [])"

definition read_remarks :: "stored_result \<Rightarrow> read_error + string list" where
  "read_remarks d =
     (let v = got d ''notes_remarks'' JNull in
      if \<not> truthy v then Inr []
      else case v of
        JArr js \<Rightarrow> (case strings_of js of
             Some xs \<Rightarrow> Inr (filter (\<lambda>r. strip r \<noteq> []) xs) | None \<Rightarrow> Inl (IllTyped ''notes_remarks''))
      | _ \<Rightarrow> Inl (IllTyped ''notes_remarks''))"

definition read_required :: "stored_result \<Rightarrow> string \<Rightarrow> read_error + string" where
  "read_required d k =
     (case map_of d k of None \<Rightarrow> Inl (MissingKey k) | Some (JStr s) \<Rightarrow> Inr s | Some _ \<Rightarrow> Inl (IllTyped k))"

definition read_enum :: "(string \<Rightarrow> 'a option) \<Rightarrow> string \<Rightarrow> json \<Rightarrow> read_error + 'a" where
  "read_enum f k v =
     (case v of JStr s \<Rightarrow> (case f s of Some x \<Rightarrow> Inr x | None \<Rightarrow> Inl (BadValue k)) | _ \<Rightarrow> Inl (BadValue k))"

definition read_status :: "stored_result \<Rightarrow> read_error + TerminalStatus" where
  "read_status d =
     (case map_of d ''status'' of
        None \<Rightarrow> Inl (MissingKey ''status'') | Some v \<Rightarrow> read_enum status_of ''status'' v)"

definition read_verdict :: "stored_result \<Rightarrow> read_error + ReviewVerdict option" where
  "read_verdict d =
     (case got d ''reviewer_verdict'' JNull of
        JNull \<Rightarrow> Inr None
      | v \<Rightarrow> and_then (read_enum verdict_of ''reviewer_verdict'' v) (\<lambda>x. Inr (Some x)))"

definition READABLE_VERSIONS :: "int list" where "READABLE_VERSIONS = [4, 5]"

definition read_version :: "stored_result \<Rightarrow> read_error + int" where
  "read_version d =
     (case map_of d ''schema_version'' of
        Some (JNum v) \<Rightarrow> if v \<in> set READABLE_VERSIONS then Inr v else Inl Unreadable
      | _ \<Rightarrow> Inl Unreadable)"

definition from_dict :: "stored_result \<Rightarrow> read_error + json FinalResult" where
  "from_dict d =
     and_then (read_version d) (\<lambda>version.
     and_then (read_required d ''job_id'') (\<lambda>job.
     and_then (read_required d ''owner_id'') (\<lambda>owner.
     and_then (read_status d) (\<lambda>status.
     and_then (read_str d ''engine'') (\<lambda>e.
     and_then (read_str d ''purpose'') (\<lambda>purpose.
     and_then (read_str d ''dimensionality'') (\<lambda>dims.
     and_then (read_opt_str d ''requested_mesh_fidelity'') (\<lambda>requested.
     and_then (read_str d ''effective_mesh_fidelity'') (\<lambda>effective.
     and_then (read_str d ''mesh_fidelity_source'') (\<lambda>source.
     and_then (read_str d ''fidelity_policy_version'') (\<lambda>policy.
     and_then (read_str d ''approved_snapshot_id'') (\<lambda>snapshot.
     and_then (read_verdict d) (\<lambda>verdict.
     and_then (read_objs d ''requirement_caveats'') (\<lambda>cs.
     and_then (read_enum execution_of ''review_execution'' (got d ''review_execution'' (JStr ''not_reached'')))
        (\<lambda>execution.
     and_then (read_str d ''failed_gate'') (\<lambda>gate.
     and_then (read_opt_bool d ''patch_contract_ok'') (\<lambda>patch_ok.
     and_then (read_str d ''outcome_code'') (\<lambda>code.
     and_then (read_opt_str d ''failure_category'') (\<lambda>category.
     and_then (read_int d ''attempts'') (\<lambda>attempts.
     and_then (read_int d ''attempts_max'') (\<lambda>attempts_max.
     and_then (read_strs d ''delivered_types'') (\<lambda>delivered.
     and_then (read_strs d ''optional_warnings'') (\<lambda>warnings.
     and_then (read_strs d ''missing_outputs'') (\<lambda>missing.
     and_then (read_str d ''finalized_at'') (\<lambda>finalized.
     and_then (read_text d ''failure_cause'') (\<lambda>cause.
     and_then (read_text d ''failure_detail'') (\<lambda>detail.
     and_then (read_text d ''failure_next_step'') (\<lambda>next_step.
     and_then (read_count d ''review_parked'') (\<lambda>parked.
     and_then (read_count d ''review_truncated'') (\<lambda>truncated.
     and_then (read_remarks d) (\<lambda>remarks.
     case constructed
       \<lparr>fr_schema_version = version, fr_job_id = job, fr_owner_id = owner, fr_status = status,
        fr_engine = e, fr_purpose = purpose, fr_dimensionality = dims,
        fr_requested_fidelity = requested, fr_effective_fidelity = effective,
        fr_fidelity_source = source, fr_fidelity_policy = policy, fr_snapshot_id = snapshot,
        fr_executor_success = read_bool d ''executor_success'', fr_verdict = verdict,
        fr_execution = execution, fr_failed_gate = gate, fr_patch_ok = patch_ok,
        fr_outcome_code = code, fr_category = category, fr_attempts = attempts,
        fr_attempts_max = attempts_max, fr_required_ready = read_bool d ''required_ready'',
        fr_delivered = delivered, fr_caveats = cs, fr_engine_ladder = read_dict d ''engine_ladder'',
        fr_repair_lineage = read_dict d ''repair_lineage'', fr_warnings = warnings,
        fr_missing = missing, fr_finalized_at = finalized, fr_cause = cause, fr_detail = detail,
        fr_next_step = next_step, fr_retry_skipped = read_bool d ''retry_skipped'',
        fr_review_parked = parked, fr_review_left = read_dict d ''review_left'',
        fr_truncated = truncated, fr_remarks = remarks\<rparr>
     of Inl msg \<Rightarrow> Inl (BadValue ''reviewer_verdict'') | Inr fr \<Rightarrow> Inr fr)))))))))))))))))))))))))))))))"

section \<open>The round trip\<close>

lemma status_round_trip [simp]: "status_of (status_value s) = Some s"
  by (cases s) (simp_all add: status_of_def)

lemma verdict_round_trip [simp]: "verdict_of (verdict_value v) = Some v"
  by (cases v) (simp_all add: verdict_of_def)

lemma execution_round_trip [simp]: "execution_of (execution_value x) = Some x"
  by (cases x) (simp_all add: execution_of_def)

lemma strings_of_map [simp]: "strings_of (map JStr xs) = Some xs"
  by (induction xs) simp_all

lemma stored_lookups [simp]:
  "map_of (to_dict fr) ''schema_version'' = Some (JNum (fr_schema_version fr))"
  "map_of (to_dict fr) ''job_id'' = Some (JStr (fr_job_id fr))"
  "map_of (to_dict fr) ''owner_id'' = Some (JStr (fr_owner_id fr))"
  "map_of (to_dict fr) ''status'' = Some (JStr (status_value (fr_status fr)))"
  "map_of (to_dict fr) ''engine'' = Some (JStr (fr_engine fr))"
  "map_of (to_dict fr) ''purpose'' = Some (JStr (fr_purpose fr))"
  "map_of (to_dict fr) ''dimensionality'' = Some (JStr (fr_dimensionality fr))"
  "map_of (to_dict fr) ''requested_mesh_fidelity'' = Some (optional_json JStr (fr_requested_fidelity fr))"
  "map_of (to_dict fr) ''effective_mesh_fidelity'' = Some (JStr (fr_effective_fidelity fr))"
  "map_of (to_dict fr) ''mesh_fidelity_source'' = Some (JStr (fr_fidelity_source fr))"
  "map_of (to_dict fr) ''fidelity_policy_version'' = Some (JStr (fr_fidelity_policy fr))"
  "map_of (to_dict fr) ''approved_snapshot_id'' = Some (JStr (fr_snapshot_id fr))"
  "map_of (to_dict fr) ''executor_success'' = Some (JBool (fr_executor_success fr))"
  "map_of (to_dict fr) ''reviewer_verdict'' = Some (optional_json (\<lambda>v. JStr (verdict_value v)) (fr_verdict fr))"
  "map_of (to_dict fr) ''review_execution'' = Some (JStr (execution_value (fr_execution fr)))"
  "map_of (to_dict fr) ''failed_gate'' = Some (JStr (fr_failed_gate fr))"
  "map_of (to_dict fr) ''patch_contract_ok'' = Some (optional_json JBool (fr_patch_ok fr))"
  "map_of (to_dict fr) ''outcome_code'' = Some (JStr (fr_outcome_code fr))"
  "map_of (to_dict fr) ''failure_category'' = Some (optional_json JStr (fr_category fr))"
  "map_of (to_dict fr) ''attempts'' = Some (JNum (fr_attempts fr))"
  "map_of (to_dict fr) ''attempts_max'' = Some (JNum (fr_attempts_max fr))"
  "map_of (to_dict fr) ''required_ready'' = Some (JBool (fr_required_ready fr))"
  "map_of (to_dict fr) ''delivered_types'' = Some (JArr (map JStr (fr_delivered fr)))"
  "map_of (to_dict fr) ''requirement_caveats'' = Some (JArr (fr_caveats fr))"
  "map_of (to_dict fr) ''engine_ladder'' = Some (JObj (fr_engine_ladder fr))"
  "map_of (to_dict fr) ''repair_lineage'' = Some (JObj (fr_repair_lineage fr))"
  "map_of (to_dict fr) ''optional_warnings'' = Some (JArr (map JStr (fr_warnings fr)))"
  "map_of (to_dict fr) ''missing_outputs'' = Some (JArr (map JStr (fr_missing fr)))"
  "map_of (to_dict fr) ''finalized_at'' = Some (JStr (fr_finalized_at fr))"
  "map_of (to_dict fr) ''failure_cause'' = Some (JStr (fr_cause fr))"
  "map_of (to_dict fr) ''failure_detail'' = Some (JStr (fr_detail fr))"
  "map_of (to_dict fr) ''failure_next_step'' = Some (JStr (fr_next_step fr))"
  "map_of (to_dict fr) ''retry_skipped'' = Some (JBool (fr_retry_skipped fr))"
  "map_of (to_dict fr) ''review_parked'' = Some (JNum (fr_review_parked fr))"
  "map_of (to_dict fr) ''review_left'' = Some (JObj (fr_review_left fr))"
  "map_of (to_dict fr) ''review_truncated'' = Some (JNum (fr_truncated fr))"
  "map_of (to_dict fr) ''notes_remarks'' = Some (JArr (map JStr (fr_remarks fr)))"
  by (simp_all add: to_dict_def)

lemma and_then_Inr: "and_then x f = Inr y \<longleftrightarrow> (\<exists>a. x = Inr a \<and> f a = Inr y)"
  by (cases x) simp_all

lemma read_strs_stored [simp]: "map_of d k = Some (JArr (map JStr xs)) \<Longrightarrow> read_strs d k = Inr xs"
  by (simp add: read_strs_def got_def)

lemma read_str_stored [simp]: "map_of d k = Some (JStr x) \<Longrightarrow> read_str d k = Inr x"
  by (simp add: read_str_def got_def)

lemma read_text_stored [simp]: "map_of d k = Some (JStr x) \<Longrightarrow> read_text d k = Inr x"
  by (simp add: read_text_def got_def Let_def)

lemma read_int_stored [simp]: "map_of d k = Some (JNum n) \<Longrightarrow> read_int d k = Inr n"
  by (simp add: read_int_def got_def)

lemma read_count_stored [simp]: "map_of d k = Some (JNum n) \<Longrightarrow> read_count d k = Inr n"
  by (simp add: read_count_def got_def Let_def)

lemma read_bool_stored [simp]: "map_of d k = Some (JBool b) \<Longrightarrow> read_bool d k = b"
  by (simp add: read_bool_def got_def)

lemma read_dict_stored [simp]: "map_of d k = Some (JObj m) \<Longrightarrow> read_dict d k = m"
  by (simp add: read_dict_def got_def)

lemma read_objs_stored [simp]: "map_of d k = Some (JArr js) \<Longrightarrow> read_objs d k = Inr js"
  by (simp add: read_objs_def got_def Let_def)

lemma read_opt_str_stored [simp]: "map_of d k = Some (optional_json JStr x) \<Longrightarrow> read_opt_str d k = Inr x"
  by (cases x) (simp_all add: read_opt_str_def got_def)

lemma read_opt_bool_stored [simp]: "map_of d k = Some (optional_json JBool x) \<Longrightarrow> read_opt_bool d k = Inr x"
  by (cases x) (simp_all add: read_opt_bool_def got_def)

lemma read_verdict_stored [simp]: "read_verdict (to_dict fr) = Inr (fr_verdict fr)"
  by (cases "fr_verdict fr") (simp_all add: read_verdict_def got_def read_enum_def)

lemma read_remarks_stored:
  "\<forall>r \<in> set (fr_remarks fr). strip r \<noteq> [] \<Longrightarrow> read_remarks (to_dict fr) = Inr (fr_remarks fr)"
  by (simp add: read_remarks_def got_def Let_def filter_id_conv)

lemma rebuilt_field:
  "(case constructed x of Inl msg \<Rightarrow> Inl e | Inr y \<Rightarrow> Inr y) = Inr fr \<Longrightarrow> f fr = f x"
  by (simp add: constructed_def split: if_splits)

lemma rebuilt_consistent:
  "(case constructed x of Inl msg \<Rightarrow> Inl e | Inr y \<Rightarrow> Inr y) = Inr fr
     \<Longrightarrow> (fr_verdict fr \<noteq> None) = (fr_execution fr = RE_completed)"
  by (auto simp: constructed_def split: if_splits)

lemma read_version_readable: "read_version d = Inr v \<Longrightarrow> v \<in> set READABLE_VERSIONS"
  by (auto simp: read_version_def split: option.splits json.splits if_splits)

text \<open>
  C18: a run's record survives being stored. What was written is read back as it was - the verdict, the
  review's state, the caveats and the nested records included - for every record the constructor
  accepts at a readable version whose remarks are not blank; and nothing is ever read back as a
  record whose verdict does not fit the review's state, or at a version the reader does not know.
\<close>

theorem record_round_trip:
  "(fr_schema_version fr \<in> set READABLE_VERSIONS \<longrightarrow> constructed fr = Inr fr \<longrightarrow>
      (\<forall>r \<in> set (fr_remarks fr). strip r \<noteq> []) \<longrightarrow> from_dict (to_dict fr) = Inr fr)
   \<and> (from_dict d = Inr fr \<longrightarrow>
        fr_schema_version fr \<in> set READABLE_VERSIONS \<and> (fr_verdict fr \<noteq> None) = (fr_execution fr = RE_completed))"
proof (intro conjI impI)
  assume v: "fr_schema_version fr \<in> set READABLE_VERSIONS" and c: "constructed fr = Inr fr"
    and r: "\<forall>r \<in> set (fr_remarks fr). strip r \<noteq> []"
  have version: "read_version (to_dict fr) = Inr (fr_schema_version fr)"
    using v by (simp add: read_version_def)
  have status: "read_status (to_dict fr) = Inr (fr_status fr)"
    by (simp add: read_status_def read_enum_def)
  have execution: "read_enum execution_of ''review_execution'' (got (to_dict fr) ''review_execution'' (JStr ''not_reached''))
      = Inr (fr_execution fr)"
    by (simp add: read_enum_def got_def)
  have same: "\<lparr>fr_schema_version = fr_schema_version fr, fr_job_id = fr_job_id fr, fr_owner_id =
      fr_owner_id fr, fr_status = fr_status fr, fr_engine = fr_engine fr, fr_purpose = fr_purpose fr,
      fr_dimensionality = fr_dimensionality fr, fr_requested_fidelity = fr_requested_fidelity fr,
      fr_effective_fidelity = fr_effective_fidelity fr, fr_fidelity_source = fr_fidelity_source fr,
      fr_fidelity_policy = fr_fidelity_policy fr, fr_snapshot_id = fr_snapshot_id fr,
      fr_executor_success = fr_executor_success fr, fr_verdict = fr_verdict fr, fr_execution =
      fr_execution fr, fr_failed_gate = fr_failed_gate fr, fr_patch_ok = fr_patch_ok fr,
      fr_outcome_code = fr_outcome_code fr, fr_category = fr_category fr, fr_attempts = fr_attempts
      fr, fr_attempts_max = fr_attempts_max fr, fr_required_ready = fr_required_ready fr,
      fr_delivered = fr_delivered fr, fr_caveats = fr_caveats fr, fr_engine_ladder = fr_engine_ladder
      fr, fr_repair_lineage = fr_repair_lineage fr, fr_warnings = fr_warnings fr, fr_missing =
      fr_missing fr, fr_finalized_at = fr_finalized_at fr, fr_cause = fr_cause fr, fr_detail =
      fr_detail fr, fr_next_step = fr_next_step fr, fr_retry_skipped = fr_retry_skipped fr,
      fr_review_parked = fr_review_parked fr, fr_review_left = fr_review_left fr, fr_truncated =
      fr_truncated fr, fr_remarks = fr_remarks fr\<rparr> = fr"
    by simp
  show "from_dict (to_dict fr) = Inr fr"
    apply (simp add: from_dict_def version status execution read_remarks_stored [OF r] read_required_def)
    apply (subst same)
    apply (simp add: c)
    done
next
  assume "from_dict d = Inr fr"
  then show "fr_schema_version fr \<in> set READABLE_VERSIONS"
    unfolding from_dict_def and_then_Inr
    by (elim exE conjE) (drule rebuilt_field [where f = fr_schema_version], simp add: read_version_readable)
next
  assume "from_dict d = Inr fr"
  then show "(fr_verdict fr \<noteq> None) = (fr_execution fr = RE_completed)"
    unfolding from_dict_def and_then_Inr
    by (elim exE conjE) (drule rebuilt_consistent, assumption)
qed

definition demo_record :: "json FinalResult" where
  "demo_record = \<lparr>fr_schema_version = 5, fr_job_id = ''j1'', fr_owner_id = ''o1'',
     fr_status = TS_succeeded, fr_engine = ''snappy'', fr_purpose = ''external_cfd'',
     fr_dimensionality = ''3d'', fr_requested_fidelity = None, fr_effective_fidelity = ''standard'',
     fr_fidelity_source = ''default'', fr_fidelity_policy = [], fr_snapshot_id = ''s1'',
     fr_executor_success = True, fr_verdict = Some RV_failed, fr_execution = RE_completed,
     fr_failed_gate = [], fr_patch_ok = Some True, fr_outcome_code = ''success'', fr_category = None,
     fr_attempts = 2, fr_attempts_max = 3, fr_required_ready = True,
     fr_delivered = [''mesh_bundle'', ''viewer_data''],
     fr_caveats = [JObj [(''kind'', JStr ''review_concerns''), (''items'', JArr [])]],
     fr_engine_ladder = [(''approved'', JStr ''snappy'')], fr_repair_lineage = [], fr_warnings = [''mesh''],
     fr_missing = [], fr_finalized_at = ''t'', fr_cause = [], fr_detail = [], fr_next_step = [],
     fr_retry_skipped = False, fr_review_parked = 0, fr_review_left = [], fr_truncated = 0,
     fr_remarks = [''kept the wake'']\<rparr>"

theorem record_round_trip_witness: "from_dict (to_dict demo_record) = Inr demo_record"
proof -
  have "fr_schema_version demo_record \<in> set READABLE_VERSIONS" "constructed demo_record = Inr demo_record"
    by (simp_all add: demo_record_def constructed_def READABLE_VERSIONS_def)
  moreover have "\<forall>r \<in> set (fr_remarks demo_record). strip r \<noteq> []" by code_simp
  ultimately show ?thesis using record_round_trip [of demo_record] by blast
qed

end
