(* ===== verification/TerminalRecord.thy ===== *)
theory TerminalRecord
  imports ResultBuild
begin

text \<open>
  The end of a run, from the graph's final state to the record (\<open>application/pipeline_run.py\<close>,
  \<open>build_terminal_result\<close> of \<open>application/terminal_finalize.py\<close>): the status is derived, the caveats are
  authored by the same predicates that granted it, a delivery that failed downgrades it, and the
  record is built. What the artifact store, the repair review and the clock answered is given.
\<close>

section \<open>The assembly\<close>

record run_end =
  re_delivery :: "(bool \<times> FailedReason option) option"
  re_park :: bool
  re_timed_out :: bool
  re_delivered_types :: "string list"
  re_attempts_made :: "int option"
  re_attempts_max :: int
  re_admission :: admission_facts
  re_sentences :: "string \<times> string"
  re_message :: string
  re_job :: string
  re_owner :: string
  re_dimensionality :: string
  re_snapshot_id :: string
  re_requested_fidelity :: "string option"
  re_effective_fidelity :: string
  re_fidelity_source :: string
  re_fidelity_policy :: string
  re_now :: string

fun caveat_list :: "delivery_caveat option list \<Rightarrow> delivery_caveat list" where
  "caveat_list [] = []"
| "caveat_list (None # cs) = caveat_list cs"
| "caveat_list (Some c # cs) = c # caveat_list cs"

lemma set_caveat_list [simp]: "c \<in> set (caveat_list cs) \<longleftrightarrow> Some c \<in> set cs"
  by (induction cs rule: caveat_list.induct) auto

definition terminal_caveats :: "settings \<Rightarrow> RunOutcome \<Rightarrow> delivery_caveat list" where
  "terminal_caveats cfg out =
     map NearMiss (o_caveats out)
     @ caveat_list [review_concerns_caveat cfg out, review_inconclusive_caveat out,
         narrow_passage_caveat out, physical_scale_caveat out, measured_verdict_caveat cfg out,
         reviewer_notes_caveat cfg out]"

definition run_decision :: "settings \<Rightarrow> RunOutcome \<Rightarrow> run_end \<Rightarrow> StatusDecision" where
  "run_decision cfg out e =
     (let d = derive_terminal_status cfg out in
      if d_status d = JS_succeeded then apply_delivery d (re_delivery e) else d)"

definition run_status :: "settings \<Rightarrow> RunOutcome \<Rightarrow> run_end \<Rightarrow> JobStatus" where
  "run_status cfg out e =
     (if re_park e then JS_pending_review else d_status (run_decision cfg out e))"

definition terminal_input :: "settings \<Rightarrow> RunOutcome \<Rightarrow> pstate \<Rightarrow> run_end \<Rightarrow> build_input" where
  "terminal_input cfg out st e =
     (let limits = d_limits_failed (derive_terminal_status cfg out);
          ready = required_ready (engine st) (re_delivered_types e) (o_purpose out) in
      \<lparr>b_job = re_job e, b_owner = re_owner e,
       b_status = (if run_status cfg out e = JS_succeeded then TS_succeeded else TS_failed),
       b_engine = engine st, b_purpose = o_purpose out, b_dimensionality = re_dimensionality e,
       b_snapshot_id = re_snapshot_id e, b_requested_fidelity = re_requested_fidelity e,
       b_effective_fidelity = re_effective_fidelity e, b_fidelity_source = re_fidelity_source e,
       b_fidelity_policy = re_fidelity_policy e, b_success = executor_success st,
       b_verdict = recorded_review_verdict cfg out,
       b_failed_gate = (if limits \<noteq> [] then ''measured_limits'' else executor_failed_gate st),
       b_api_failure = o_api_failure out, b_attempts = int (retry_count st),
       b_attempts_made = re_attempts_made e, b_attempts_max = re_attempts_max e,
       b_required_ready = ready, b_delivered = re_delivered_types e,
       b_warnings = (if ready then optional_warnings (re_delivered_types e) else []),
       b_timed_out = re_timed_out e, b_caveats = terminal_caveats cfg out,
       b_failure_cause = (if limits \<noteq> [] then ''mesh_quality'' else executor_failure_cause st),
       b_failure_facts = (if limits \<noteq> [] then no_facts else executor_failure_facts st),
       b_admission = re_admission e, b_blocking = review_blocking cfg out, b_now = re_now e,
       b_sentences = re_sentences e\<rparr>)"

definition terminal_result ::
  "settings \<Rightarrow> run_facts \<Rightarrow> pstate \<Rightarrow> run_end \<Rightarrow> string + delivery_caveat FinalResult"
where
  "terminal_result cfg rf st e =
     build_final_result (terminal_input cfg (from_graph_state rf st) st e)"

text \<open>Whether the run closes with the failure handler's own note instead of the rendered account.\<close>

definition closes_with_note :: "build_input \<Rightarrow> run_end \<Rightarrow> delivery_caveat FinalResult \<Rightarrow> bool" where
  "closes_with_note b e fr =
     (b_api_failure b \<noteq> [] \<and> re_message e \<noteq> [] \<and> fr_detail fr = [] \<and> fr_status fr \<noteq> TS_succeeded)"

text \<open>The one word the console shows of a finished run's review.\<close>

datatype review_word = Passed_review | Passed_with_notes | With_concerns | Inconclusive | Wrong_problem

definition review_outcome_of :: "delivery_caveat FinalResult \<Rightarrow> review_word option" where
  "review_outcome_of fr =
     (let kinds = map caveat_kind (fr_caveats fr);
          measured = find (\<lambda>c. caveat_kind c = ''measured_verdict'') (fr_caveats fr)
      in if measured \<noteq> None \<and> fr_status fr = TS_succeeded
         then Some (case the measured of MeasuredVerdict OUTCOME_CONCERNS r rows \<Rightarrow> Passed_with_notes
                    | _ \<Rightarrow> Passed_review)
         else if fr_status fr = TS_succeeded
         then if ''review_inconclusive'' \<in> set kinds then Some Inconclusive
              else if fr_verdict fr = Some RV_failed \<or> ''review_concerns'' \<in> set kinds then Some With_concerns
              else if fr_verdict fr = Some RV_passed then Some Passed_review
              else None
         else if fr_category fr = Some (FailureCategory_value FC_review_rejected) then Some Wrong_problem
         else None)"

section \<open>What the parts guarantee\<close>

lemma inconclusive_kind:
  "review_inconclusive_caveat out = Some c \<Longrightarrow> caveat_kind c = ''review_inconclusive''"
  by (auto simp: review_inconclusive_caveat_def Let_def split: if_splits)

lemma concerns_kind: "review_concerns_caveat cfg out = Some c \<Longrightarrow> caveat_kind c = ''review_concerns''"
  by (auto simp: review_concerns_caveat_def split: if_splits)

lemma measured_kind: "measured_verdict_caveat cfg out = Some c \<Longrightarrow> caveat_kind c = ''measured_verdict''"
  by (auto simp: measured_verdict_caveat_def Let_def split: if_splits)

lemma review_state_consistent: "(snd (review_state b) \<noteq> None) = (fst (review_state b) = RE_completed)"
  by (simp add: review_state_def Let_def)

lemma constructed_base [simp]:
  assumes "fr_verdict fr = snd (review_state b)" "fr_execution fr = fst (review_state b)"
  shows "constructed fr = Inr fr"
  using assms review_state_consistent [of b] by (simp add: constructed_def)

text \<open>A verdict retained from an earlier attempt is never reported as this run's.\<close>

lemma reported_verdict_is_this_runs:
  assumes "snd (review_state b) = Some v"
  shows "b_api_failure b = [] \<and> b_failed_gate b = [] \<and> b_success b
     \<and> map upper_char (strip (b_verdict b)) = (if v = RV_failed then ''FAIL'' else ''PASS'')"
  using assms by (auto simp: review_state_def Let_def split: if_splits)

lemma derived_reason: "d_status (derive_terminal_status cfg out) = JS_succeeded
    \<longleftrightarrow> derive_terminal_status cfg out = decided_success"
  by (simp add: derive_terminal_status_def decided_success_def decided_failure_def)

lemma success_means_validated:
  assumes "derive_terminal_status cfg out = decided_success"
  shows "o_success out"
  using assms
  by (auto simp: derive_terminal_status_def decided_success_def decided_failure_def limits_apply_def
      review_concerns_caveat_def review_inconclusive_caveat_def concluded_on_valid_mesh_def Let_def
      split: if_splits)

text \<open>The caveat that makes a success beside an unconcluded, or a failed, review lawful.\<close>

lemma success_with_api_failure:
  assumes "derive_terminal_status cfg out = decided_success" "o_api_failure out \<noteq> []"
  shows "review_inconclusive_caveat out \<noteq> None"
  using assms
  by (auto simp: derive_terminal_status_def decided_success_def decided_failure_def limits_apply_def
      review_concerns_caveat_def concluded_on_valid_mesh_def split: if_splits)

lemma success_with_failed_review:
  assumes s: "derive_terminal_status cfg out = decided_success"
    and v: "recorded_review_verdict cfg out \<noteq> ''PASS''" and a: "o_api_failure out = []"
  shows "review_concerns_caveat cfg out \<noteq> None \<or> measured_verdict_caveat cfg out \<noteq> None"
proof (cases "limits_decide_for cfg out \<and> limits_apply out")
  case True
  then show ?thesis using s
    by (auto simp: derive_terminal_status_def measured_verdict_caveat_def decided_success_def
        decided_failure_def Let_def split: if_splits)
next
  case False
  with s a have "(o_verdict out = ''PASS'' \<and> o_success out) \<or> review_concerns_caveat cfg out \<noteq> None"
    by (auto simp: derive_terminal_status_def decided_success_def decided_failure_def split: if_splits)
  moreover have "recorded_review_verdict cfg out = ''PASS''" if "o_verdict out = ''PASS''"
    using that by (simp add: recorded_review_verdict_def)
  ultimately show ?thesis using v by auto
qed

lemma run_succeeds_iff:
  "run_status cfg out e = JS_succeeded \<longleftrightarrow>
     derive_terminal_status cfg out = decided_success \<and> \<not> re_park e \<and> (\<forall>d. re_delivery e = Some d \<longrightarrow> fst d)"
proof (cases "derive_terminal_status cfg out = decided_success")
  case True
  then show ?thesis
    by (cases "re_delivery e") (auto simp: run_status_def run_decision_def apply_delivery_def decided_success_def
        split: if_splits)
next
  case False
  then have "d_status (derive_terminal_status cfg out) \<noteq> JS_succeeded" by (simp add: derived_reason)
  with False show ?thesis by (simp add: run_status_def run_decision_def)
qed

lemma terminal_input_status:
  "b_status (terminal_input cfg out st e) = TS_succeeded \<longleftrightarrow>
     derive_terminal_status cfg out = decided_success \<and> \<not> re_park e \<and> (\<forall>d. re_delivery e = Some d \<longrightarrow> fst d)"
proof -
  have "b_status (terminal_input cfg out st e) = TS_succeeded \<longleftrightarrow> run_status cfg out e = JS_succeeded"
    by (simp add: terminal_input_def Let_def)
  then show ?thesis by (simp only: run_succeeds_iff)
qed

lemma terminal_input_fields [simp]:
  "b_api_failure (terminal_input cfg out st e) = o_api_failure out"
  "b_verdict (terminal_input cfg out st e) = recorded_review_verdict cfg out"
  "b_caveats (terminal_input cfg out st e) = terminal_caveats cfg out"
  "b_success (terminal_input cfg out st e) = executor_success st"
  by (simp_all add: terminal_input_def Let_def)

lemma terminal_gate:
  "b_failed_gate (terminal_input cfg out st e) = [] \<Longrightarrow> executor_failed_gate st = []"
  by (simp add: terminal_input_def Let_def split: if_splits)

lemma authored_caveats:
  "review_concerns_caveat cfg out = Some c \<Longrightarrow> c \<in> set (terminal_caveats cfg out)"
  "review_inconclusive_caveat out = Some c \<Longrightarrow> c \<in> set (terminal_caveats cfg out)"
  "measured_verdict_caveat cfg out = Some c \<Longrightarrow> c \<in> set (terminal_caveats cfg out)"
  by (simp_all add: terminal_caveats_def)

lemma carried_kinds:
  assumes "c \<in> set (terminal_caveats cfg out)" "\<forall>k \<in> set (o_caveats out). c_kind k \<noteq> caveat_kind c"
  shows "Some c \<in> {review_concerns_caveat cfg out, review_inconclusive_caveat out,
         narrow_passage_caveat out, physical_scale_caveat out, measured_verdict_caveat cfg out,
         reviewer_notes_caveat cfg out}"
  using assms by (auto simp: terminal_caveats_def)

text \<open>The builder's two refusals are never met: the status and the caveats come from one predicate.\<close>

lemma terminal_success_built:
  assumes st: "b_status (terminal_input cfg out st e) = TS_succeeded"
  shows "build_success (terminal_input cfg out st e) = Inr ((base_result (terminal_input cfg out st e))
        \<lparr>fr_caveats := terminal_caveats cfg out, fr_executor_success := True, fr_failed_gate := [],
         fr_patch_ok := Some True, fr_outcome_code := ''success'',
         fr_required_ready := b_required_ready (terminal_input cfg out st e),
         fr_delivered := b_delivered (terminal_input cfg out st e), fr_missing := []\<rparr>)"
proof -
  let ?b = "terminal_input cfg out st e"
  have ok: "derive_terminal_status cfg out = decided_success"
    using st by (simp add: terminal_input_status)
  have concerned: "list_ex (\<lambda>c. caveat_kind c \<in> set CONCERN_KINDS) (terminal_caveats cfg out)"
    if "snd (review_state ?b) = Some RV_failed"
  proof -
    have v: "map upper_char (strip (recorded_review_verdict cfg out)) = ''FAIL''" and a: "o_api_failure out = []"
      using reported_verdict_is_this_runs [OF that] by simp_all
    have "map upper_char (strip ''PASS'') = ''PASS''" by code_simp
    with v have "recorded_review_verdict cfg out \<noteq> ''PASS''" by auto
    from success_with_failed_review [OF ok this a] show ?thesis
      using concerns_kind measured_kind authored_caveats
      by (fastforce simp: list_ex_iff CONCERN_KINDS_def)
  qed
  have stopped: "list_ex (\<lambda>c. caveat_kind c = ''review_inconclusive'') (terminal_caveats cfg out)"
    if "fst (review_state ?b) = RE_failed_to_complete"
  proof -
    have "o_api_failure out \<noteq> []"
      using that by (auto simp: review_state_def Let_def split: if_splits)
    from success_with_api_failure [OF ok this] show ?thesis
      using inconclusive_kind authored_caveats by (fastforce simp: list_ex_iff)
  qed
  show ?thesis
    using concerned stopped by (auto simp: build_success_def base_result_def)
qed

lemma build_failure_built: "\<exists>fr. build_failure b = Inr fr \<and> fr_status fr = b_status b
   \<and> fr_verdict fr = snd (review_state b) \<and> fr_execution fr = fst (review_state b)
   \<and> fr_category fr = Some (FailureCategory_value (fst (failure_account b)))"
  by (auto simp: build_failure_def base_result_def split: prod.split)

text \<open>
  C6: every finished run gets a record, and it says what happened. Whatever the graph ended with, and
  whatever the store and the clock answered, the record is built - the builder's refusals of a
  contradictory success are never met, because the status and the caveats are granted by the same
  predicates. It says succeeded exactly when the status derived, the delivery did not fail and the
  run was not parked; then the executor validated the mesh, a review that failed it stands beside a
  caveat that says so, and a review that did not finish beside one that says that. A verdict is
  reported only of a review this run concluded on a mesh no gate refused.
\<close>

theorem every_run_recorded:
  "\<exists>fr. terminal_result cfg rf st e = Inr fr
     \<and> (fr_status fr = TS_succeeded \<longleftrightarrow>
          derive_terminal_status cfg (from_graph_state rf st) = decided_success \<and> \<not> re_park e
          \<and> (\<forall>d. re_delivery e = Some d \<longrightarrow> fst d))
     \<and> (fr_status fr = TS_succeeded \<longrightarrow>
          executor_success st \<and> fr_category fr = None
          \<and> (fr_verdict fr = Some RV_failed \<longrightarrow>
               (\<exists>c \<in> set (fr_caveats fr). caveat_kind c \<in> {''layer_coverage'', ''review_concerns'', ''measured_verdict''}))
          \<and> (fr_execution fr = RE_failed_to_complete \<longrightarrow>
               (\<exists>c \<in> set (fr_caveats fr). caveat_kind c = ''review_inconclusive'')))
     \<and> (fr_status fr \<noteq> TS_succeeded \<longrightarrow> fr_status fr = TS_failed \<and> fr_category fr \<noteq> None)
     \<and> (fr_verdict fr \<noteq> None \<longrightarrow>
          fr_execution fr = RE_completed \<and> unwrapped (api_failure st) = [] \<and> executor_success st
          \<and> executor_failed_gate st = [])"
proof -
  let ?out = "from_graph_state rf st"
  let ?b = "terminal_input cfg ?out st e"
  note status = terminal_input_status [of cfg ?out st e]
  have verdict: "unwrapped (api_failure st) = [] \<and> executor_success st \<and> executor_failed_gate st = []"
    if "snd (review_state ?b) = Some v" for v
  proof -
    have g: "b_failed_gate ?b = []" and a: "o_api_failure ?out = []" "executor_success st"
      using reported_verdict_is_this_runs [OF that] by simp_all
    from g have "executor_failed_gate st = []" by (rule terminal_gate)
    with a show ?thesis by (simp add: from_graph_state_def)
  qed
  show ?thesis
  proof (cases "b_status ?b = TS_succeeded")
    case True
    define fr where "fr = (base_result ?b)
        \<lparr>fr_caveats := terminal_caveats cfg ?out, fr_executor_success := True, fr_failed_gate := [],
         fr_patch_ok := Some True, fr_outcome_code := ''success'',
         fr_required_ready := b_required_ready ?b, fr_delivered := b_delivered ?b, fr_missing := []\<rparr>"
    have built: "build_success ?b = Inr fr"
      using terminal_success_built [OF True] by (simp add: fr_def)
    have f: "fr_status fr = TS_succeeded" "fr_category fr = None" "fr_caveats fr = b_caveats ?b"
        "fr_verdict fr = snd (review_state ?b)" "fr_execution fr = fst (review_state ?b)"
      using True by (simp_all add: fr_def base_result_def)
    have ok: "derive_terminal_status cfg ?out = decided_success" using status True by simp
    then have "executor_success st" using success_means_validated by (fastforce simp: from_graph_state_def)
    moreover have "\<exists>c \<in> set (fr_caveats fr). caveat_kind c \<in> {''layer_coverage'', ''review_concerns'', ''measured_verdict''}"
      if "fr_verdict fr = Some RV_failed"
      using built that f(3,4) by (auto simp: build_success_def list_ex_iff CONCERN_KINDS_def split: if_splits)
    moreover have "\<exists>c \<in> set (fr_caveats fr). caveat_kind c = ''review_inconclusive''"
      if "fr_execution fr = RE_failed_to_complete"
      using built that f(3,5) by (auto simp: build_success_def list_ex_iff split: if_splits)
    moreover have "terminal_result cfg rf st e = Inr fr"
      using built True by (simp add: terminal_result_def build_final_result_def)
    ultimately show ?thesis
      using f status True verdict review_state_consistent [of ?b] by auto
  next
    case False
    then have failed: "b_status ?b = TS_failed" by (simp add: terminal_input_def Let_def split: if_splits)
    from build_failure_built [of ?b] obtain fr where fr: "build_failure ?b = Inr fr" "fr_status fr = b_status ?b"
        "fr_verdict fr = snd (review_state ?b)" "fr_execution fr = fst (review_state ?b)" "fr_category fr \<noteq> None"
      by auto
    then have "terminal_result cfg rf st e = Inr fr"
      using False by (simp add: terminal_result_def build_final_result_def)
    then show ?thesis
      using fr failed status verdict review_state_consistent [of ?b] by auto
  qed
qed

definition demo_facts :: run_facts where
  "demo_facts = \<lparr>rf_catalogue = [], rf_request = \<lparr>q_flow = ''external'', q_layers = False,
     q_no_layers = False, q_no_wake = False, q_draft = False\<rparr>, rf_purpose = ''external_cfd'',
     rf_topology = ''external'', rf_manifest = Some demo_manifest, rf_size_implausible = False\<rparr>"

definition end_settings :: "bool \<Rightarrow> settings" where
  "end_settings by_limits = \<lparr>MAX_BUILDER_RETRIES = 1, BUILDER_INFRA_RETRY_MAX = 2,
     REVIEWER_RERUN_MAX = 2, VERDICT_BY_LIMITS = by_limits, ENGINE_FALLBACK_ENABLED = True,
     CELL_HARD_LIMIT = 100\<rparr>"

definition demo_end :: run_end where
  "demo_end = \<lparr>re_delivery = Some (True, None), re_park = False, re_timed_out = False,
     re_delivered_types = [''mesh_bundle'', ''viewer_data''], re_attempts_made = Some 2,
     re_attempts_max = 3, re_admission = \<lparr>af_phases = [], af_reason = [], af_declared_reason = [],
       af_by_design = False\<rparr>, re_sentences = ([], []), re_message = [], re_job = ''j'', re_owner = ''o'',
     re_dimensionality = ''3d'', re_snapshot_id = [], re_requested_fidelity = None,
     re_effective_fidelity = ''standard'', re_fidelity_source = ''default'', re_fidelity_policy = [],
     re_now = ''t''\<rparr>"

text \<open>A run delivered with the reviewer's open point listed.\<close>

definition demo_reviewed :: pstate where
  "demo_reviewed = (initial_state ''snappy'' ''system'' None)
     \<lparr>retry_count := 2, executor_success := True, reviewer_verdict := ''FAIL'',
      reviewer_axis_findings := [\<lparr>axis_key = ''wake'', f_passed = Some False, f_improve = Some False,
        f_blocking = []\<rparr>]\<rparr>"

theorem every_run_recorded_witness:
  "\<exists>fr. terminal_result (end_settings False) demo_facts demo_reviewed demo_end = Inr fr
     \<and> fr_status fr = TS_succeeded
     \<and> (fr_verdict fr = Some RV_failed \<longrightarrow>
          (\<exists>c \<in> set (fr_caveats fr). caveat_kind c \<in> {''layer_coverage'', ''review_concerns'', ''measured_verdict''}))"
proof -
  have "derive_terminal_status (end_settings False) (from_graph_state demo_facts demo_reviewed) = decided_success"
    by code_simp
  with every_run_recorded [of "end_settings False" demo_facts demo_reviewed demo_end] show ?thesis
    by (auto simp: demo_end_def)
qed

section \<open>What a failure is told as\<close>

lemma review_state_cases:
  "review_state b =
     (if b_api_failure b \<noteq> [] \<and> (starts_with ''reviewer_'' (result_marker (b_api_failure b))
            \<or> map upper_char (strip (b_verdict b)) \<in> {''PASS'', ''FAIL''})
      then (RE_failed_to_complete, None)
      else if b_failed_gate b \<noteq> [] \<or> \<not> b_success b then (RE_not_reached, None)
      else if map upper_char (strip (b_verdict b)) = ''FAIL'' then (RE_completed, Some RV_failed)
      else if map upper_char (strip (b_verdict b)) = ''PASS'' then (RE_completed, Some RV_passed)
      else (RE_not_reached, None))"
  by (auto simp: review_state_def Let_def)

lemma account_category:
  "fst (failure_account b) =
     (let cat = derive_failure_category (b_success b) (snd (review_state b)) (fst (review_state b))
                  (b_failed_gate b) (b_api_failure b) (b_required_ready b) (b_attempts b)
                  (b_attempts_max b) (b_timed_out b)
      in if cat = FC_input_rejected then fst (admission_account (b_admission b)) else cat)"
  by (simp add: failure_account_def Let_def split: prod.split)

lemma admission_categories:
  "fst (admission_account f) \<in> {FC_incompatible_requirements, FC_input_rejected}"
  by (simp add: admission_account_def Let_def)


section \<open>When the limits decide\<close>

lemma verdict_ignores_notes:
  "verdict (inputs_for e t m valid gate layers near sizes notes)
     = verdict (inputs_for e t m valid gate layers near sizes notes')"
  by (simp add: verdict_def inputs_for_def failed_gating_def missed_limits_def)




section \<open>The one word about the review\<close>

lemma find_unique:
  assumes "x \<in> set xs" "P x" "\<And>y. y \<in> set xs \<Longrightarrow> P y \<Longrightarrow> y = x"
  shows "find P xs = Some x"
proof (cases "find P xs")
  case None
  with assms(1,2) show ?thesis by (simp add: find_None_iff)
next
  case (Some y)
  then have "y \<in> set xs" "P y" by (auto simp: find_Some_iff)
  from assms(3) [OF this] Some show ?thesis by simp
qed

lemma measured_shape:
  "measured_verdict_caveat cfg out = Some c \<Longrightarrow>
     \<exists>rows. c = MeasuredVerdict (fst (measured_verdict out)) (snd (measured_verdict out)) rows
       \<and> fst (measured_verdict out) \<in> {OUTCOME_CLEAN, OUTCOME_CONCERNS}"
  by (auto simp: measured_verdict_caveat_def delivers_def Let_def split: if_splits)

lemma other_kinds:
  "narrow_passage_caveat out = Some c \<Longrightarrow> caveat_kind c = ''narrow_passages''"
  "physical_scale_caveat out = Some c \<Longrightarrow> caveat_kind c = ''physical_scale''"
  "reviewer_notes_caveat cfg out = Some c \<Longrightarrow> caveat_kind c = ''reviewer_notes''"
  by (auto simp: narrow_passage_caveat_def physical_scale_caveat_def reviewer_notes_caveat_def Let_def
      split: if_splits option.splits)

lemmas authored_kinds = inconclusive_kind concerns_kind measured_kind other_kinds

lemma authored_by:
  assumes "c \<in> set (terminal_caveats cfg out)"
    and "\<forall>k \<in> set (o_caveats out). c_kind k \<notin>
        {''measured_verdict'', ''review_inconclusive'', ''review_concerns''}"
  shows "caveat_kind c = ''measured_verdict'' \<Longrightarrow> measured_verdict_caveat cfg out = Some c"
    and "caveat_kind c = ''review_inconclusive'' \<Longrightarrow> review_inconclusive_caveat out = Some c"
    and "caveat_kind c = ''review_concerns'' \<Longrightarrow> review_concerns_caveat cfg out = Some c"
  using assms authored_kinds by (fastforce simp: terminal_caveats_def)+

lemma only_measured:
  assumes "\<forall>k \<in> set (o_caveats out). c_kind k \<notin>
        {''measured_verdict'', ''review_inconclusive'', ''review_concerns''}"
  shows "\<forall>c \<in> set (terminal_caveats cfg out). caveat_kind c = ''measured_verdict''
      \<longrightarrow> measured_verdict_caveat cfg out = Some c"
  using authored_by(1) [OF _ assms] by blast

lemma marker_of_failure:
  "review_inconclusive_caveat out = Some c \<Longrightarrow>
     o_api_failure out \<noteq> [] \<and> starts_with ''reviewer_'' (result_marker (o_api_failure out))"
  by (auto simp: review_inconclusive_caveat_def result_marker_def strip_def MARKER_OPEN_def Let_def
      split: if_splits)

lemma stopped_review_said:
  assumes "\<forall>k \<in> set (o_caveats out). c_kind k \<notin>
        {''measured_verdict'', ''review_inconclusive'', ''review_concerns''}"
  shows "''review_inconclusive'' \<in> set (map caveat_kind (terminal_caveats cfg out)) \<longleftrightarrow>
     review_inconclusive_caveat out \<noteq> None"
proof
  assume "''review_inconclusive'' \<in> set (map caveat_kind (terminal_caveats cfg out))"
  then obtain c where "c \<in> set (terminal_caveats cfg out)" "caveat_kind c = ''review_inconclusive''" by auto
  from authored_by(2) [OF this(1) assms this(2)] show "review_inconclusive_caveat out \<noteq> None" by simp
next
  assume "review_inconclusive_caveat out \<noteq> None"
  then obtain c where c: "review_inconclusive_caveat out = Some c" by blast
  from authored_caveats(2) [OF c] inconclusive_kind [OF c]
  have "caveat_kind c \<in> caveat_kind ` set (terminal_caveats cfg out)" by blast
  with inconclusive_kind [OF c]
  show "''review_inconclusive'' \<in> set (map caveat_kind (terminal_caveats cfg out))" by simp
qed

lemma stopped_review_state:
  assumes "review_inconclusive_caveat out = Some c"
  shows "fst (review_state (terminal_input cfg out st e)) = RE_failed_to_complete"
  using marker_of_failure [OF assms] by (simp add: review_state_cases)

lemma api_of_stopped: "fst (review_state b) = RE_failed_to_complete \<Longrightarrow> b_api_failure b \<noteq> []"
  by (auto simp: review_state_cases split: if_splits)

lemma concerns_mean_failed:
  assumes "\<forall>k \<in> set (o_caveats out). c_kind k \<notin>
        {''measured_verdict'', ''review_inconclusive'', ''review_concerns''}"
    and "''review_concerns'' \<in> set (map caveat_kind (terminal_caveats cfg out))"
    and "o_success out = executor_success st" "o_failed_gate out = executor_failed_gate st"
    and "d_limits_failed (derive_terminal_status cfg out) = []"
  shows "snd (review_state (terminal_input cfg out st e)) = Some RV_failed"
proof -
  from assms(2) authored_by(3) [OF _ assms(1)] obtain c where "review_concerns_caveat cfg out = Some c" by auto
  then have v: "\<not> limits_decide_for cfg out" "o_verdict out = ''FAIL''" "o_api_failure out = []"
      "o_success out" "o_failed_gate out = []"
    by (auto simp: review_concerns_caveat_def concluded_on_valid_mesh_def split: if_splits)
  have "recorded_review_verdict cfg out = ''FAIL''"
    using v by (simp add: recorded_review_verdict_def)
  moreover have "map upper_char (strip ''FAIL'') = ''FAIL''" by code_simp
  moreover have "b_failed_gate (terminal_input cfg out st e) = []"
    using v(5) assms(4,5) by (simp add: terminal_input_def Let_def)
  ultimately show ?thesis
    using v(3,4) assms(3) by (simp add: review_state_cases)
qed

text \<open>
  The console's word for a review is never better than what happened. A run the limits decided is
  read from the measured verdict alone. Otherwise a delivered run reads as passed only when its review
  concluded PASS on this mesh; a failed review reads as delivered with concerns, an unfinished one as
  inconclusive; and a failed run reads as the wrong problem exactly when the review rejected it.
\<close>

theorem review_word_spec:
  assumes carried: "\<forall>k \<in> set (requirement_caveats st). c_kind k \<notin>
       {''measured_verdict'', ''review_inconclusive'', ''review_concerns''}"
    and fr: "terminal_result cfg rf st e = Inr fr"
    and limits: "measured_verdict_caveat cfg (from_graph_state rf st) = mv"
  shows "review_outcome_of fr =
     (if fr_status fr = TS_succeeded
      then if mv \<noteq> None
           then Some (if fst (measured_verdict (from_graph_state rf st)) = OUTCOME_CLEAN
                      then Passed_review else Passed_with_notes)
           else if fr_execution fr = RE_failed_to_complete then Some Inconclusive
           else if fr_verdict fr = Some RV_failed then Some With_concerns
           else if fr_verdict fr = Some RV_passed then Some Passed_review else None
      else if fr_category fr = Some ''review_rejected'' then Some Wrong_problem else None)"
proof -
  let ?out = "from_graph_state rf st"
  let ?b = "terminal_input cfg ?out st e"
  show ?thesis
  proof (cases "b_status ?b = TS_succeeded")
    case True
    have fr_is: "fr_status fr = TS_succeeded" "fr_caveats fr = terminal_caveats cfg ?out"
        "fr_verdict fr = snd (review_state ?b)" "fr_execution fr = fst (review_state ?b)"
      using fr True terminal_success_built [OF True]
      by (auto simp: terminal_result_def build_final_result_def base_result_def)
    have ok: "derive_terminal_status cfg ?out = decided_success"
      using True by (simp add: terminal_input_status)
    have own: "\<forall>k \<in> set (o_caveats ?out). c_kind k \<notin>
        {''measured_verdict'', ''review_inconclusive'', ''review_concerns''}"
      using carried by (simp add: from_graph_state_def)
    show ?thesis
    proof (cases mv)
      case (Some c)
      with limits have c: "measured_verdict_caveat cfg ?out = Some c" by simp
      have "find (\<lambda>c. caveat_kind c = ''measured_verdict'') (terminal_caveats cfg ?out) = Some c"
      proof (rule find_unique)
        show "c \<in> set (terminal_caveats cfg ?out)" by (rule authored_caveats(3) [OF c])
        show "caveat_kind c = ''measured_verdict''" by (rule measured_kind [OF c])
        fix y assume "y \<in> set (terminal_caveats cfg ?out)" "caveat_kind y = ''measured_verdict''"
        with only_measured [OF own, of cfg] have "measured_verdict_caveat cfg ?out = Some y" by blast
        with c show "y = c" by simp
      qed
      with fr_is Some measured_shape [of cfg ?out c] limits show ?thesis
        by (auto simp: review_outcome_of_def Let_def)
    next
      case None
      with only_measured [OF own] limits
      have "find (\<lambda>c. caveat_kind c = ''measured_verdict'') (terminal_caveats cfg ?out) = None"
        by (auto simp: find_None_iff)
      moreover have "''review_inconclusive'' \<in> set (map caveat_kind (terminal_caveats cfg ?out))
          \<longleftrightarrow> fst (review_state ?b) = RE_failed_to_complete"
        using stopped_review_said [OF own, of cfg] stopped_review_state [of ?out _ cfg st e]
          success_with_api_failure [OF ok] api_of_stopped [of ?b] by auto
      moreover have "''review_concerns'' \<in> set (map caveat_kind (terminal_caveats cfg ?out))
          \<Longrightarrow> snd (review_state ?b) = Some RV_failed"
        using concerns_mean_failed [OF own] ok by (simp add: from_graph_state_def decided_success_def)
      ultimately show ?thesis
        using fr_is None by (auto simp: review_outcome_of_def Let_def)
    qed
  next
    case False
    from fr False have "build_failure ?b = Inr fr"
      by (simp add: terminal_result_def build_final_result_def)
    with build_failure_built [of ?b] False have "fr_status fr \<noteq> TS_succeeded" by auto
    then show ?thesis by (simp add: review_outcome_of_def Let_def)
  qed
qed

theorem review_word_spec_witness:
  "\<exists>fr. terminal_result (end_settings False) demo_facts demo_reviewed demo_end = Inr fr
     \<and> review_outcome_of fr = Some With_concerns"
proof -
  let ?cfg = "end_settings False"
  have s: "\<forall>k \<in> set (requirement_caveats demo_reviewed). c_kind k \<notin>
       {''measured_verdict'', ''review_inconclusive'', ''review_concerns''}"
    and m: "measured_verdict_caveat ?cfg (from_graph_state demo_facts demo_reviewed) = None"
    by code_simp+
  have v: "review_state (terminal_input ?cfg (from_graph_state demo_facts demo_reviewed) demo_reviewed demo_end)
      = (RE_completed, Some RV_failed)"
    and b: "b_status (terminal_input ?cfg (from_graph_state demo_facts demo_reviewed) demo_reviewed demo_end)
      = TS_succeeded"
    by code_simp+
  define fr where "fr = (base_result (terminal_input ?cfg (from_graph_state demo_facts demo_reviewed)
          demo_reviewed demo_end))
        \<lparr>fr_caveats := terminal_caveats ?cfg (from_graph_state demo_facts demo_reviewed),
         fr_executor_success := True, fr_failed_gate := [],
         fr_patch_ok := Some True, fr_outcome_code := ''success'',
         fr_required_ready := b_required_ready (terminal_input ?cfg
           (from_graph_state demo_facts demo_reviewed) demo_reviewed demo_end),
         fr_delivered := b_delivered (terminal_input ?cfg
           (from_graph_state demo_facts demo_reviewed) demo_reviewed demo_end), fr_missing := []\<rparr>"
  have r: "terminal_result ?cfg demo_facts demo_reviewed demo_end = Inr fr"
    using terminal_success_built [OF b] b
    by (simp add: terminal_result_def build_final_result_def fr_def)
  have "fr_status fr = TS_succeeded" "fr_verdict fr = Some RV_failed" "fr_execution fr = RE_completed"
    using b v by (simp_all add: fr_def base_result_def)
  with review_word_spec [OF s r m] r show ?thesis by simp
qed

end
