(* ===== verification/ReviewDelivery.thy ===== *)
theory ReviewDelivery
  imports TerminalRecord
begin

text \<open>
  Which valid mesh a finished run delivers (\<open>application/review_delivery.py\<close>): the candidates, the
  fixed ranking by measured facts, the swap of the final state onto the best one, and the account of
  the choice. A manifest read from an attempt's workspace is given as a function of the workspace;
  the parameters that built the mesh and the account's sentences are left out.
\<close>

section \<open>Candidates\<close>

datatype unmet_requirement = NoPrismLayers | LayersUnmeasured | NoWakeRefinement | ShortOf string

record Candidate =
  cd_attempt :: nat
  cd_engine :: string
  cd_workspace :: string
  cd_manifest :: manifest
  cd_entry :: "review_entry option"
  cd_current :: bool
  cd_failed_checks :: "string list"
  cd_unmet :: "unmet_requirement list"
  cd_non_ortho :: "rat option"
  cd_skewness :: "rat option"
  cd_coverage :: "rat option"
  cd_wrong_problem :: nat
  cd_left_concerns :: bool

definition LAYERS_PRESENT_PCT :: rat where "LAYERS_PRESENT_PCT = 1"

definition quality_rows :: "string \<Rightarrow> manifest \<Rightarrow> (Criterion \<times> judged) list" where
  "quality_rows e m =
     (let rows = evaluate_all e (measurements_from_manifest m) in
      if list_ex (\<lambda>(c, j). j = Raises) rows then []
      else filter (\<lambda>(c, j). cr_key c \<notin> set BUILD_TIME_KEYS) rows)"

definition unmet_of :: "requirement list \<Rightarrow> manifest \<Rightarrow> caveat list \<Rightarrow> unmet_requirement list" where
  "unmet_of reqs m cs =
     concat (map (\<lambda>r. case r of
         REQ_PRISM_LAYERS \<Rightarrow>
           (case finite_num (num_at (mf_quality m) ''layer_coverage_pct'') of
              None \<Rightarrow> [LayersUnmeasured]
            | Some x \<Rightarrow> if x \<le> LAYERS_PRESENT_PCT then [NoPrismLayers] else [])
       | REQ_WAKE \<Rightarrow> if mf_wake m then [] else [NoWakeRefinement]) reqs)
     @ map (\<lambda>c. ShortOf (c_kind c)) cs"

definition measure_candidate ::
  "settings \<Rightarrow> run_facts \<Rightarrow> pstate \<Rightarrow> nat \<Rightarrow> string \<Rightarrow> string \<Rightarrow> manifest \<Rightarrow> review_entry option \<Rightarrow> bool
     \<Rightarrow> finding list \<Rightarrow> caveat list \<Rightarrow> Candidate option"
where
  "measure_candidate cfg rf st attempt e ws m entry current findings cs =
     (if py_true (num_at (mf_quality m) ''fatal'') then None
      else
        let written = (case entry of Some h \<Rightarrow> h_verdict h | None \<Rightarrow> []);
            verdict = (if written \<noteq> [] then written else if current then reviewer_verdict st else [])
        in Some \<lparr>cd_attempt = attempt, cd_engine = e, cd_workspace = ws, cd_manifest = m,
             cd_entry = entry, cd_current = current,
             cd_failed_checks = map (\<lambda>(c, j). cr_key c) (filter (\<lambda>(c, j). j = Missed) (quality_rows e m)),
             cd_unmet = unmet_of (plan_reqs rf st) m cs,
             cd_non_ortho = finite_num (num_at (mf_quality m) ''max_non_ortho''),
             cd_skewness = finite_num (num_at (mf_quality m) ''max_skewness''),
             cd_coverage = finite_num (num_at (mf_quality m) ''layer_coverage_pct''),
             cd_wrong_problem = (if VERDICT_BY_LIMITS cfg then 0 else length (blocking_findings findings)),
             cd_left_concerns = (\<not> VERDICT_BY_LIMITS cfg \<and> map upper_char (strip verdict) = ''FAIL'')\<rparr>)"

definition number_of_bool :: "bool \<Rightarrow> number" where
  "number_of_bool b = Fin (if b then 1 else 0)"

definition or_inf :: "rat option \<Rightarrow> number" where
  "or_inf x = (case x of None \<Rightarrow> PInf | Some r \<Rightarrow> Fin r)"

definition rank_key :: "Candidate \<Rightarrow> rank" where
  "rank_key c =
     [number_of_bool (0 < cd_wrong_problem c),
      number_of_bool (cd_failed_checks c \<noteq> []),
      Fin (of_nat (length (cd_failed_checks c))),
      Fin (of_nat (length (cd_unmet c))),
      or_inf (map_option (\<lambda>x. of_int \<lfloor>x\<rfloor>) (cd_non_ortho c)),
      number_of_bool (cd_left_concerns c),
      or_inf (cd_non_ortho c),
      or_inf (cd_skewness c),
      Fin (- zero_if_none (cd_coverage c)),
      Fin (of_nat (cd_attempt c))]"

definition engine_of :: "manifest \<Rightarrow> string \<Rightarrow> pstate \<Rightarrow> string" where
  "engine_of m written st =
     (if mf_mode m \<noteq> [] then mf_mode m else if written \<noteq> [] then written else engine st)"

definition current_valid :: "pstate \<Rightarrow> bool" where
  "current_valid st =
     (let api = result_marker (api_failure st) in
      executor_success st \<and> executor_failed_gate st = [] \<and> (api = [] \<or> starts_with ''reviewer_'' api))"

definition current_candidate ::
  "settings \<Rightarrow> run_facts \<Rightarrow> (string \<Rightarrow> manifest option) \<Rightarrow> pstate \<Rightarrow> Candidate option"
where
  "current_candidate cfg rf disk st =
     (let here = openfoam_workspace st in
      if \<not> current_valid st \<or> here = [] then None
      else case (case rf_manifest rf of Some m \<Rightarrow> Some m | None \<Rightarrow> disk here) of
        None \<Rightarrow> None
      | Some m \<Rightarrow>
          measure_candidate cfg rf st (retry_count st) (engine_of m [] st) here m
            (find (\<lambda>h. h_workspace h = here) (rev (review_history st))) True
            (reviewer_axis_findings st) (requirement_caveats st))"

fun history_candidates ::
  "settings \<Rightarrow> run_facts \<Rightarrow> (string \<Rightarrow> manifest option) \<Rightarrow> pstate \<Rightarrow> string list \<Rightarrow> review_entry list
     \<Rightarrow> Candidate list"
where
  "history_candidates cfg rf disk st seen [] = []"
| "history_candidates cfg rf disk st seen (h # hs) =
     (if h_verdict h \<notin> {''PASS'', ''FAIL''} \<or> h_workspace h = [] \<or> h_workspace h \<in> set seen
      then history_candidates cfg rf disk st seen hs
      else case disk (h_workspace h) of
        None \<Rightarrow> history_candidates cfg rf disk st seen hs
      | Some m \<Rightarrow>
          (case measure_candidate cfg rf st (h_attempt h) (engine_of m (h_engine h) st) (h_workspace h) m
                  (Some h) False (h_findings h) (h_caveats h) of
             None \<Rightarrow> history_candidates cfg rf disk st seen hs
           | Some c \<Rightarrow> c # history_candidates cfg rf disk st (h_workspace h # seen) hs))"

definition candidates ::
  "settings \<Rightarrow> run_facts \<Rightarrow> (string \<Rightarrow> manifest option) \<Rightarrow> pstate \<Rightarrow> Candidate list"
where
  "candidates cfg rf disk st =
     (case current_candidate cfg rf disk st of
        Some c \<Rightarrow> c # history_candidates cfg rf disk st [cd_workspace c] (review_history st)
      | None \<Rightarrow> history_candidates cfg rf disk st [] (review_history st))"

section \<open>The choice and its account\<close>

record delivery_account =
  da_attempt :: nat
  da_engine :: string
  da_rule :: string
  da_short_of :: "string list \<times> unmet_requirement list"
  da_candidates :: "ranked list"

definition recorded_rank :: "Candidate \<Rightarrow> ranked" where
  "recorded_rank c =
     \<lparr>rk_attempt = int (cd_attempt c), rk_engine = cd_engine c,
      rk_rank = map (\<lambda>x. if x \<in> {PInf, NInf, NaN} then None else Some x) (rank_key c)\<rparr>"

definition deciding :: "Candidate \<Rightarrow> Candidate \<Rightarrow> nat" where
  "deciding best other = or_else (first_difference (rank_key best) (rank_key other)) (length DELIVERY_RULES - 1)"

definition rule_chosen :: "Candidate \<Rightarrow> Candidate \<Rightarrow> string" where
  "rule_chosen best other = DELIVERY_RULES ! deciding best other"

definition best_candidate :: "Candidate list \<Rightarrow> Candidate" where
  "best_candidate pool = arg_min_list rank_key pool"

definition account :: "Candidate list \<Rightarrow> delivery_account" where
  "account pool =
     (let best = best_candidate pool; others = remove1 best pool in
      \<lparr>da_attempt = cd_attempt best, da_engine = cd_engine best,
       da_rule = (if others \<noteq> [] then rule_chosen best (best_candidate others) else DELIVERY_ONLY_ONE),
       da_short_of = (cd_failed_checks best, cd_unmet best),
       da_candidates = map recorded_rank pool\<rparr>)"

definition swapped_state :: "run_facts \<Rightarrow> pstate \<Rightarrow> Candidate \<Rightarrow> review_entry \<Rightarrow> pstate" where
  "swapped_state rf st best h =
     st\<lparr>engine := cd_engine best,
        ladder_record := (with_attempt st (classify (rf_catalogue rf) st))
          \<lparr>l_delivered_from := Some (cd_attempt best)\<rparr>,
        openfoam_workspace := cd_workspace best,
        executor_success := True, executor_failed_gate := [], executor_failure_cause := [],
        executor_failure_facts := no_facts, reviewer_verdict := h_verdict h,
        reviewer_axis_findings := h_findings h, reviewer_rebuild_required := False,
        requirement_caveats := h_caveats h, api_failure := []\<rparr>"

text \<open>The state and the manifest the run's outcome is derived from, and the account when one is given.\<close>

definition select ::
  "settings \<Rightarrow> run_facts \<Rightarrow> (string \<Rightarrow> manifest option) \<Rightarrow> pstate
     \<Rightarrow> pstate \<times> run_facts \<times> delivery_account option"
where
  "select cfg rf disk st =
     (if user_dispute st \<noteq> None then (st, rf, None)
      else
        let pool = candidates cfg rf disk st in
        if pool = [] then (st, rf, None)
        else
          let best = best_candidate pool in
          case (if cd_current best then None else cd_entry best) of
            Some h \<Rightarrow> (swapped_state rf st best h, rf\<lparr>rf_manifest := Some (cd_manifest best)\<rparr>, Some (account pool))
          | None \<Rightarrow>
              if 1 < length pool
              then (st\<lparr>ladder_record := (with_attempt st (classify (rf_catalogue rf) st))
                        \<lparr>l_delivered_from := Some (cd_attempt best)\<rparr>\<rparr>, rf, Some (account pool))
              else (st, rf, None))"

section \<open>Candidates are valid meshes\<close>

lemma measured_candidate:
  assumes "measure_candidate cfg rf st attempt e ws m entry current findings cs = Some c"
  shows "\<not> py_true (num_at (mf_quality m) ''fatal'') \<and> cd_manifest c = m \<and> cd_workspace c = ws
     \<and> cd_entry c = entry \<and> cd_current c = current \<and> cd_engine c = e \<and> cd_attempt c = attempt
     \<and> cd_wrong_problem c = (if VERDICT_BY_LIMITS cfg then 0 else length (blocking_findings findings))"
  using assms by (auto simp: measure_candidate_def Let_def split: if_splits)

lemma current_candidate_is:
  assumes "current_candidate cfg rf disk st = Some c"
  shows "current_valid st \<and> cd_current c \<and> cd_workspace c = openfoam_workspace st \<and> openfoam_workspace st \<noteq> []
     \<and> \<not> py_true (num_at (mf_quality (cd_manifest c)) ''fatal'') \<and> cd_attempt c = retry_count st
     \<and> (rf_manifest rf = Some (cd_manifest c) \<or> rf_manifest rf = None \<and> disk (openfoam_workspace st) = Some (cd_manifest c))
     \<and> cd_wrong_problem c = (if VERDICT_BY_LIMITS cfg then 0 else length (blocking_findings (reviewer_axis_findings st)))"
  using assms by (auto simp: current_candidate_def Let_def split: if_splits option.splits dest!: measured_candidate)

lemma history_candidate_is:
  assumes "c \<in> set (history_candidates cfg rf disk st seen hs)"
  shows "\<exists>h \<in> set hs. cd_entry c = Some h \<and> \<not> cd_current c \<and> h_verdict h \<in> {''PASS'', ''FAIL''}
     \<and> cd_workspace c = h_workspace h \<and> disk (h_workspace h) = Some (cd_manifest c)
     \<and> cd_engine c = engine_of (cd_manifest c) (h_engine h) st \<and> cd_attempt c = h_attempt h
     \<and> \<not> py_true (num_at (mf_quality (cd_manifest c)) ''fatal'')
     \<and> cd_wrong_problem c = (if VERDICT_BY_LIMITS cfg then 0 else length (blocking_findings (h_findings h)))
     \<and> cd_workspace c \<notin> set seen"
  using assms
proof (induction hs arbitrary: seen)
  case Nil
  then show ?case by simp
next
  case (Cons h hs)
  show ?case
  proof (cases "h_verdict h \<notin> {''PASS'', ''FAIL''} \<or> h_workspace h = [] \<or> h_workspace h \<in> set seen \<or> disk (h_workspace h) = None")
    case True
    with Cons.prems have "c \<in> set (history_candidates cfg rf disk st seen hs)" by (auto split: if_splits)
    from Cons.IH [OF this] show ?thesis by auto
  next
    case False
    then obtain m where m: "disk (h_workspace h) = Some m" by auto
    let ?mc = "measure_candidate cfg rf st (h_attempt h) (engine_of m (h_engine h) st) (h_workspace h) m
                  (Some h) False (h_findings h) (h_caveats h)"
    show ?thesis
    proof (cases ?mc)
      case None
      with False m Cons.prems have "c \<in> set (history_candidates cfg rf disk st seen hs)" by auto
      from Cons.IH [OF this] show ?thesis by auto
    next
      case (Some d)
      with False m Cons.prems consider "c = d"
        | "c \<in> set (history_candidates cfg rf disk st (h_workspace h # seen) hs)"
        by auto
      then show ?thesis
      proof cases
        case 1
        with measured_candidate [OF Some] False m show ?thesis by auto
      next
        case 2
        from Cons.IH [OF this] show ?thesis by auto
      qed
    qed
  qed
qed

lemma candidate_cases:
  assumes "c \<in> set (candidates cfg rf disk st)"
  obtains (current) "current_candidate cfg rf disk st = Some c"
  | (history) "c \<in> set (history_candidates cfg rf disk st [] (review_history st))"
      "\<not> (\<exists>d. current_candidate cfg rf disk st = Some d)"
  | (earlier) d where "current_candidate cfg rf disk st = Some d"
      "c \<in> set (history_candidates cfg rf disk st [cd_workspace d] (review_history st))"
  using assms by (auto simp: candidates_def split: option.splits)

lemma best_candidate_in: "pool \<noteq> [] \<Longrightarrow> best_candidate pool \<in> set pool"
  by (simp add: best_candidate_def arg_min_list_in)

lemma best_candidate_least: "c \<in> set pool \<Longrightarrow> rank_key (best_candidate pool) \<le> rank_key c"
  by (simp add: best_candidate_def arg_min_list_least)

section \<open>The best mesh is delivered, and the account replays\<close>

lemma recorded_rank_ordered [simp]: "ordered_rank (rk_rank (recorded_rank c)) = rank_key c"
proof -
  have fin: "or_inf x \<in> {PInf} \<union> range Fin" for x by (cases x) (simp_all add: or_inf_def)
  have "\<forall>x \<in> set (rank_key c). x \<in> {PInf} \<union> range Fin"
    using fin by (simp add: rank_key_def number_of_bool_def)
  then have "map (\<lambda>x. or_else (if x \<in> {PInf, NInf, NaN} then None else Some x) PInf) (rank_key c) = rank_key c"
    by (intro map_idI) auto
  then show ?thesis by (simp add: recorded_rank_def ordered_rank_def comp_def)
qed

lemma recorded_rank_attempt [simp]: "rk_attempt (recorded_rank c) = int (cd_attempt c)"
  by (simp add: recorded_rank_def)

lemma length_rank_key [simp]: "length (rank_key c) = 10"
  by (simp add: rank_key_def)

lemma rule_chosen_is_delivery_rule:
  "rule_chosen a b = delivery_rule (rk_rank (recorded_rank a)) (rk_rank (recorded_rank b))"
proof (cases "first_difference (rank_key a) (rank_key b)")
  case None
  then show ?thesis
    by (simp add: rule_chosen_def deciding_def delivery_rule_def) (simp add: DELIVERY_RULES_def)
next
  case (Some i)
  then have "i < length DELIVERY_RULES"
    using first_difference_Some [OF Some] by (simp add: DELIVERY_RULES_def)
  with Some show ?thesis by (simp add: rule_chosen_def deciding_def delivery_rule_def)
qed

lemma sort_recorded:
  "sort_key (\<lambda>c. ordered_rank (rk_rank c)) (map recorded_rank pool) = map recorded_rank (sort_key rank_key pool)"
proof (induction pool)
  case (Cons c pool)
  have "insort_key (\<lambda>c. ordered_rank (rk_rank c)) (recorded_rank c) (map recorded_rank xs)
      = map recorded_rank (insort_key rank_key c xs)" for xs
    by (induction xs) simp_all
  with Cons show ?case by simp
qed simp

lemma sorted_pool:
  assumes "pool \<noteq> []"
  shows "sort_key rank_key pool = best_candidate pool # sort_key rank_key (remove1 (best_candidate pool) pool)"
  unfolding best_candidate_def by (rule sort_key_least [OF assms])

lemma delivered_account:
  assumes "pool \<noteq> []"
  shows "delivered (da_candidates (account pool)) = (Some (int (da_attempt (account pool))), da_rule (account pool))"
proof (cases "remove1 (best_candidate pool) pool")
  case Nil
  then have "length pool = 1"
    using assms best_candidate_in [OF assms] by (metis One_nat_def Suc_pred length_0_conv length_greater_0_conv length_remove1)
  then obtain c where "pool = [c]" by (auto simp: length_Suc_conv)
  then show ?thesis
    using Nil by (simp add: account_def delivered_def best_candidate_def DELIVERY_ONLY_ONE_def Let_def)
next
  case (Cons d ds)
  let ?others = "remove1 (best_candidate pool) pool"
  have two: "sort_key rank_key pool = best_candidate pool # best_candidate ?others # sort_key rank_key (remove1 (best_candidate ?others) ?others)"
    using sorted_pool [OF assms] sorted_pool [of ?others] Cons by simp
  have "length pool \<noteq> 1"
    using Cons best_candidate_in [OF assms] by (auto simp: length_Suc_conv)
  then obtain a b rest where pool: "pool = a # b # rest"
    using assms by (cases pool; cases "tl pool") auto
  have "delivered (map recorded_rank pool)
      = (let s = sort_key (\<lambda>c. ordered_rank (rk_rank c)) (map recorded_rank pool)
         in (Some (rk_attempt (s ! 0)), delivery_rule (rk_rank (s ! 0)) (rk_rank (s ! 1))))"
    by (simp add: delivered_def pool del: sort_key_simps)
  also have "\<dots> = (Some (int (cd_attempt (best_candidate pool))), rule_chosen (best_candidate pool) (best_candidate ?others))"
    by (simp only: sort_recorded two Let_def) (simp add: rule_chosen_is_delivery_rule)
  finally show ?thesis using Cons by (simp add: account_def Let_def)
qed

text \<open>
  C3: the best valid mesh is delivered, and the record of the choice replays. Unless the run is a
  dispute or holds no valid mesh, the state a finished run is judged from names a candidate's
  workspace, engine and manifest; that mesh has no fatal defect and no other candidate ranks before
  it; the executor's and the review's facts are that attempt's. Whenever a choice was made or the
  state was moved, the account names the attempt and the rule that the rulebook gives again from the
  recorded candidates alone.
\<close>

theorem best_valid_mesh_delivered:
  assumes "user_dispute st = None" and pool: "candidates cfg rf disk st \<noteq> []"
    and sel: "select cfg rf disk st = (st', rf', acc)"
  shows "\<exists>c \<in> set (candidates cfg rf disk st).
       (\<forall>d \<in> set (candidates cfg rf disk st). rank_key c \<le> rank_key d)
     \<and> openfoam_workspace st' = cd_workspace c \<and> executor_success st' \<and> executor_failed_gate st' = []
     \<and> \<not> py_true (num_at (mf_quality (cd_manifest c)) ''fatal'')
     \<and> (\<not> cd_current c \<longrightarrow> engine st' = cd_engine c \<and> rf_manifest rf' = Some (cd_manifest c)
          \<and> api_failure st' = []
          \<and> (\<exists>h \<in> set (review_history st). reviewer_verdict st' = h_verdict h \<and> h_workspace h = cd_workspace c
                \<and> requirement_caveats st' = h_caveats h \<and> reviewer_axis_findings st' = h_findings h))
     \<and> (cd_current c \<longrightarrow> engine st' = engine st \<and> reviewer_verdict st' = reviewer_verdict st)
     \<and> (acc = None \<longrightarrow> candidates cfg rf disk st = [c] \<and> cd_current c)
     \<and> (\<forall>a. acc = Some a \<longrightarrow> da_attempt a = cd_attempt c
          \<and> delivered (da_candidates a) = (Some (int (cd_attempt c)), da_rule a)
          \<and> l_delivered_from (ladder_record st') = Some (cd_attempt c))"
proof (intro bexI [of _ "best_candidate (candidates cfg rf disk st)"])
  let ?pool = "candidates cfg rf disk st"
  let ?c = "best_candidate ?pool"
  show in_pool: "?c \<in> set ?pool" by (rule best_candidate_in [OF pool])
  have least: "\<forall>d \<in> set ?pool. rank_key ?c \<le> rank_key d" by (simp add: best_candidate_least)
  have acc: "da_attempt (account ?pool) = cd_attempt ?c" by (simp add: account_def Let_def)
  have replay: "delivered (da_candidates (account ?pool)) = (Some (int (cd_attempt ?c)), da_rule (account ?pool))"
    using delivered_account [OF pool] acc by simp
  have facts: "(cd_current ?c \<and> current_valid st \<and> cd_workspace ?c = openfoam_workspace st)
      \<or> (\<not> cd_current ?c \<and> (\<exists>h \<in> set (review_history st). cd_entry ?c = Some h \<and> h_workspace h = cd_workspace ?c))"
    and sound: "\<not> py_true (num_at (mf_quality (cd_manifest ?c)) ''fatal'')"
    using in_pool by (auto elim!: candidate_cases dest: current_candidate_is history_candidate_is)
  consider (current) "cd_current ?c" "current_valid st" "cd_workspace ?c = openfoam_workspace st"
    | (moved) h where "\<not> cd_current ?c" "h \<in> set (review_history st)" "cd_entry ?c = Some h" "h_workspace h = cd_workspace ?c"
    using facts by blast
  then show "(\<forall>d \<in> set ?pool. rank_key ?c \<le> rank_key d)
     \<and> openfoam_workspace st' = cd_workspace ?c \<and> executor_success st' \<and> executor_failed_gate st' = []
     \<and> \<not> py_true (num_at (mf_quality (cd_manifest ?c)) ''fatal'')
     \<and> (\<not> cd_current ?c \<longrightarrow> engine st' = cd_engine ?c \<and> rf_manifest rf' = Some (cd_manifest ?c)
          \<and> api_failure st' = []
          \<and> (\<exists>h \<in> set (review_history st). reviewer_verdict st' = h_verdict h \<and> h_workspace h = cd_workspace ?c
                \<and> requirement_caveats st' = h_caveats h \<and> reviewer_axis_findings st' = h_findings h))
     \<and> (cd_current ?c \<longrightarrow> engine st' = engine st \<and> reviewer_verdict st' = reviewer_verdict st)
     \<and> (acc = None \<longrightarrow> ?pool = [?c] \<and> cd_current ?c)
     \<and> (\<forall>a. acc = Some a \<longrightarrow> da_attempt a = cd_attempt ?c
          \<and> delivered (da_candidates a) = (Some (int (cd_attempt ?c)), da_rule a)
          \<and> l_delivered_from (ladder_record st') = Some (cd_attempt ?c))"
  proof cases
    case current
    have valid: "executor_success st" "executor_failed_gate st = []"
      using current(2) by (simp_all add: current_valid_def Let_def)
    show ?thesis
    proof (cases "1 < length ?pool")
      case True
      then have "st' = st\<lparr>ladder_record := (with_attempt st (classify (rf_catalogue rf) st))
                        \<lparr>l_delivered_from := Some (cd_attempt ?c)\<rparr>\<rparr>" "acc = Some (account ?pool)"
        using sel assms(1) pool current(1) by (auto simp: select_def Let_def)
      with current valid least sound acc replay show ?thesis by simp
    next
      case False
      then have "length ?pool = 1" using pool by (cases ?pool) auto
      then have "?pool = [?c]" using in_pool by (auto simp: length_Suc_conv)
      moreover have "st' = st" "acc = None"
        using sel assms(1) pool current(1) False by (simp_all add: select_def Let_def)
      ultimately show ?thesis using current valid least sound by simp
    qed
  next
    case moved
    then have "st' = swapped_state rf st ?c h" "rf' = rf\<lparr>rf_manifest := Some (cd_manifest ?c)\<rparr>"
        "acc = Some (account ?pool)"
      using sel assms(1) pool by (simp_all add: select_def Let_def)
    with moved least sound acc replay show ?thesis by (auto simp: swapped_state_def)
  qed
qed

section \<open>A run that holds a deliverable mesh is delivered\<close>

lemma wrong_problem_ranked_last:
  assumes "rank_key c \<le> rank_key d" "cd_wrong_problem d = 0"
  shows "cd_wrong_problem c = 0"
  using assms by (auto simp: rank_key_def number_of_bool_def split: if_splits)

lemma strip_wrapped:
  assumes "starts_with MARKER_OPEN s" "ends_with ''>>'' s"
  shows "strip s = s"
proof -
  from assms(1) obtain t where t: "s = CHR ''<'' # t"
    by (cases s) (auto simp: MARKER_OPEN_def)
  have h: "dropWhile is_space s = s" by (simp add: t is_space_def Let_def)
  from assms(2) obtain u where "rev s = CHR ''>'' # u"
    by (cases "rev s") (auto simp: ends_with_def)
  then have "dropWhile is_space (rev s) = rev s" by (simp add: is_space_def Let_def)
  with h show ?thesis by (simp add: strip_def)
qed

lemma reviewer_marker_unwrapped:
  assumes "starts_with ''reviewer_'' (result_marker s)"
  shows "starts_with ''reviewer_'' (result_marker (unwrapped s))"
proof (cases "starts_with MARKER_OPEN s \<and> ends_with ''>>'' s")
  case True
  then have m: "result_marker s = strip (unwrapped s)"
    by (simp add: result_marker_def Let_def strip_wrapped)
  then have "\<not> starts_with MARKER_OPEN (strip (unwrapped s))"
    using assms by (cases "strip (unwrapped s)") (auto simp: MARKER_OPEN_def)
  then have "result_marker (unwrapped s) = strip (unwrapped s)" by (simp add: result_marker_def Let_def)
  with m assms show ?thesis by simp
next
  case False
  then have "unwrapped s = s" by (auto simp: unwrapped_def)
  with assms show ?thesis by simp
qed


section \<open>A run whose second attempt failed a gate\<close>

definition demo_history :: "review_entry list" where
  "demo_history = [\<lparr>h_attempt = 1, h_workspace = ''a1'', h_evidence_key = [], h_verdict = ''PASS'',
     h_findings = [], h_caveats = [], h_engine = ''snappy''\<rparr>]"

definition demo_last :: pstate where
  "demo_last = (initial_state ''cfmesh'' ''system'' None)
     \<lparr>retry_count := 2, openfoam_workspace := ''a2'', executor_failed_gate := ''finalize'',
      review_history := demo_history\<rparr>"

definition demo_disk :: "string \<Rightarrow> manifest option" where
  "demo_disk ws = (if ws = ''a1'' then Some demo_manifest else None)"

lemma demo_pool:
  "candidates (end_settings False) demo_facts demo_disk demo_last \<noteq> []"
  "\<forall>c \<in> set (candidates (end_settings False) demo_facts demo_disk demo_last).
     cd_workspace c = ''a1'' \<and> cd_wrong_problem c = 0"
proof -
  have "0 < length (candidates (end_settings False) demo_facts demo_disk demo_last)" by code_simp
  then show "candidates (end_settings False) demo_facts demo_disk demo_last \<noteq> []" by auto
  show "\<forall>c \<in> set (candidates (end_settings False) demo_facts demo_disk demo_last).
     cd_workspace c = ''a1'' \<and> cd_wrong_problem c = 0"
    by code_simp
qed

lemma demo_last_facts:
  "user_dispute demo_last = None" "\<not> VERDICT_BY_LIMITS (end_settings False)"
  "\<not> is_fea (rf_purpose demo_facts)" "\<not> current_valid demo_last"
  "\<forall>h \<in> set (review_history demo_last). h_verdict h \<noteq> ''FAIL''"
  by code_simp+

theorem best_valid_mesh_delivered_witness:
  "\<exists>st' rf' acc. select (end_settings False) demo_facts demo_disk demo_last = (st', rf', acc)
     \<and> openfoam_workspace st' = ''a1'' \<and> executor_success st'"
proof -
  obtain st' rf' acc where sel: "select (end_settings False) demo_facts demo_disk demo_last = (st', rf', acc)"
    by (metis prod_cases3)
  from best_valid_mesh_delivered [OF demo_last_facts(1) demo_pool(1) sel] demo_pool(2) sel
  show ?thesis by fastforce
qed


end
