(* ===== verification/WhyRecord.thy ===== *)
theory WhyRecord
  imports ReviewDelivery GraphRuns
begin

text \<open>
  A finished run's why record (\<open>application/why_record.py\<close>): its engine pick, every switch on the
  ladder record and the delivered attempt, as entries that cite a rule. The ranking's notes and the
  file format of the source are given; the fluid region's and the user notes' entries, the rejected
  alternatives and the sentences are left out.
\<close>

section \<open>The words of a reason\<close>

fun why_words :: "why \<Rightarrow> string" where
  "why_words NotFailed = ''the last attempt did not fail''"
| "why_words LadderOff = ''the fallback ladder is switched off''"
| "why_words AnotherCannot = ''another engine cannot change this failure''"
| "why_words ReviewNeverMoves = ''a review never moves the run to another engine - the mesh passed every measured check, so this engine's own levers answer it''"
| "why_words NotOurs = ''the engine is not ours to change''"
| "why_words NoUntriedEngine = ''no untried engine delivers the approved mesh''"
| "why_words NoRegularAttempt = ''no regular attempt is left''"
| "why_words LeversFirst = ''a measured check failed - this engine's own levers are tried first''"
| "why_words RetryFits = ''a retry here fits and still leaves every untried rung an attempt''"
| "why_words KindTakesOver = ''the system's own pick made no usable mesh, so the next ranked engine takes over with another kind of mesh''"
| "why_words CameOutBroken = ''this engine's mesh of this shape came out broken''"
| "why_words CouldNotBuild = ''this engine could not build a mesh''"
| "why_words SameFailureAgain = ''the same failure repeated here''"
| "why_words SharedAttempts = ''the shared attempts go to the untried engine''"

fun kind_words :: "ladder_kind \<Rightarrow> string" where
  "kind_words ENGINE = ''engine''"
| "kind_words FIXABLE = ''fixable''"
| "kind_words NEVER = ''never''"
| "kind_words REVIEW = ''review''"

section \<open>The entries\<close>

record ranking_notes =
  rn_recommended :: string
  rn_rule :: string
  rn_measured :: bool
  rn_format :: string
  rn_reads :: "string \<Rightarrow> string \<Rightarrow> bool"

definition own_format :: "ranking_notes \<Rightarrow> string list \<Rightarrow> string list" where
  "own_format rn cs = (if rn_format rn = [] then [] else filter (\<lambda>e. rn_reads rn e (rn_format rn)) cs)"

definition engine_pick_entry :: "ranking_notes \<Rightarrow> pstate \<Rightarrow> decision_entry option" where
  "engine_pick_entry rn st =
     (let lad = ladder_record st;
          written = or_else (l_approved lad) [];
          approved =
            (if written \<noteq> [] then written
             else case find (\<lambda>a. a_engine a \<noteq> []) (l_attempts lad) of
               Some a \<Rightarrow> a_engine a | None \<Rightarrow> engine st);
          order = filter (\<lambda>e. e \<noteq> []) (l_order lad);
          i = \<lparr>pk_source = source_of st, pk_approved = approved, pk_recommended = rn_recommended rn,
               pk_rule = rn_rule rn, pk_measured = rn_measured rn,
               pk_own = own_format rn (if order = [] then [approved] else order)\<rparr>
      in if approved = [] then None
         else Some \<lparr>en_inputs = PickInputs i, en_value = EngineValue (fst (engine_pick i)),
                en_rule = snd (engine_pick i), en_also = [''ENG-1''],
                en_source = engine_pick_source (snd (engine_pick i))\<rparr>)"

definition switch_entry :: "ladder_switch \<Rightarrow> decision_entry" where
  "switch_entry s =
     (let i = \<lparr>sw_why = why_words (w_why s), sw_kind = kind_words (w_kind s),
               sw_from = w_from s, sw_to = w_to s\<rparr>
      in \<lparr>en_inputs = SwitchInputs i, en_value = EngineValue (fst (switch_decided i)),
          en_rule = snd (switch_decided i), en_also = [''ENG-5''], en_source = SOURCE_RULE\<rparr>)"

definition switch_entries :: "pstate \<Rightarrow> decision_entry list" where
  "switch_entries st = map switch_entry (l_switches (ladder_record st))"

definition delivered_a_mesh :: "pstate \<Rightarrow> bool" where
  "delivered_a_mesh st = (executor_success st \<and> executor_failed_gate st = [])"

definition delivered_entry :: "delivery_account option \<Rightarrow> pstate \<Rightarrow> decision_entry option" where
  "delivered_entry acc st =
     (case acc of
        Some a \<Rightarrow>
          Some \<lparr>en_inputs = DeliveredInputs (da_candidates a),
             en_value = AttemptValue (Some (int (da_attempt a))),
             en_rule = (if da_rule a \<noteq> [] then da_rule a else snd (delivered (da_candidates a))),
             en_also = [], en_source = SOURCE_RULE\<rparr>
      | None \<Rightarrow>
          if \<not> delivered_a_mesh st then None
          else Some \<lparr>en_inputs = DeliveredInputs
                 [\<lparr>rk_attempt = int (retry_count st), rk_engine = engine st, rk_rank = []\<rparr>],
               en_value = AttemptValue (Some (int (retry_count st))), en_rule = DELIVERY_ONLY_ONE,
               en_also = [], en_source = SOURCE_RULE\<rparr>)"

definition given :: "'a option \<Rightarrow> 'a list" where
  "given x = (case x of None \<Rightarrow> [] | Some a \<Rightarrow> [a])"

definition entries :: "ranking_notes \<Rightarrow> delivery_account option \<Rightarrow> pstate \<Rightarrow> decision_entry list" where
  "entries rn acc st =
     given (engine_pick_entry rn st) @ switch_entries st @ given (delivered_entry acc st)"

section \<open>Every switch is made by one of the rules that move\<close>

definition switch_fits :: "ladder_switch \<Rightarrow> bool" where
  "switch_fits s = (w_to s \<noteq> [] \<and> w_to s \<noteq> w_from s
     \<and> (case w_why s of
          CameOutBroken \<Rightarrow> w_kind s = ENGINE
        | CouldNotBuild \<Rightarrow> w_kind s = ENGINE
        | SameFailureAgain \<Rightarrow> w_kind s = FIXABLE
        | SharedAttempts \<Rightarrow> w_kind s = FIXABLE
        | KindTakesOver \<Rightarrow> w_kind s \<in> {ENGINE, FIXABLE}
        | _ \<Rightarrow> False))"

fun moving_rule :: "why \<Rightarrow> string" where
  "moving_rule CameOutBroken = ''SW-1''"
| "moving_rule CouldNotBuild = ''SW-2''"
| "moving_rule SameFailureAgain = ''SW-3''"
| "moving_rule SharedAttempts = ''SW-4''"
| "moving_rule KindTakesOver = ''SW-16''"
| "moving_rule w = []"

lemma moving_words:
  "switch_rule (why_words CameOutBroken) = ''SW-1''"
  "switch_rule (why_words CouldNotBuild) = ''SW-2''"
  "switch_rule (why_words SameFailureAgain) = ''SW-3''"
  "switch_rule (why_words SharedAttempts) = ''SW-4''"
  "switch_rule (why_words KindTakesOver) = ''SW-16''"
  by code_simp+

declare why_words.simps [simp del]

lemma fitting_switch_decided:
  assumes "switch_fits s"
  shows "switch_decided \<lparr>sw_why = why_words (w_why s), sw_kind = kind_words (w_kind s),
           sw_from = w_from s, sw_to = w_to s\<rparr> = (w_to s, moving_rule (w_why s))"
    and "moving_rule (w_why s) \<noteq> []"
  using assms
  by (cases "w_why s"; auto simp: switch_fits_def switch_decided_def moving_words MOVES_ON_def)+

lemma switch_entry_replays [simp]: "replay_agrees (switch_entry s)"
  by (simp add: replay_agrees_def switch_entry_def Let_def map_prod_def split: prod.split)

lemma pick_entry_replays: "engine_pick_entry rn st = Some e \<Longrightarrow> replay_agrees e"
  by (auto simp: engine_pick_entry_def replay_agrees_def Let_def map_prod_def case_prod_beta
      split: if_splits)

lemma decide_fits:
  assumes to: "switch_to (decide cfg cat q st rec) \<noteq> []" and f: "decided_on (decide cfg cat q st rec) = Some f"
  shows "switch_fits \<lparr>w_attempt = n, w_from = engine st, w_to = switch_to (decide cfg cat q st rec),
           w_because = c, w_kind = kind f, w_why = reason (decide cfg cat q st rec)\<rparr>"
proof -
  obtain f' r where d: "classify cat st = Some f'" "decided_on (decide cfg cat q st rec) = Some f'"
      "kind f' = ENGINE \<or> kind f' = FIXABLE" "r \<in> set (untried cat q (st\<lparr>ladder_record := rec\<rparr>))"
      "switch_to (decide cfg cat q st rec) = rung_engine r"
    by (rule decide_moves [OF to])
  have "f' = f" using d(2) f by simp
  have "rung_engine r \<noteq> engine st"
    using untried_rung [OF d(4)] to d(5) by (auto simp: set_tried_engines)
  moreover have "case reason (decide cfg cat q st rec) of
          CameOutBroken \<Rightarrow> kind f = ENGINE | CouldNotBuild \<Rightarrow> kind f = ENGINE
        | SameFailureAgain \<Rightarrow> kind f = FIXABLE | SharedAttempts \<Rightarrow> kind f = FIXABLE
        | KindTakesOver \<Rightarrow> kind f \<in> {ENGINE, FIXABLE} | _ \<Rightarrow> False"
    using to d(1,3) \<open>f' = f\<close> by (auto simp: decide_def stay_def Let_def split: if_splits)
  ultimately show ?thesis using to d(5) by (simp add: switch_fits_def split: why.splits)
qed

section \<open>Along a run\<close>

lemma switches_kept [simp]:
  "l_switches (ladder_record (seed_measured_order mo st)) = l_switches (ladder_record st)"
  "l_switches (ladder_record (with_staged_passages sg st)) = l_switches (ladder_record st)"
  "l_switches (with_attempt st fo) = l_switches (ladder_record st)"
  by (auto simp: seed_measured_order_def with_staged_passages_def with_attempt_def Let_def
      split: option.split prod.split)

definition switches_fit :: "pstate \<Rightarrow> bool" where
  "switches_fit st = (\<forall>s \<in> set (l_switches (ladder_record st)). switch_fits s)"

lemma fallback_switches_fit:
  assumes "switches_fit st"
  shows "switches_fit (node_engine_fallback cfg cat q mo sg st)"
proof -
  define s where "s = with_staged_passages sg (seed_measured_order mo st)"
  define rec where "rec = with_attempt s (classify cat s)"
  define d where "d = decide cfg cat q s rec"
  have rec: "\<forall>w \<in> set (l_switches rec). switch_fits w"
    using assms by (simp add: rec_def s_def switches_fit_def)
  have new: "switch_fits \<lparr>w_attempt = n, w_from = engine s, w_to = switch_to d, w_because = cause f,
      w_kind = kind f, w_why = reason d\<rparr>" if "switch_to d \<noteq> []" "decided_on d = Some f" for n f
    using decide_fits that unfolding d_def by blast
  have "\<forall>w \<in> set (l_switches (with_switch rec (retry_count s + 1) (engine s) (switch_to d) f (reason d))).
      switch_fits w" if "switch_to d \<noteq> []" "decided_on d = Some f" for f
    using rec new [OF that] by (auto simp: with_switch_def)
  with rec show ?thesis
    unfolding node_engine_fallback_def Let_def s_def [symmetric] rec_def [symmetric] d_def [symmetric]
    by (auto simp: switches_fit_def split: option.split)
qed

lemma deliver_switches [simp]:
  "l_switches (ladder_record (node_deliver_sound cat mf st)) = l_switches (ladder_record st)"
  by (auto simp: node_deliver_sound_def Let_def split: option.split)

lemma select_switches:
  "node_engine_select cat si st = Inr s \<Longrightarrow> l_switches (ladder_record s) = l_switches (ladder_record st)"
  by (auto simp: node_engine_select_def Let_def split: if_splits)

fun explained :: "gstate \<Rightarrow> bool" where
  "explained (At n st r) \<longleftrightarrow> switches_fit st"
| "explained (Ended st m) \<longleftrightarrow> switches_fit st"
| "explained (Crashed c) \<longleftrightarrow> True"

lemma explained_go [simp]: "explained (go n st r) \<longleftrightarrow> switches_fit st"
  by (simp add: go_def)

lemma explained_step:
  assumes "explained g"
  shows "explained (graph_step pl w g)"
proof (cases g)
  case (At n st r)
  then have k: "switches_fit st" using assms by simp
  note same = switches_fit_def
  have "explained (run_node pl w n st r)"
  proof (cases n)
    case Intake
    with k show ?thesis by (auto simp: node_intake_def same Let_def split: option.split)
  next
    case EngineSelect
    with k show ?thesis by (auto simp: same dest: select_switches split: sum.split)
  next
    case GeometryAdmission
    with k show ?thesis
      by (auto simp: node_geometry_admission_def refuse_geometry_def same Let_def split: option.split)
  next
    case BuilderTurn
    with k show ?thesis by (auto simp: node_builder_def same)
  next
    case ExecutorRun
    with k show ?thesis by (auto simp: same dest: executor_frame(14) split: sum.split)
  next
    case Classifying
    with k show ?thesis by (simp add: same)
  next
    case EngineFallback
    with k show ?thesis by (simp add: fallback_switches_fit)
  next
    case ReviewerRun
    with k show ?thesis by (simp add: same Let_def)
  next
    case DeliverSound
    with k show ?thesis by (simp add: same)
  qed (use k in \<open>auto simp: same node_infra_retry_def node_review_retry_def node_guard_replay_def\<close>)
  with At show ?thesis by (simp add: fenced_def)
qed (use assms in simp_all)

lemma explained_run: "explained g \<Longrightarrow> explained (graph_run pl ws g)"
  by (induction ws arbitrary: g) (simp_all add: explained_step)

lemma select_keeps_switches:
  "select cfg rf disk st = (st', rf', acc) \<Longrightarrow> l_switches (ladder_record st') = l_switches (ladder_record st)"
  by (auto simp: select_def swapped_state_def Let_def split: if_splits option.splits)

lemma delivered_entry_replays:
  assumes "select cfg rf disk st = (st', rf', acc)" "delivered_entry acc st' = Some e"
  shows "replay_agrees e"
proof (cases acc)
  case None
  with assms(2) show ?thesis
    by (auto simp: delivered_entry_def replay_agrees_def delivered_def split: if_splits)
next
  case (Some a)
  then have "candidates cfg rf disk st \<noteq> []" "a = account (candidates cfg rf disk st)"
    using assms(1) by (auto simp: select_def Let_def split: if_splits option.splits)
  then have "delivered (da_candidates a) = (Some (int (da_attempt a)), da_rule a)"
    using delivered_account by simp
  with Some assms(2) show ?thesis by (auto simp: delivered_entry_def replay_agrees_def)
qed

text \<open>
  C17: the why record of a run holds up. Whatever a run met, every entry of its record decides the same
  again from the entry's own inputs; every switch on it names one of the five rules that move a run,
  the kind of failure that rule is for and an engine other than the one it left; and a run that
  delivered a mesh has an entry for the attempt it delivered.
\<close>

theorem why_record_replays:
  assumes "l_switches (ladder_record st) = []"
    and run: "graph_run pl ws (graph_start st) \<in> {At n s r, Ended s m}"
    and sel: "select cfg rf disk s = (s', rf', acc)"
  shows "replay (entries rn acc s') = []
     \<and> (\<forall>w \<in> set (l_switches (ladder_record s')).
          en_value (switch_entry w) = EngineValue (w_to w) \<and> w_to w \<notin> {[], w_from w}
          \<and> en_rule (switch_entry w) \<in> {''SW-1'', ''SW-2'', ''SW-3'', ''SW-4'', ''SW-16''})
     \<and> (delivered_a_mesh s' \<longrightarrow> delivered_entry acc s' \<noteq> None)"
proof (intro conjI ballI)
  have "switches_fit st" using assms(1) by (simp add: switches_fit_def)
  with explained_run [of "graph_start st" pl ws] run have "switches_fit s"
    by (auto simp: graph_start_def)
  then have fit: "switches_fit s'" by (simp add: switches_fit_def select_keeps_switches [OF sel])
  show "replay (entries rn acc s') = []"
    using pick_entry_replays delivered_entry_replays [OF sel]
    by (auto simp: replay_empty_iff entries_def given_def switch_entries_def split: option.splits)
  fix w assume "w \<in> set (l_switches (ladder_record s'))"
  then have w: "switch_fits w" using fit by (simp add: switches_fit_def)
  show "en_value (switch_entry w) = EngineValue (w_to w)"
    using fitting_switch_decided(1) [OF w] by (simp add: switch_entry_def Let_def)
  show "w_to w \<notin> {[], w_from w}" using w by (simp add: switch_fits_def)
  show "en_rule (switch_entry w) \<in> {''SW-1'', ''SW-2'', ''SW-3'', ''SW-4'', ''SW-16''}"
    using fitting_switch_decided [OF w] by (cases "w_why w") (simp_all add: switch_entry_def Let_def)
qed (simp add: delivered_entry_def split: option.split)

section \<open>A run that moved\<close>

definition moving_pipeline :: pipeline where
  "moving_pipeline = demo_pipeline\<lparr>pl_catalogue := [demo_spec ''snappy'', demo_spec ''cfmesh'']\<rparr>"

definition moving_world :: gworld where
  "moving_world = failing_world\<lparr>gw_order := Some ([''snappy'', ''cfmesh''], None)\<rparr>"

definition demo_notes :: ranking_notes where
  "demo_notes = \<lparr>rn_recommended = ''snappy'', rn_rule = ''ENG-2'', rn_measured = True, rn_format = [],
     rn_reads = (\<lambda>e f. False)\<rparr>"

theorem why_record_replays_witness:
  "\<exists>s m s' rf' acc. graph_run moving_pipeline (replicate 12 moving_world)
         (graph_start (initial_state ''snappy'' ''system'' None)) = Ended s m
     \<and> select (end_settings False) demo_facts (\<lambda>ws. None) s = (s', rf', acc)
     \<and> l_switches (ladder_record s') \<noteq> [] \<and> replay (entries demo_notes acc s') = []"
proof -
  let ?st = "initial_state ''snappy'' ''system'' None"
  let ?g = "graph_run moving_pipeline (replicate 12 moving_world) (graph_start ?st)"
  have "case ?g of Ended s m \<Rightarrow> l_switches (ladder_record s) \<noteq> [] | _ \<Rightarrow> False" by code_simp
  then obtain s m where g: "?g = Ended s m" and moved: "l_switches (ladder_record s) \<noteq> []"
    by (cases ?g) auto
  obtain s' rf' acc where sel: "select (end_settings False) demo_facts (\<lambda>ws. None) s = (s', rf', acc)"
    by (metis prod_cases3)
  have "l_switches (ladder_record s') \<noteq> []" using moved select_keeps_switches [OF sel] by simp
  moreover have "replay (entries demo_notes acc s') = []"
  proof (rule why_record_replays [THEN conjunct1, OF _ _ sel])
    show "l_switches (ladder_record ?st) = []" by code_simp
    show "?g \<in> {At END s None, Ended s m}" using g by simp
  qed
  ultimately show ?thesis using g sel by blast
qed

end
